(* ===== verification/Prelude.thy ===== *)
theory Prelude
  imports Main "HOL-Library.Word" "HOL-Library.Multiset"
begin

text \<open>
  What every component shares: the Go run-time notions the source relies on (errors and
  wrapping, 64-bit integers, slices), the page arithmetic that every list endpoint repeats,
  and generic list lemmas.  Go strings are byte strings (\<^typ>\<open>string\<close>); a
  \<^verbatim>\<open>float64\<close> is kept as its 64 bits (\<^typ>\<open>64 word\<close>) and its arithmetic is a
  parameter of the model; an instant is an \<^typ>\<open>int\<close> counted in microseconds since the
  epoch, the resolution of the timestamp columns.
\<close>

named_theorems go_defs \<open>run-time definitions that component proofs unfold\<close>

type_synonym time = int
type_synonym float64 = "64 word"

section \<open>Errors\<close>

text \<open>
  The sentinel errors of \<^verbatim>\<open>internal/entity\<close>, the driver's \<^verbatim>\<open>pgx.ErrNoRows\<close>, a database
  error with its SQLSTATE, an error that some other library or service returned, an error
  made by \<^verbatim>\<open>errors.New\<close> or by \<^verbatim>\<open>fmt.Errorf\<close> without \<^verbatim>\<open>%w\<close>, and an error wrapped by
  \<^verbatim>\<open>fmt.Errorf\<close> with \<^verbatim>\<open>%w\<close>.
\<close>

datatype goerr =
    ErrUserNotFound
  | ErrUserAlreadyExists
  | ErrInvalidCredentials
  | ErrUserBanned
  | ErrCannotFollowSelf
  | ErrInvalidTransition
  | ErrVideoNotFound
  | ErrUnsupportedVideoFormat
  | ErrVideoForbidden
  | ErrVideoNotFailed
  | ErrCommentNotFound
  | ErrInvalidParentID
  | ErrLivestreamNotFound
  | ErrInvalidStreamKey
  | ErrPostNotFound
  | ErrPostForbidden
  | ErrVocabularyNotFound
  | ErrNoRows
  | PgError string
  | ExtErr string
  | NewErr string
  | Errorf string goerr

type_synonym 'a res = "goerr + 'a"

text \<open>\<^verbatim>\<open>errors.Is\<close>: the target occurs somewhere on the chain of wrapped errors.\<close>

fun errors_Is :: "goerr \<Rightarrow> goerr \<Rightarrow> bool" where
  "errors_Is (Errorf m e) t = (Errorf m e = t \<or> errors_Is e t)"
| "errors_Is e t = (e = t)"

lemma errors_Is_refl [simp]: "errors_Is e e"
  by (cases e) auto

lemma errors_Is_wrap: "errors_Is e t \<Longrightarrow> errors_Is (Errorf m e) t"
  by simp

section \<open>64-bit integers\<close>

text \<open>
  Go's \<^verbatim>\<open>int\<close> and \<^verbatim>\<open>int64\<close> on the 64-bit targets the service is built for: \<^term>\<open>wrap64\<close>
  brings the exact result of an operation back into the signed range, \<^term>\<open>to_uint64\<close> is
  the conversion \<^verbatim>\<open>uint64(x)\<close>, \<^term>\<open>go_div\<close> truncates toward zero.
\<close>

definition wrap64 :: "int \<Rightarrow> int" where
  "wrap64 x = (x + 2 ^ 63) mod 2 ^ 64 - 2 ^ 63"

definition to_uint64 :: "int \<Rightarrow> nat" where
  "to_uint64 x = nat (x mod 2 ^ 64)"

definition go_div :: "int \<Rightarrow> int \<Rightarrow> int" where
  "go_div a b = sgn a * sgn b * (\<bar>a\<bar> div \<bar>b\<bar>)"

definition in_int64 :: "int \<Rightarrow> bool" where
  "in_int64 x \<longleftrightarrow> - (2 ^ 63) \<le> x \<and> x < 2 ^ 63"

lemma wrap64_id [simp]: "in_int64 x \<Longrightarrow> wrap64 x = x"
  by (simp add: wrap64_def in_int64_def)

lemma wrap64_in_range: "in_int64 (wrap64 x)"
proof -
  have "0 \<le> (x + 2 ^ 63) mod 2 ^ 64" and "(x + 2 ^ 63) mod 2 ^ 64 < (2::int) ^ 64"
    by simp_all
  then show ?thesis by (simp add: wrap64_def in_int64_def)
qed

lemma to_uint64_nonneg: "0 \<le> x \<Longrightarrow> x < 2 ^ 64 \<Longrightarrow> to_uint64 x = nat x"
  by (simp add: to_uint64_def)

lemma to_uint64_neg: "- (2 ^ 63) \<le> x \<Longrightarrow> x < 0 \<Longrightarrow> 2 ^ 63 \<le> to_uint64 x"
proof -
  assume "- (2 ^ 63) \<le> x" and "x < 0"
  then have "(x + 2 ^ 64) mod 2 ^ 64 = x + 2 ^ 64" by (intro mod_pos_pos_trivial) simp_all
  then have "x mod 2 ^ 64 = x + 2 ^ 64" by (simp only: mod_add_self2)
  with \<open>- (2 ^ 63) \<le> x\<close> show ?thesis by (simp add: to_uint64_def le_nat_iff)
qed

lemma go_div_nonneg: "0 \<le> a \<Longrightarrow> 0 < b \<Longrightarrow> go_div a b = a div b"
  by (cases "a = 0") (auto simp: go_div_def)

section \<open>Slices\<close>

text \<open>
  \<^verbatim>\<open>xs[i:j]\<close>: \<^const>\<open>None\<close> is the run-time panic ``slice bounds out of range''.
\<close>

definition go_slice :: "'a list \<Rightarrow> int \<Rightarrow> int \<Rightarrow> 'a list option" where
  "go_slice xs i j =
     (if 0 \<le> i \<and> i \<le> j \<and> j \<le> int (length xs)
      then Some (take (nat (j - i)) (drop (nat i) xs)) else None)"

section \<open>Page arithmetic\<close>

text \<open>
  Every list endpoint computes \<^verbatim>\<open>offset := (page - 1) * limit\<close> and the page count
  \<^verbatim>\<open>(totalItems + limit - 1) / limit\<close> the same way, in 64-bit arithmetic.
\<close>

definition page_offset :: "int \<Rightarrow> int \<Rightarrow> int" where
  "page_offset page limit = wrap64 (wrap64 (page - 1) * limit)"

definition total_pages :: "int \<Rightarrow> int \<Rightarrow> int" where
  "total_pages totalItems limit =
     (if limit > 0 then go_div (wrap64 (wrap64 (totalItems + limit) - 1)) limit else 0)"

text \<open>
  The bounds of the arithmetic: a page request whose numbers stay below \<open>2^31\<close>
  never wraps.  The handlers bound \<^verbatim>\<open>limit\<close> by 50 where they bound it.
\<close>

definition small_int :: "int \<Rightarrow> bool" where
  "small_int x \<longleftrightarrow> 0 \<le> x \<and> x < 2 ^ 31"

lemma page_offset_small:
  assumes "1 \<le> page" "small_int page" "small_int limit"
  shows "page_offset page limit = (page - 1) * limit"
    and "0 \<le> page_offset page limit" and "page_offset page limit < 2 ^ 63"
proof -
  have p: "in_int64 (page - 1)" using assms by (simp add: small_int_def in_int64_def)
  have le: "(page - 1) * limit \<le> 2 ^ 31 * 2 ^ 31"
    using assms by (intro mult_mono) (auto simp: small_int_def)
  have ge: "0 \<le> (page - 1) * limit" using assms by (simp add: small_int_def)
  have "in_int64 ((page - 1) * limit)" using le ge by (simp add: in_int64_def)
  then show eq: "page_offset page limit = (page - 1) * limit"
    using p by (simp add: page_offset_def)
  show "0 \<le> page_offset page limit" and "page_offset page limit < 2 ^ 63"
    using le ge by (simp_all add: eq)
qed

lemma total_pages_small:
  assumes "small_int items" "small_int limit" "0 < limit"
  shows "total_pages items limit = (items + limit - 1) div limit"
proof -
  have "in_int64 (items + limit)" "in_int64 (items + limit - 1)" "0 \<le> items + limit - 1"
    using assms by (simp_all add: small_int_def in_int64_def)
  with assms(3) show ?thesis by (simp add: total_pages_def go_div_nonneg)
qed

lemma ceil_div_bounds:
  fixes n l :: int
  assumes "0 < l"
  shows "n \<le> ((n + l - 1) div l) * l" and "((n + l - 1) div l) * l < n + l"
proof -
  have eq: "((n + l - 1) div l) * l = n + l - 1 - (n + l - 1) mod l"
    by (simp add: minus_mod_eq_div_mult)
  have "0 \<le> (n + l - 1) mod l" "(n + l - 1) mod l < l"
    using assms by simp_all
  then show "n \<le> ((n + l - 1) div l) * l" and "((n + l - 1) div l) * l < n + l"
    using eq by linarith+
qed

lemma ceil_div_le:
  fixes n l :: int
  assumes "0 \<le> n" "0 < l"
  shows "(n + l - 1) div l \<le> n"
proof (cases "n = 0")
  case True
  then show ?thesis using assms(2) by simp
next
  case False
  then have "0 \<le> (n - 1) * (l - 1)" using assms by simp
  then have "n + l - 1 \<le> n * l" by (simp add: algebra_simps)
  then have "(n + l - 1) div l \<le> (n * l) div l" using assms(2) by (rule zdiv_mono1)
  then show ?thesis using assms(2) by simp
qed

lemma total_pages_bounds:
  assumes "small_int items" "small_int limit" "0 < limit"
  shows "items \<le> total_pages items limit * limit" "total_pages items limit * limit < items + limit"
    "0 \<le> total_pages items limit" "total_pages items limit \<le> items"
  unfolding total_pages_small [OF assms]
  using ceil_div_bounds [OF assms(3), of items] ceil_div_le [of items limit] assms
  by (simp_all add: small_int_def pos_imp_zdiv_nonneg_iff)

section \<open>Lists\<close>

lemma find_Some_in: "find P xs = Some x \<Longrightarrow> x \<in> set xs \<and> P x"
  by (induction xs) (auto split: if_splits)

lemma find_append: "find P (xs @ ys) = (case find P xs of None \<Rightarrow> find P ys | Some x \<Rightarrow> Some x)"
  by (induction xs) auto

lemma find_map_same: "(\<And>x. x \<in> set xs \<Longrightarrow> P (f x) = P x) \<Longrightarrow> find P (map f xs) = map_option f (find P xs)"
  by (induction xs) auto

lemma find_filter_keep: "(\<And>x. x \<in> set xs \<Longrightarrow> P x \<Longrightarrow> Q x) \<Longrightarrow> find P (filter Q xs) = find P xs"
  by (induction xs) auto

lemma find_None_filter: "(\<And>x. x \<in> set xs \<Longrightarrow> P x \<Longrightarrow> \<not> Q x) \<Longrightarrow> find P (filter Q xs) = None"
  by (auto simp: find_None_iff)

lemma sorted_wrt_map_keep:
  "sorted_wrt R xs \<Longrightarrow> (\<And>x y. x \<in> set xs \<Longrightarrow> y \<in> set xs \<Longrightarrow> R x y \<Longrightarrow> R (f x) (f y)) \<Longrightarrow>
   sorted_wrt R (map f xs)"
  by (induction xs) auto

lemma pages_concat:
  "concat (map (\<lambda>k. take l (drop (k * l) xs)) [0..<n]) = take (n * l) xs"
proof (induction n)
  case 0
  then show ?case by simp
next
  case (Suc n)
  have "concat (map (\<lambda>k. take l (drop (k * l) xs)) [0..<Suc n]) =
        take (n * l) xs @ take l (drop (n * l) xs)"
    using Suc by simp
  also have "\<dots> = take (n * l + l) xs" by (simp add: take_add)
  finally show ?case by (simp add: add.commute)
qed

text \<open>The pages of a list, from the first to the last, one after the other.\<close>

lemma pages_cover:
  assumes "small_int (int (length xs))" "small_int limit" "0 < limit"
  shows "concat (map (\<lambda>k. take (nat limit) (drop (k * nat limit) xs)) [0..<nat (total_pages (int (length xs)) limit)]) = xs"
proof -
  note b = total_pages_bounds [OF assms]
  have "int (length xs) \<le> int (nat (total_pages (int (length xs)) limit) * nat limit)"
    using b(1,3) assms(3) by simp
  then have "length xs \<le> nat (total_pages (int (length xs)) limit) * nat limit" by linarith
  then show ?thesis by (simp add: pages_concat)
qed

text \<open>The slice of one page, in the integers of the request.\<close>

lemma page_slice:
  assumes "1 \<le> k" "0 < limit"
  shows "nat ((int k - 1) * limit) = (k - 1) * nat limit"
  using assms by (simp add: nat_mult_distrib of_nat_diff)

end
