(* ===== verification/Floats.thy ===== *)
theory Floats
  imports Prelude
begin

text \<open>
  Go's \<^verbatim>\<open>float64\<close>: IEEE 754 binary64 in its 64-bit representation, with round to nearest,
  ties to even.  Addition and multiplication are exact on the dyadic values of the operands and are
  rounded once.  (On a target that fuses \<^verbatim>\<open>x * y + z\<close> Go may round once instead of twice; the
  model is that of \<^verbatim>\<open>amd64\<close>, which does not.)
\<close>

section \<open>The fields of the representation\<close>

definition f_neg :: "float64 \<Rightarrow> bool" where
  "f_neg x \<longleftrightarrow> 2 ^ 63 \<le> uint x"

definition f_exp :: "float64 \<Rightarrow> int" where
  "f_exp x = uint x div 2 ^ 52 mod 2048"

definition f_frac :: "float64 \<Rightarrow> int" where
  "f_frac x = uint x mod 2 ^ 52"

text \<open>\<^verbatim>\<open>math.IsNaN\<close> and \<^verbatim>\<open>math.IsInf(x, 0)\<close>\<close>

definition IsNaN :: "float64 \<Rightarrow> bool" where
  "IsNaN x \<longleftrightarrow> f_exp x = 2047 \<and> f_frac x \<noteq> 0"

definition IsInf :: "float64 \<Rightarrow> bool" where
  "IsInf x \<longleftrightarrow> f_exp x = 2047 \<and> f_frac x = 0"

definition f_finite :: "float64 \<Rightarrow> bool" where
  "f_finite x \<longleftrightarrow> \<not> IsNaN x \<and> \<not> IsInf x"

text \<open>The magnitude of a finite value is \<^verbatim>\<open>f_mant x * 2 ^ f_pow x\<close>.\<close>

definition f_mant :: "float64 \<Rightarrow> int" where
  "f_mant x = (if f_exp x = 0 then f_frac x else 2 ^ 52 + f_frac x)"

definition f_pow :: "float64 \<Rightarrow> int" where
  "f_pow x = (if f_exp x = 0 then - 1074 else f_exp x - 1075)"

definition f_zero :: "float64 \<Rightarrow> bool" where
  "f_zero x \<longleftrightarrow> f_finite x \<and> f_mant x = 0"

definition f_nan :: float64 where
  "f_nan = 0x7FF8000000000001"

definition f_inf :: "bool \<Rightarrow> float64" where
  "f_inf s = (if s then 0xFFF0000000000000 else 0x7FF0000000000000)"

definition f_opposite :: "float64 \<Rightarrow> float64" where
  "f_opposite x = (if f_neg x then word_of_int (uint x - 2 ^ 63) else word_of_int (uint x + 2 ^ 63))"

section \<open>Rounding\<close>

text \<open>The number of binary digits, and the quotient by a power of two rounded to the nearest, ties
  to even.\<close>

function width :: "int \<Rightarrow> int" where
  "width n = (if n \<le> 0 then 0 else 1 + width (n div 2))"
  by auto
termination by (relation "measure nat") auto

declare width.simps [simp del]

definition half_even :: "int \<Rightarrow> nat \<Rightarrow> int" where
  "half_even m s =
     (let q = m div 2 ^ s; r = m mod 2 ^ s in
      if 2 * r < 2 ^ s \<or> (2 * r = 2 ^ s \<and> even q) then q else q + 1)"

text \<open>The value nearest to \<^verbatim>\<open>m * 2 ^ e\<close> for \<^verbatim>\<open>m \<ge> 0\<close>, with sign \<^term>\<open>s\<close>: the exponent of the
  last place is that of the 53rd digit, but not below that of the subnormal numbers.\<close>

definition f_round :: "bool \<Rightarrow> int \<Rightarrow> int \<Rightarrow> float64" where
  "f_round s m e =
     (let ulp = max (e + width m - 53) (- 1074);
          q = (if ulp \<le> e then m * 2 ^ nat (e - ulp) else half_even m (nat (ulp - e)));
          bits = (ulp + 1074) * 2 ^ 52 + q
      in if m = 0 then (if s then 0x8000000000000000 else 0)
         else if 2047 * 2 ^ 52 \<le> bits then f_inf s
         else word_of_int ((if s then 2 ^ 63 else 0) + bits))"

section \<open>Operations\<close>

definition f_add :: "float64 \<Rightarrow> float64 \<Rightarrow> float64" where
  "f_add x y =
     (if IsNaN x \<or> IsNaN y then f_nan
      else if IsInf x then (if IsInf y \<and> f_neg x \<noteq> f_neg y then f_nan else x)
      else if IsInf y then y
      else let e = min (f_pow x) (f_pow y);
               sx = (if f_neg x then - f_mant x else f_mant x);
               sy = (if f_neg y then - f_mant y else f_mant y);
               m = sx * 2 ^ nat (f_pow x - e) + sy * 2 ^ nat (f_pow y - e)
           in if m = 0 then (if f_neg x \<and> f_neg y then 0x8000000000000000 else 0)
              else f_round (m < 0) \<bar>m\<bar> e)"

definition f_sub :: "float64 \<Rightarrow> float64 \<Rightarrow> float64" where
  "f_sub x y = f_add x (if IsNaN y then y else f_opposite y)"

definition f_mul :: "float64 \<Rightarrow> float64 \<Rightarrow> float64" where
  "f_mul x y =
     (let s = (f_neg x \<noteq> f_neg y) in
      if IsNaN x \<or> IsNaN y \<or> (IsInf x \<and> f_zero y) \<or> (f_zero x \<and> IsInf y) then f_nan
      else if IsInf x \<or> IsInf y then f_inf s
      else f_round s (f_mant x * f_mant y) (f_pow x + f_pow y))"

text \<open>The conversion \<^verbatim>\<open>float64(n)\<close> of an integer.\<close>

definition f_of_int :: "int \<Rightarrow> float64" where
  "f_of_int n = f_round (n < 0) \<bar>n\<bar> 0"

text \<open>The order: the representation without its sign is monotone in the magnitude.\<close>

definition f_key :: "float64 \<Rightarrow> int" where
  "f_key x = (if f_neg x then 2 ^ 63 - uint x else uint x)"

definition f_lt :: "float64 \<Rightarrow> float64 \<Rightarrow> bool" where
  "f_lt x y \<longleftrightarrow> \<not> IsNaN x \<and> \<not> IsNaN y \<and> f_key x < f_key y"

section \<open>Not a number\<close>

lemma f_zero_nan [simp]: "\<not> IsNaN 0" "\<not> IsNaN 0x8000000000000000"
  by (simp_all add: IsNaN_def f_exp_def f_frac_def)

lemma f_inf_nan [simp]: "\<not> IsNaN (f_inf s)"
  by (simp add: IsNaN_def f_exp_def f_frac_def f_inf_def)

lemma f_nan_nan [simp]: "IsNaN f_nan"
  by (simp add: IsNaN_def f_exp_def f_frac_def f_nan_def)

text \<open>Words built from a magnitude below that of infinity are finite.\<close>

lemma exponent_below:
  assumes "0 \<le> b" "b < 2047 * 2 ^ 52"
  shows "\<not> IsNaN (word_of_int ((if s then 2 ^ 63 else 0) + b))"
proof -
  let ?x = "(word_of_int ((if s then 2 ^ 63 else 0) + b)) :: float64"
  have "uint ?x = ((if s then 2 ^ 63 else 0) + b) mod 2 ^ 64"
    by (subst uint_word_of_int) simp
  also have "\<dots> = (if s then 2 ^ 63 else 0) + b"
    using assms by (intro mod_pos_pos_trivial) (cases s; simp)+
  finally have u: "uint ?x = (if s then 2 ^ 63 else 0) + b" .
  have "(if s then 2 ^ 63 else 0) + b = (if s then 2048 else 0) * 2 ^ 52 + b" by simp
  then have "f_exp ?x = (b div 2 ^ 52) mod 2048"
    unfolding f_exp_def u by (simp add: div_add1_eq mod_add_eq)
  moreover have "b div 2 ^ 52 < 2047" using assms(2) by (simp add: div_less_iff_less_mult)
  moreover have "0 \<le> b div 2 ^ 52" using assms(1) by simp
  ultimately have "f_exp ?x < 2047" by simp
  then show ?thesis by (simp add: IsNaN_def)
qed

lemma half_even_nonneg: "0 \<le> m \<Longrightarrow> 0 \<le> half_even m s"
  by (simp add: half_even_def Let_def pos_imp_zdiv_nonneg_iff add_increasing2)

lemma f_round_not_nan: "0 \<le> m \<Longrightarrow> \<not> IsNaN (f_round s m e)"
proof -
  assume m: "0 \<le> m"
  define ulp where "ulp = max (e + width m - 53) (- 1074)"
  define q where "q = (if ulp \<le> e then m * 2 ^ nat (e - ulp) else half_even m (nat (ulp - e)))"
  have "0 \<le> q" using m by (simp add: q_def half_even_nonneg)
  moreover have "- 1074 \<le> ulp" by (simp add: ulp_def)
  then have "0 \<le> (ulp + 1074) * 2 ^ 52" by simp
  ultimately have "0 \<le> (ulp + 1074) * 2 ^ 52 + q" by simp
  then show ?thesis
    using exponent_below [of "(ulp + 1074) * 2 ^ 52 + q" s] 
    unfolding f_round_def Let_def ulp_def [symmetric] q_def [symmetric]
    by (auto simp: not_le)
qed

lemma f_mant_nonneg: "0 \<le> f_mant x"
  by (simp add: f_mant_def f_frac_def)

text \<open>A sum is a number unless an operand is none or they are opposite infinities; a product of
  numbers with a finite non-zero factor is a number.\<close>

lemma f_add_not_nan: "\<not> IsNaN x \<Longrightarrow> f_finite y \<Longrightarrow> \<not> IsNaN (f_add x y)"
  by (auto simp: f_add_def f_finite_def Let_def f_round_not_nan)

lemma f_mul_not_nan: "\<not> IsNaN x \<Longrightarrow> f_finite y \<Longrightarrow> f_mant y \<noteq> 0 \<Longrightarrow> \<not> IsNaN (f_mul x y)"
  by (auto simp: f_mul_def f_finite_def f_zero_def Let_def f_round_not_nan f_mant_nonneg)

lemma f_of_int_not_nan [simp]: "\<not> IsNaN (f_of_int n)"
  by (simp add: f_of_int_def f_round_not_nan)

end
