(* ===== verification/GoStd.thy ===== *)
theory GoStd
  imports Prelude
begin

text \<open>
  The part of Go's standard library that the service uses on strings, numbers and instants:
  \<^verbatim>\<open>strconv\<close>, \<^verbatim>\<open>strings\<close>, \<^verbatim>\<open>path/filepath\<close>, \<^verbatim>\<open>fmt\<close>'s \<^verbatim>\<open>%d\<close> and \<^verbatim>\<open>%02d\<close>, and
  \<^verbatim>\<open>time.Time.Format\<close> for the layouts that occur in the source.  Strings are UTF-8 byte strings.
\<close>

section \<open>Numbers in decimal\<close>

definition digit_char :: "nat \<Rightarrow> char" where
  "digit_char n = char_of (48 + n)"

fun nat_digits :: "nat \<Rightarrow> string" where
  "nat_digits n = (if n < 10 then [digit_char n] else nat_digits (n div 10) @ [digit_char (n mod 10)])"

declare nat_digits.simps [simp del]

definition itoa :: "int \<Rightarrow> string" where
  "itoa x = (if x < 0 then CHR ''-'' # nat_digits (nat (- x)) else nat_digits (nat x))"

text \<open>\<^verbatim>\<open>%02d\<close> and the zero padding of dates.\<close>

definition pad_to :: "nat \<Rightarrow> string \<Rightarrow> string" where
  "pad_to n s = replicate (n - length s) (CHR ''0'') @ s"

definition pad2 :: "int \<Rightarrow> string" where
  "pad2 x = pad_to 2 (itoa x)"

definition is_digit :: "char \<Rightarrow> bool" where
  "is_digit c \<longleftrightarrow> 48 \<le> (of_char c :: nat) \<and> (of_char c :: nat) \<le> 57"

fun digits_value :: "nat \<Rightarrow> string \<Rightarrow> nat option" where
  "digits_value acc [] = Some acc"
| "digits_value acc (c # cs) =
     (if is_digit c then digits_value (10 * acc + (of_char c - 48)) cs else None)"

datatype num_result = NumOk int | NumSyntax | NumRange int

text \<open>\<^verbatim>\<open>strconv.ParseInt(s, 10, 64)\<close>, which is \<^verbatim>\<open>strconv.Atoi\<close> on 64-bit targets.\<close>

definition ParseInt :: "string \<Rightarrow> num_result" where
  "ParseInt s =
     (let (neg, ds) = (case s of
                         [] \<Rightarrow> (False, [])
                       | c # cs \<Rightarrow> if c = CHR ''-'' then (True, cs)
                                  else if c = CHR ''+'' then (False, cs) else (False, s))
      in if ds = [] then NumSyntax
         else case digits_value 0 ds of
                None \<Rightarrow> NumSyntax
              | Some n \<Rightarrow>
                  let x = (if neg then - int n else int n) in
                  if in_int64 x then NumOk x
                  else NumRange (if neg then - (2 ^ 63) else 2 ^ 63 - 1))"

text \<open>The value of \<^verbatim>\<open>n, _ := strconv.ParseInt(s, 10, 64)\<close>.\<close>

definition ParseInt_value :: "string \<Rightarrow> int" where
  "ParseInt_value s = (case ParseInt s of NumOk x \<Rightarrow> x | NumSyntax \<Rightarrow> 0 | NumRange x \<Rightarrow> x)"

lemma digits_value_append:
  "digits_value acc (xs @ ys) =
     (case digits_value acc xs of None \<Rightarrow> None | Some n \<Rightarrow> digits_value n ys)"
  by (induction xs arbitrary: acc) auto

lemma digit_char_value: "n < 10 \<Longrightarrow> is_digit (digit_char n) \<and> of_char (digit_char n) - 48 = n"
  by (simp add: is_digit_def digit_char_def)

lemma digits_value_nat_digits: "digits_value 0 (nat_digits n) = Some n"
proof (induction n rule: nat_digits.induct)
  case (1 n)
  show ?case
  proof (cases "n < 10")
    case True
    then show ?thesis using digit_char_value [of n] by (simp add: nat_digits.simps [of n])
  next
    case False
    then have "digits_value 0 (nat_digits (n div 10)) = Some (n div 10)" using 1 by simp
    moreover have "n mod 10 < 10" by simp
    ultimately show ?thesis
      using False digit_char_value [of "n mod 10"]
      by (subst nat_digits.simps) (simp add: digits_value_append)
  qed
qed

lemma nat_digits_not_empty [simp]: "nat_digits n \<noteq> []"
  by (subst nat_digits.simps) auto

lemma nat_digits_digits: "list_all is_digit (nat_digits n)"
proof (induction n rule: nat_digits.induct)
  case (1 n)
  then show ?case
    using digit_char_value [of n] digit_char_value [of "n mod 10"]
    by (subst nat_digits.simps) auto
qed

lemma sign_not_digit [simp]: "\<not> is_digit (CHR ''-'')" "\<not> is_digit (CHR ''+'')"
  by (simp_all add: is_digit_def)

lemma ParseInt_itoa: "in_int64 x \<Longrightarrow> ParseInt (itoa x) = NumOk x"
proof -
  assume x: "in_int64 x"
  obtain c cs where n: "nat_digits (nat x) = c # cs" by (cases "nat_digits (nat x)") auto
  have "is_digit c" using nat_digits_digits [of "nat x"] n by simp
  then have "c \<noteq> CHR ''-''" "c \<noteq> CHR ''+''" by auto
  then show ?thesis
    using x n digits_value_nat_digits [of "nat x"] digits_value_nat_digits [of "nat (- x)"]
    by (auto simp: ParseInt_def itoa_def Let_def)
qed

section \<open>Strings\<close>

definition HasPrefix :: "string \<Rightarrow> string \<Rightarrow> bool" where
  "HasPrefix s p \<longleftrightarrow> take (length p) s = p"

text \<open>\<^verbatim>\<open>strings.Cut\<close>: the text before and after the first occurrence of a separator.\<close>

fun Cut :: "string \<Rightarrow> string \<Rightarrow> (string \<times> string) option" where
  "Cut sep [] = (if sep = [] then Some ([], []) else None)"
| "Cut sep (c # cs) =
     (if HasPrefix (c # cs) sep then Some ([], drop (length sep) (c # cs))
      else map_option (\<lambda>(a, b). (c # a, b)) (Cut sep cs))"

definition Contains :: "string \<Rightarrow> string \<Rightarrow> bool" where
  "Contains s sub \<longleftrightarrow> Cut sub s \<noteq> None"

lemma Cut_eq: "Cut sep s = Some (a, b) \<Longrightarrow> s = a @ sep @ b"
proof (induction s arbitrary: a)
  case Nil
  then show ?case by (simp split: if_splits)
next
  case (Cons c cs)
  show ?case
  proof (cases "HasPrefix (c # cs) sep")
    case True
    then have "take (length sep) (c # cs) = sep" by (simp add: HasPrefix_def)
    then show ?thesis using Cons.prems True append_take_drop_id [of "length sep" "c # cs"] by auto
  next
    case False
    then show ?thesis using Cons by auto
  qed
qed

text \<open>\<^verbatim>\<open>strings.Split\<close>; the source never splits on the empty separator.\<close>

function Split :: "string \<Rightarrow> string \<Rightarrow> string list" where
  "Split sep s =
     (case Cut sep s of
        None \<Rightarrow> [s]
      | Some (a, b) \<Rightarrow> if sep = [] then [s] else a # Split sep b)"
  by auto
termination
proof (relation "measure (\<lambda>(sep, s). length s)", goal_cases)
  case (2 sep s p a b)
  then show ?case using Cut_eq [of sep s a b] by (auto simp: neq_Nil_conv)
qed simp

declare Split.simps [simp del]

fun Join :: "string \<Rightarrow> string list \<Rightarrow> string" where
  "Join sep [] = []"
| "Join sep [x] = x"
| "Join sep (x # y # ys) = x @ sep @ Join sep (y # ys)"

text \<open>\<^verbatim>\<open>strings.ReplaceAll\<close> for a non-empty pattern.\<close>

definition ReplaceAll :: "string \<Rightarrow> string \<Rightarrow> string \<Rightarrow> string" where
  "ReplaceAll s old new = Join new (Split old s)"

lemma Cut_char_append:
  "x \<notin> set a \<Longrightarrow> Cut [x] (a @ x # b) = Some (a, b)"
  by (induction a) (auto simp: HasPrefix_def)

lemma Cut_char_None: "x \<notin> set a \<Longrightarrow> Cut [x] a = None"
  by (induction a) (auto simp: HasPrefix_def)

lemma Split_Join_char:
  assumes "xs \<noteq> []" "\<And>s. s \<in> set xs \<Longrightarrow> x \<notin> set s"
  shows "Split [x] (Join [x] xs) = xs"
  using assms
proof (induction "[x]" xs rule: Join.induct)
  case (2 s)
  then show ?case by (simp add: Split.simps Cut_char_None)
next
  case (3 s y ys)
  then have "Split [x] (Join [x] (y # ys)) = y # ys" and "x \<notin> set s" by auto
  then show ?case by (subst Split.simps) (simp add: Cut_char_append)
qed simp

text \<open>
  The UTF-8 encodings of the code points with the White\_Space property, which
  \<^verbatim>\<open>unicode.IsSpace\<close> accepts.
\<close>

definition space_codes :: "string list" where
  "space_codes =
     map (map char_of)
      [[0x20], [0x09], [0x0A], [0x0B], [0x0C], [0x0D], [0xC2, 0x85], [0xC2, 0xA0],
       [0xE1, 0x9A, 0x80], [0xE2, 0x80, 0x80], [0xE2, 0x80, 0x81], [0xE2, 0x80, 0x82],
       [0xE2, 0x80, 0x83], [0xE2, 0x80, 0x84], [0xE2, 0x80, 0x85], [0xE2, 0x80, 0x86],
       [0xE2, 0x80, 0x87], [0xE2, 0x80, 0x88], [0xE2, 0x80, 0x89], [0xE2, 0x80, 0x8A],
       [0xE2, 0x80, 0xA8], [0xE2, 0x80, 0xA9], [0xE2, 0x80, 0xAF], [0xE2, 0x81, 0x9F],
       [0xE3, 0x80, 0x80 :: nat]]"

definition leading :: "string list \<Rightarrow> string \<Rightarrow> string option" where
  "leading codes s = find (\<lambda>e. e \<noteq> [] \<and> HasPrefix s e) codes"

lemma leading_Some: "leading codes s = Some e \<Longrightarrow> e \<noteq> [] \<and> HasPrefix s e"
  unfolding leading_def by (drule find_Some_in) simp

function trim_left :: "string list \<Rightarrow> string \<Rightarrow> string" where
  "trim_left codes s =
     (case leading codes s of None \<Rightarrow> s | Some e \<Rightarrow> trim_left codes (drop (length e) s))"
  by auto
termination
proof (relation "measure (\<lambda>(codes, s). length s)", goal_cases)
  case (2 codes s e)
  then show ?case using leading_Some [of codes s e] by (cases s) (auto simp: HasPrefix_def)
qed simp

declare trim_left.simps [simp del]

definition TrimSpace :: "string \<Rightarrow> string" where
  "TrimSpace s = rev (trim_left (map rev space_codes) (rev (trim_left space_codes s)))"

text \<open>No encoding of a space begins with a printing ASCII character.\<close>

definition graphic :: "char \<Rightarrow> bool" where
  "graphic c \<longleftrightarrow> 33 \<le> (of_char c :: nat) \<and> (of_char c :: nat) \<le> 126"

lemma leading_first: "list_all (\<lambda>e. e = [] \<or> \<not> graphic (hd e)) codes \<Longrightarrow> graphic c \<Longrightarrow> leading codes (c # s) = None"
  by (induction codes) (auto simp: leading_def HasPrefix_def neq_Nil_conv)

lemma trim_left_leading: "leading codes (trim_left codes s) = None"
proof (induction codes s rule: trim_left.induct)
  case (1 codes s)
  then show ?case by (subst trim_left.simps) (auto split: option.splits)
qed

lemma trim_left_id: "leading codes s = None \<Longrightarrow> trim_left codes s = s"
  by (subst trim_left.simps) simp

lemma space_codes_first:
  "list_all (\<lambda>e. e = [] \<or> \<not> graphic (hd e)) space_codes" "list_all (\<lambda>e. e = [] \<or> \<not> graphic (hd e)) (map rev space_codes)"
  by (simp_all add: space_codes_def graphic_def)

lemmas leading_graphic [simp] = leading_first [OF space_codes_first(1)] leading_first [OF space_codes_first(2)]

lemma space_codes_hd: "space_codes \<noteq> []" "hd space_codes = '' ''"
  by (simp_all add: space_codes_def char_of_def bit_iff_odd)

lemma leading_blank: "codes = [CHR '' ''] # cs \<Longrightarrow> leading codes (CHR '' '' # s) = Some '' ''"
  by (simp add: leading_def HasPrefix_def)

lemma space_codes_blank: "space_codes = [CHR '' ''] # tl space_codes" "map rev space_codes = [CHR '' ''] # tl (map rev space_codes)"
proof -
  note h = space_codes_hd
  from list.collapse [OF h(1)] show c: "space_codes = [CHR '' ''] # tl space_codes" by (simp only: h(2))
  have "xs \<noteq> [] \<Longrightarrow> map rev xs = rev (hd xs) # tl (map rev xs)" for xs :: "string list" by (cases xs) simp_all
  from this [OF h(1)] show "map rev space_codes = [CHR '' ''] # tl (map rev space_codes)" unfolding h(2) by simp
qed

lemma trim_left_blank:
  assumes "codes = [CHR '' ''] # cs" "leading codes (c # s) = None"
  shows "trim_left codes (CHR '' '' # c # s) = c # s"
proof -
  have "trim_left codes (CHR '' '' # c # s) = trim_left codes (c # s)"
    by (subst trim_left.simps) (simp add: leading_blank [OF assms(1)])
  then show ?thesis using trim_left_id [OF assms(2)] by simp
qed

lemma TrimSpace_cat [simp]: "TrimSpace '' cat '' = ''cat''"
  using trim_left_blank [OF space_codes_blank(1), of "CHR ''c''" "''at ''"]
    trim_left_blank [OF space_codes_blank(2), of "CHR ''t''" "''ac''"]
  by (simp add: TrimSpace_def graphic_def)

lemma trim_left_length: "length (trim_left codes s) \<le> length s"
proof (induction codes s rule: trim_left.induct)
  case (1 codes s)
  then show ?case by (subst trim_left.simps) (auto split: option.splits intro: le_trans)
qed

text \<open>\<^verbatim>\<open>strings.Fields\<close>\<close>

fun span_word :: "string \<Rightarrow> string \<times> string" where
  "span_word [] = ([], [])"
| "span_word (c # cs) =
     (if leading space_codes (c # cs) \<noteq> None then ([], c # cs)
      else let (a, b) = span_word cs in (c # a, b))"

lemma span_word_append: "span_word s = (a, b) \<Longrightarrow> s = a @ b"
  by (induction s arbitrary: a) (auto split: if_splits prod.splits)

function Fields :: "string \<Rightarrow> string list" where
  "Fields s =
     (let t = trim_left space_codes s in
      case span_word t of (w, r) \<Rightarrow> if w = [] then [] else w # Fields r)"
  by auto
termination
proof (relation "measure length", goal_cases)
  case (2 s t w r)
  then have "length t \<le> length s" by (simp add: trim_left_length)
  moreover have "length t = length w + length r"
    using 2 span_word_append [of t w r] by simp
  moreover have "0 < length w" using 2 by simp
  ultimately have "length r < length s" by linarith
  then show ?case by simp
qed simp

declare Fields.simps [simp del]

text \<open>
  \<^verbatim>\<open>strings.ToLower\<close> and \<^verbatim>\<open>strings.ToUpper\<close>.  The source only compares their results with
  ASCII literals, so of the mappings outside ASCII the two that land in ASCII matter: the Kelvin sign
  and the dotted capital I for \<^verbatim>\<open>ToLower\<close> (the dotless i and the long s for \<^verbatim>\<open>ToUpper\<close>).
\<close>

definition lower_ascii :: "char \<Rightarrow> char" where
  "lower_ascii c = (let n = (of_char c :: nat) in if 65 \<le> n \<and> n \<le> 90 then char_of (n + 32) else c)"

definition upper_ascii :: "char \<Rightarrow> char" where
  "upper_ascii c = (let n = (of_char c :: nat) in if 97 \<le> n \<and> n \<le> 122 then char_of (n - 32) else c)"

fun ToLower :: "string \<Rightarrow> string" where
  "ToLower (a # b # c # cs) =
     (if of_char a = (0xE2::nat) \<and> of_char b = (0x84::nat) \<and> of_char c = (0xAA::nat) then CHR ''k'' # ToLower cs
      else if of_char a = (0xC4::nat) \<and> of_char b = (0xB0::nat) then CHR ''i'' # ToLower (c # cs)
      else lower_ascii a # ToLower (b # c # cs))"
| "ToLower [a, b] =
     (if of_char a = (0xC4::nat) \<and> of_char b = (0xB0::nat) then ''i'' else [lower_ascii a, lower_ascii b])"
| "ToLower [a] = [lower_ascii a]"
| "ToLower [] = []"

fun ToUpper :: "string \<Rightarrow> string" where
  "ToUpper (a # b # cs) =
     (if of_char a = (0xC4::nat) \<and> of_char b = (0xB1::nat) then CHR ''I'' # ToUpper cs
      else if of_char a = (0xC5::nat) \<and> of_char b = (0xBF::nat) then CHR ''S'' # ToUpper cs
      else upper_ascii a # ToUpper (b # cs))"
| "ToUpper [a] = [upper_ascii a]"
| "ToUpper [] = []"

text \<open>\<^verbatim>\<open>filepath.Ext\<close>: from the last dot of the last path element.\<close>

fun ext_rev :: "string \<Rightarrow> string \<Rightarrow> string" where
  "ext_rev [] acc = []"
| "ext_rev (c # cs) acc =
     (if c = CHR ''/'' then [] else if c = CHR ''.'' then c # acc else ext_rev cs (c # acc))"

definition Ext :: "string \<Rightarrow> string" where
  "Ext path = ext_rev (rev path) []"

text \<open>The number of code points of a UTF-8 string, which is what \<^verbatim>\<open>VARCHAR(n)\<close> bounds.\<close>

definition rune_count :: "string \<Rightarrow> nat" where
  "rune_count s = length (filter (\<lambda>c. (of_char c :: nat) < 128 \<or> 192 \<le> (of_char c :: nat)) s)"

lemma rune_count_append: "rune_count (a @ b) = rune_count a + rune_count b"
  by (simp add: rune_count_def)

section \<open>Instants\<close>

text \<open>The proleptic Gregorian date of a day counted from 1970-01-01: year, month, day.\<close>

definition civil_date :: "int \<Rightarrow> int \<times> int \<times> int" where
  "civil_date days =
     (let z = days + 719468;
          era = z div 146097;
          doe = z mod 146097;
          yoe = (doe - doe div 1460 + doe div 36524 - doe div 146096) div 365;
          doy = doe - (365 * yoe + yoe div 4 - yoe div 100);
          mp = (5 * doy + 2) div 153;
          d = doy - (153 * mp + 2) div 5 + 1;
          m = (if mp < 10 then mp + 3 else mp - 9);
          y = yoe + era * 400 + (if m \<le> 2 then 1 else 0)
      in (y, m, d))"

definition sec_of :: "time \<Rightarrow> int" where
  "sec_of t = t div 1000000"

definition day_of :: "time \<Rightarrow> int" where
  "day_of t = sec_of t div 86400"

definition clock_of :: "time \<Rightarrow> int \<times> int \<times> int" where
  "clock_of t = (let s = sec_of t mod 86400 in (s div 3600, s div 60 mod 60, s mod 60))"

text \<open>\<^verbatim>\<open>t.Format("2006-01-02")\<close>, \<^verbatim>\<open>"15:04:05"\<close>, \<^verbatim>\<open>"02/01/2006 15:04"\<close>; the argument is
  the wall clock of the instant's location.\<close>

definition format_date :: "time \<Rightarrow> string" where
  "format_date t = (case civil_date (day_of t) of (y, m, d) \<Rightarrow>
     pad_to 4 (itoa y) @ ''-'' @ pad2 m @ ''-'' @ pad2 d)"

definition format_clock :: "time \<Rightarrow> string" where
  "format_clock t = (case clock_of t of (h, m, s) \<Rightarrow> pad2 h @ '':'' @ pad2 m @ '':'' @ pad2 s)"

definition format_day_clock :: "time \<Rightarrow> string" where
  "format_day_clock t = (case civil_date (day_of t) of (y, mo, d) \<Rightarrow>
     case clock_of t of (h, mi, s) \<Rightarrow>
       pad2 d @ ''/'' @ pad2 mo @ ''/'' @ pad_to 4 (itoa y) @ '' '' @ pad2 h @ '':'' @ pad2 mi)"

text \<open>\<^verbatim>\<open>time.RFC3339\<close>, in a location that is \<^term>\<open>off\<close> seconds east of UTC.\<close>

definition format_rfc3339 :: "int \<Rightarrow> time \<Rightarrow> string" where
  "format_rfc3339 off t =
     (let l = t + off * 1000000;
          zone = (if off = 0 then ''Z''
                  else (if off < 0 then ''-'' else ''+'') @ pad2 (\<bar>off\<bar> div 3600) @ '':'' @ pad2 (\<bar>off\<bar> div 60 mod 60))
      in format_date l @ ''T'' @ format_clock l @ zone)"

end
