(* ===== verification/Entities.thy ===== *)
theory Entities
  imports Prelude
begin

text \<open>
  The structs of \<^verbatim>\<open>internal/entity\<close>, the request DTOs and the response DTOs of
  \<^verbatim>\<open>internal/controller/restapi/v1\<close> that the use cases take and return.  A struct is a
  record whose fields carry the source's names behind a short prefix (record fields share one
  name space).  A named string type of the source stays a string, since the code stores
  whatever string a request holds; its constants are abbreviations.
\<close>

section \<open>Entities\<close>

type_synonym UserRole = string

abbreviation UserRoleUser :: UserRole where "UserRoleUser \<equiv> ''user''"
abbreviation UserRoleAdmin :: UserRole where "UserRoleAdmin \<equiv> ''admin''"

record User =
  u_ID :: string
  u_Username :: string
  u_Email :: string
  u_Avatar :: string
  u_PasswordHash :: string
  u_Role :: UserRole
  u_IsBanned :: bool
  u_CreatedAt :: time
  u_UpdatedAt :: time

type_synonym VideoStatus = string
type_synonym VideoVisibility = string

abbreviation VideoStatusPending :: VideoStatus where "VideoStatusPending \<equiv> ''pending''"
abbreviation VideoStatusProcessing :: VideoStatus where "VideoStatusProcessing \<equiv> ''processing''"
abbreviation VideoStatusComplete :: VideoStatus where "VideoStatusComplete \<equiv> ''complete''"
abbreviation VideoStatusFailed :: VideoStatus where "VideoStatusFailed \<equiv> ''failed''"

abbreviation VideoVisibilityPublic :: VideoVisibility where "VideoVisibilityPublic \<equiv> ''public''"
abbreviation VideoVisibilityPrivate :: VideoVisibility where "VideoVisibilityPrivate \<equiv> ''private''"
abbreviation VideoVisibilityUnlisted :: VideoVisibility where "VideoVisibilityUnlisted \<equiv> ''unlisted''"

record Video =
  v_ID :: string
  v_UserID :: string
  v_UserName :: string
  v_UserAvatar :: string
  v_Title :: string
  v_Description :: string
  v_Category :: string
  v_Status :: VideoStatus
  v_Visibility :: VideoVisibility
  v_RawS3Key :: string
  v_HLSUrl :: string
  v_ThumbnailUrl :: string
  v_Duration :: string
  v_IsReel :: bool
  v_Views :: int
  v_CreatedAt :: time
  v_UpdatedAt :: time

definition AllowedVideoExtensions :: "string list" where
  "AllowedVideoExtensions = [''.mp4'', ''.mov'', ''.mkv'']"

record Livestream =
  ls_ID :: string
  ls_UserID :: string
  ls_UserName :: string
  ls_UserAvatar :: string
  ls_StreamKey :: string
  ls_Title :: string
  ls_Category :: string
  ls_IsLive :: bool
  ls_HLSUrl :: string
  ls_ViewersCount :: int
  ls_StartedAt :: "time option"
  ls_EndedAt :: "time option"
  ls_CreatedAt :: time
  ls_UpdatedAt :: time

record Comment =
  c_ID :: string
  c_VideoID :: string
  c_UserID :: string
  c_UserName :: string
  c_UserAvatar :: string
  c_Content :: string
  c_ParentID :: "string option"
  c_ReplyCount :: int
  c_CreatedAt :: time

record VideoLike =
  vl_ID :: string
  vl_VideoID :: string
  vl_UserID :: string
  vl_CreatedAt :: time

record Post =
  p_ID :: string
  p_UserID :: string
  p_UserName :: string
  p_UserAvatar :: string
  p_Content :: string
  p_ImageURL :: string
  p_CreatedAt :: time
  p_UpdatedAt :: time

type_synonym NotificationType = string

abbreviation NotificationTypeLiveStart :: NotificationType where "NotificationTypeLiveStart \<equiv> ''live_start''"
abbreviation NotificationTypeNewVideo :: NotificationType where "NotificationTypeNewVideo \<equiv> ''new_video''"
abbreviation NotificationTypeNewPost :: NotificationType where "NotificationTypeNewPost \<equiv> ''new_post''"

record Notification =
  n_ID :: string
  n_UserID :: string
  n_SenderID :: string
  n_SenderName :: string
  n_SenderAvatar :: string
  n_Type :: NotificationType
  n_Title :: string
  n_Message :: string
  n_TargetURL :: string
  n_IsRead :: bool
  n_CreatedAt :: time

record SubtitleCue =
  sc_ID :: string
  sc_StartSec :: float64
  sc_EndSec :: float64
  sc_TextEN :: string
  sc_TextVI :: string

record Vocabulary =
  vo_ID :: string
  vo_UserID :: string
  vo_Word :: string
  vo_IPA :: string
  vo_PartOfSpeech :: string
  vo_Meaning :: string
  vo_Example :: string
  vo_VideoID :: string
  vo_VideoTitle :: string
  vo_CreatedAt :: time

record WatchHistoryEntry =
  wh_UserID :: string
  wh_VideoID :: string
  wh_WatchSeconds :: int
  wh_LastWatchedAt :: time

record WorkerHeartbeat =
  hb_WorkerID :: string
  hb_Status :: string
  hb_CurrentJob :: string
  hb_CPUUsage :: float64
  hb_RAMUsageMB :: float64
  hb_LastHeartbeat :: time

record ChannelStats =
  cs_TotalChannels :: int
  cs_ActiveChannels :: int
  cs_BannedChannels :: int

record CategoryStat =
  cat_Category :: string
  cat_VideoCount :: int

section \<open>Request DTOs\<close>

record CreateVideoUpload =
  cvu_Title :: string
  cvu_Description :: string
  cvu_Category :: string
  cvu_FileName :: string
  cvu_Visibility :: string
  cvu_ThumbnailURL :: string
  cvu_Duration :: string
  cvu_IsReel :: bool

record UpdateVideoReq =
  uv_Title :: string
  uv_Description :: string
  uv_Category :: string
  uv_Visibility :: string
  uv_ThumbnailURL :: string

record UpdateLivestreamInfo =
  uli_Title :: string
  uli_Category :: string
  uli_ThumbnailURL :: string

record SendChatMessageReq =
  scm_Username :: string
  scm_Avatar :: string
  scm_Text :: string

record CreateCommentRequest =
  ccr_Content :: string
  ccr_ParentID :: "string option"

record CreatePostRequest =
  cpr_Content :: string
  cpr_ImageURL :: string

record SaveWordRequest =
  sw_Word :: string
  sw_IPA :: string
  sw_PartOfSpeech :: string
  sw_Meaning :: string
  sw_Example :: string
  sw_VideoID :: string
  sw_VideoTitle :: string

section \<open>Response DTOs\<close>

record PaginationMeta =
  TotalItems :: int
  TotalPages :: int
  CurrentPage :: int
  Limit :: int

record 'a PageResponse =
  Success :: bool
  Data :: "'a list"
  Pagination :: PaginationMeta

record Creator =
  cr_ID :: string
  cr_Name :: string
  cr_Avatar :: string

record VideoResponse =
  vr_ID :: string
  vr_Creator :: Creator
  vr_Title :: string
  vr_Description :: string
  vr_Category :: string
  vr_Status :: string
  vr_Visibility :: string
  vr_HLSUrl :: string
  vr_ThumbnailUrl :: string
  vr_Duration :: string
  vr_IsReel :: bool
  vr_Views :: int
  vr_LikesCount :: int
  vr_IsLiked :: bool
  vr_IsSaved :: bool
  vr_CreatedAt :: time
  vr_UpdatedAt :: time

record UploadUrlResponse =
  up_VideoID :: string
  up_UploadUrl :: string
  up_RawS3Key :: string

record CommentResponse =
  cre_ID :: string
  cre_VideoID :: string
  cre_User :: Creator
  cre_Content :: string
  cre_ParentID :: "string option"
  cre_ReplyCount :: int
  cre_LikeCount :: int
  cre_IsLiked :: bool
  cre_CreatedAt :: time

record CommentPageResponse =
  cp_Success :: bool
  cp_Data :: "CommentResponse list"
  cp_Pagination :: PaginationMeta
  cp_TotalAllCount :: int

record PostResponse =
  pr_ID :: string
  pr_Author :: Creator
  pr_Content :: string
  pr_ImageURL :: string
  pr_LikeCount :: int
  pr_IsLiked :: bool
  pr_CreatedAt :: time

record LikeToggleResponse =
  lt_ID :: string
  lt_Liked :: bool
  lt_TotalLikes :: int

record HeartResponse =
  ht_StreamID :: string
  ht_TotalHearts :: int

record SaveVideoResponse =
  sv_VideoID :: string
  sv_Saved :: bool

record FollowToggleResponse =
  ft_ChannelID :: string
  ft_Following :: bool
  ft_FollowersCount :: int

record LivestreamStreamer =
  st_ID :: string
  st_Name :: string
  st_Avatar :: string
  st_FollowersCount :: int

record LivestreamResponse =
  lr_ID :: string
  lr_Streamer :: LivestreamStreamer
  lr_Title :: string
  lr_Category :: string
  lr_IsLive :: bool
  lr_HLSUrl :: string
  lr_ViewersCount :: int
  lr_StartedAt :: "time option"
  lr_EndedAt :: "time option"

record StreamKeyResponse =
  sk_ServerUrl :: string
  sk_StreamKey :: string
  sk_IsLive :: bool
  sk_StartedAt :: "time option"
  sk_ViewersCount :: int

record ChatMessageResponse =
  cm_StreamID :: string
  cm_Type :: string
  cm_UserName :: string
  cm_UserAvatar :: string
  cm_Text :: string
  cm_Value :: int
  cm_CreatedAt :: string

record NotificationResponse =
  nr_ID :: string
  nr_UserID :: string
  nr_Sender :: Creator
  nr_Type :: string
  nr_Title :: string
  nr_Message :: string
  nr_TargetURL :: string
  nr_IsRead :: bool
  nr_CreatedAt :: string

record NotificationListResponse =
  nl_Page :: "NotificationResponse PageResponse"
  nl_UnreadCount :: int

record UserResponse =
  ur_ID :: string
  ur_Username :: string
  ur_Email :: string
  ur_Avatar :: string
  ur_Role :: string
  ur_IsBanned :: bool
  ur_CreatedAt :: string

record SubtitleCueResponse =
  scr_ID :: string
  scr_StartSec :: float64
  scr_EndSec :: float64
  scr_TextEN :: string
  scr_TextVI :: string
  scr_TextOther :: "string list"

record SystemDashboardResponse =
  db_TotalVideos :: int
  db_ActiveLivestreams :: int
  db_ActiveWorkers :: int
  db_TotalViewers :: int
  db_TotalChannels :: int
  db_ActiveChannels :: int
  db_BannedChannels :: int
  db_CategoryBreakdown :: "(string \<times> int) list"

record WorkerStatusResponse =
  ws_WorkerID :: string
  ws_Status :: string
  ws_CurrentJob :: string
  ws_CpuUsage :: float64
  ws_RamUsage :: float64

end
