(* ===== verification/Hubs.thy ===== *)
theory Hubs
  imports Entities
begin

text \<open>
  The three fan-out hubs of \<^verbatim>\<open>internal/events\<close>.  A Go channel is an object of a heap (a list of
  channels, the identity of a channel is its index), so that the unsubscribe closures and the
  subscriber tables of a hub alias the same channel, as they do in the source.  The outcome
  \<^const>\<open>None\<close> of an operation is a run-time panic (send on, or close of, a closed channel).
  Every operation runs under the hub's mutex in the source and is therefore one step here.
  Go's iteration order over a map is unspecified; a broadcast treats the channels of a room
  independently of each other, so the order of the list that represents a room is irrelevant.
\<close>

section \<open>Buffered channels\<close>

record 'm chan =
  ch_cap :: nat
  ch_buf :: "'m list"
  ch_closed :: bool

type_synonym 'm heap = "'m chan list"

definition make_chan :: "nat \<Rightarrow> 'm chan" where
  "make_chan n = \<lparr>ch_cap = n, ch_buf = [], ch_closed = False\<rparr>"

text \<open>\<^verbatim>\<open>select { case ch <- m: default: }\<close>\<close>

definition send_default :: "'m \<Rightarrow> 'm chan \<Rightarrow> 'm chan option" where
  "send_default m c =
     (if ch_closed c then None
      else if length (ch_buf c) < ch_cap c then Some (c\<lparr>ch_buf := ch_buf c @ [m]\<rparr>)
      else Some c)"

definition heap_send :: "'m \<Rightarrow> nat \<Rightarrow> 'm heap \<Rightarrow> 'm heap option" where
  "heap_send m i hp = map_option (\<lambda>c. hp[i := c]) (send_default m (hp ! i))"

definition heap_close :: "nat \<Rightarrow> 'm heap \<Rightarrow> 'm heap option" where
  "heap_close i hp = (if ch_closed (hp ! i) then None else Some (hp[i := (hp ! i)\<lparr>ch_closed := True\<rparr>]))"

text \<open>The reader's side: \<^verbatim>\<open>m, ok := <-ch\<close> when it does not block.\<close>

definition heap_recv :: "nat \<Rightarrow> 'm heap \<Rightarrow> ('m option \<times> 'm heap) option" where
  "heap_recv i hp =
     (case ch_buf (hp ! i) of
        m # ms \<Rightarrow> Some (Some m, hp[i := (hp ! i)\<lparr>ch_buf := ms\<rparr>])
      | [] \<Rightarrow> if ch_closed (hp ! i) then Some (None, hp) else None)"

text \<open>The loop \<^verbatim>\<open>for ch := range subs { select { case ch <- m: default: } }\<close>.\<close>

fun send_all :: "'m \<Rightarrow> nat list \<Rightarrow> 'm heap \<Rightarrow> 'm heap option" where
  "send_all m [] hp = Some hp"
| "send_all m (i # is) hp =
     (case heap_send m i hp of None \<Rightarrow> None | Some hp' \<Rightarrow> send_all m is hp')"

definition open_ids :: "'m heap \<Rightarrow> nat list \<Rightarrow> bool" where
  "open_ids hp is \<longleftrightarrow> distinct is \<and> (\<forall>i\<in>set is. i < length hp \<and> \<not> ch_closed (hp ! i))"

definition push :: "'m \<Rightarrow> 'm chan \<Rightarrow> 'm chan" where
  "push m c = (if length (ch_buf c) < ch_cap c then c\<lparr>ch_buf := ch_buf c @ [m]\<rparr> else c)"

lemma push_simps [simp]:
  "ch_closed (push m c) = ch_closed c" "ch_cap (push m c) = ch_cap c"
  "ch_buf (push m c) = (if length (ch_buf c) < ch_cap c then ch_buf c @ [m] else ch_buf c)"
  by (simp_all add: push_def)

lemma send_all_spec:
  assumes "open_ids hp is"
  shows "\<exists>hp'. send_all m is hp = Some hp' \<and> length hp' = length hp \<and>
           (\<forall>j < length hp. hp' ! j = (if j \<in> set is then push m (hp ! j) else hp ! j))"
  using assms
proof (induction "is" arbitrary: hp)
  case Nil
  then show ?case by simp
next
  case (Cons i ix)
  let ?h = "hp[i := push m (hp ! i)]"
  have step: "heap_send m i hp = Some ?h"
    using Cons.prems by (simp add: open_ids_def heap_send_def send_default_def push_def)
  have "open_ids ?h ix" using Cons.prems by (auto simp: open_ids_def nth_list_update)
  from Cons.IH [OF this] obtain hp' where
    "send_all m ix ?h = Some hp'" "length hp' = length hp"
    "\<forall>j < length hp. hp' ! j = (if j \<in> set ix then push m (?h ! j) else ?h ! j)" by auto
  moreover have "i \<notin> set ix" "i < length hp" using Cons.prems by (simp_all add: open_ids_def)
  ultimately show ?case using step by (auto simp: nth_list_update)
qed

section \<open>The contract of a hub\<close>

text \<open>
  What the use cases rely on: a broadcast never panics and appends to the buffer of each
  member of the room that has space left, a subscription starts empty in one room only, an
  unsubscription closes the channel and takes it out of its room.
\<close>

text \<open>A sequence of broadcasts, each to its room.\<close>

fun run_bcasts :: "('k \<Rightarrow> 'm \<Rightarrow> 'h \<Rightarrow> 'h option) \<Rightarrow> ('k \<times> 'm) list \<Rightarrow> 'h \<Rightarrow> 'h option" where
  "run_bcasts bc [] h = Some h"
| "run_bcasts bc ((k, m) # xs) h = (case bc k m h of None \<Rightarrow> None | Some h' \<Rightarrow> run_bcasts bc xs h')"

definition sent_to :: "'k \<Rightarrow> ('k \<times> 'm) list \<Rightarrow> 'm list" where
  "sent_to k xs = map snd (filter (\<lambda>x. fst x = k) xs)"

lemma sent_to_Cons [simp]: "sent_to k (x # xs) = (if fst x = k then snd x # sent_to k xs else sent_to k xs)"
  by (simp add: sent_to_def)

lemma sent_to_Nil [simp]: "sent_to k [] = []"
  by (simp add: sent_to_def)

locale room_hub =
  fixes inv :: "'h \<Rightarrow> bool"
    and cap :: nat
    and members :: "'h \<Rightarrow> 'k \<Rightarrow> nat set"
    and buf :: "'h \<Rightarrow> nat \<Rightarrow> 'm list"
    and subscribe :: "'k \<Rightarrow> 'h \<Rightarrow> nat \<times> 'h"
    and unsubscribe :: "'k \<Rightarrow> nat \<Rightarrow> 'h \<Rightarrow> 'h option"
    and bcast :: "'k \<Rightarrow> 'm \<Rightarrow> 'h \<Rightarrow> 'h option"
  assumes bcast_total: "inv h \<Longrightarrow> \<exists>h'. bcast k m h = Some h'"
    and bcast_inv: "inv h \<Longrightarrow> bcast k m h = Some h' \<Longrightarrow> inv h' \<and> members h' = members h"
    and bcast_buf: "inv h \<Longrightarrow> bcast k m h = Some h' \<Longrightarrow>
      buf h' c = (if c \<in> members h k \<and> length (buf h c) < cap then buf h c @ [m] else buf h c)"
    and sub_inv: "inv h \<Longrightarrow> subscribe k h = (c, h') \<Longrightarrow> inv h'"
    and sub_members: "inv h \<Longrightarrow> subscribe k h = (c, h') \<Longrightarrow>
      members h' k' = (if k' = k then insert c (members h k) else members h k') \<and> c \<notin> members h k'"
    and sub_buf: "inv h \<Longrightarrow> subscribe k h = (c, h') \<Longrightarrow> buf h' c = [] \<and> (\<forall>d \<in> members h k'. buf h' d = buf h d)"
    and unsub: "inv h \<Longrightarrow> c \<in> members h k \<Longrightarrow>
      \<exists>h'. unsubscribe k c h = Some h' \<and> inv h' \<and> buf h' = buf h \<and>
           (\<forall>k'. members h' k' = members h k' - (if k' = k then {c} else {}))"
    and one_room: "inv h \<Longrightarrow> c \<in> members h k \<Longrightarrow> c \<in> members h k' \<Longrightarrow> k = k'"
    and buf_cap: "inv h \<Longrightarrow> c \<in> members h k \<Longrightarrow> length (buf h c) \<le> cap"
begin

lemma bcasts_spec:
  assumes "inv h"
  shows "\<exists>h'. run_bcasts bcast xs h = Some h' \<and> inv h' \<and> members h' = members h \<and>
           (\<forall>k. \<forall>c \<in> members h k.
              buf h' c = buf h c @ take (cap - length (buf h c)) (sent_to k xs))"
  using assms
proof (induction xs arbitrary: h)
  case Nil
  then show ?case by simp
next
  case (Cons x xs)
  obtain k0 m where x: "x = (k0, m)" by force
  from bcast_total [OF Cons.prems] obtain h1 where h1: "bcast k0 m h = Some h1" by blast
  note i1 = bcast_inv [OF Cons.prems h1]
  from Cons.IH [OF conjunct1 [OF i1]] i1 obtain h' where h':
    "run_bcasts bcast xs h1 = Some h'" "inv h'" "members h' = members h"
    "\<And>k c. c \<in> members h k \<Longrightarrow>
       buf h' c = buf h1 c @ take (cap - length (buf h1 c)) (sent_to k xs)"
    by auto
  have "buf h' c = buf h c @ take (cap - length (buf h c)) (sent_to k (x # xs))"
    if c: "c \<in> members h k" for k c
  proof (cases "k = k0")
    case False
    then have "c \<notin> members h k0" using c one_room Cons.prems by blast
    then have "buf h1 c = buf h c" using bcast_buf [OF Cons.prems h1] by simp
    then show ?thesis using h'(4) [OF c] False by (simp add: x)
  next
    case True
    then show ?thesis
      using h'(4) [OF c] bcast_buf [OF Cons.prems h1, of c] c buf_cap [OF Cons.prems c]
      by (cases "length (buf h c) < cap") (auto simp: x take_Cons' Suc_diff_Suc diff_Suc)
  qed
  then show ?case using h1 h' by (auto simp: x)
qed

lemma subscriber_receives:
  assumes "inv h" "subscribe k h = (c, h1)"
  shows "\<exists>h2. run_bcasts bcast xs h1 = Some h2 \<and> inv h2 \<and>
           buf h2 c = take cap (sent_to k xs)"
proof -
  have "inv h1" and "c \<in> members h1 k" and "buf h1 c = []"
    using sub_inv [OF assms] sub_members [OF assms] sub_buf [OF assms] by auto
  with bcasts_spec [of h1 xs] show ?thesis by force
qed

lemma unsubscribed_receives_nothing:
  assumes "inv h" "c \<in> members h k" "unsubscribe k c h = Some h1"
  shows "\<exists>h2. bcast k' m h1 = Some h2 \<and> inv h2 \<and> buf h2 c = buf h c"
proof -
  from unsub [OF assms(1,2)] assms(3) have i: "inv h1" "buf h1 = buf h"
    and m: "members h1 k'' = members h k'' - (if k'' = k then {c} else {})" for k''
    by auto
  from bcast_total [OF i(1)] obtain h2 where h2: "bcast k' m h1 = Some h2" by blast
  have "c \<notin> members h1 k'" using m [of k'] one_room [OF assms(1,2), of k'] by auto
  then show ?thesis using h2 bcast_inv [OF i(1) h2] bcast_buf [OF i(1) h2] i(2) by auto
qed

end

section \<open>Subscriber tables\<close>

text \<open>
  The shape the invariants share: every channel of a table is allocated and open and sits in
  one room, and no buffer exceeds the capacity the hub allocates.
\<close>

definition table_ok :: "nat \<Rightarrow> 'm heap \<Rightarrow> ('k \<Rightarrow> nat list) \<Rightarrow> bool" where
  "table_ok n hp t \<longleftrightarrow>
     (\<forall>k. open_ids hp (t k)) \<and>
     (\<forall>k k' i. i \<in> set (t k) \<and> i \<in> set (t k') \<longrightarrow> k = k') \<and>
     (\<forall>c \<in> set hp. ch_cap c = n \<and> length (ch_buf c) \<le> n)"

definition chan_buf :: "'m heap \<Rightarrow> nat \<Rightarrow> 'm list" where
  "chan_buf hp i = (if i < length hp then ch_buf (hp ! i) else [])"

definition room_list :: "('k \<Rightarrow> nat list option) \<Rightarrow> 'k \<Rightarrow> nat list" where
  "room_list rs k = (case rs k of None \<Rightarrow> [] | Some r \<Rightarrow> r)"

lemma room_list_upd [simp]:
  "room_list (rs(k \<mapsto> r)) k' = (if k' = k then r else room_list rs k')"
  "room_list (rs(k := None)) k' = (if k' = k then [] else room_list rs k')"
  by (simp_all add: room_list_def)

lemma removeAll_empty: "removeAll c r = [] \<longleftrightarrow> set r \<subseteq> {c}"
  by (induction r) auto

lemma table_ok_open: "table_ok n hp t \<Longrightarrow> open_ids hp (t k)"
  by (simp add: table_ok_def)

lemma table_ok_chan: "table_ok n hp t \<Longrightarrow> i < length hp \<Longrightarrow> ch_cap (hp ! i) = n \<and> length (ch_buf (hp ! i)) \<le> n"
  by (simp add: table_ok_def)

lemma table_ok_set: "table_ok n hp t \<Longrightarrow> c \<in> set hp \<Longrightarrow> ch_cap c = n \<and> length (ch_buf c) \<le> n"
  by (simp add: table_ok_def)

lemma table_okI:
  "(\<And>k. open_ids hp (t k)) \<Longrightarrow> (\<And>k k' i. i \<in> set (t k) \<Longrightarrow> i \<in> set (t k') \<Longrightarrow> k = k') \<Longrightarrow>
   (\<And>c. c \<in> set hp \<Longrightarrow> ch_cap c = n \<and> length (ch_buf c) \<le> n) \<Longrightarrow> table_ok n hp t"
  unfolding table_ok_def by blast

lemma table_ok_one: "table_ok n hp t \<Longrightarrow> i \<in> set (t k) \<Longrightarrow> i \<in> set (t k') \<Longrightarrow> k = k'"
  unfolding table_ok_def by blast

lemma table_ok_send:
  assumes "table_ok n hp t"
  shows "\<exists>hp'. send_all m (t k) hp = Some hp' \<and> table_ok n hp' t \<and>
           (\<forall>c. chan_buf hp' c =
              (if c \<in> set (t k) \<and> length (chan_buf hp c) < n then chan_buf hp c @ [m] else chan_buf hp c))"
proof -
  from send_all_spec [OF table_ok_open [OF assms, of k], of m] obtain hp' where
    s: "send_all m (t k) hp = Some hp'" and l: "length hp' = length hp"
    and e: "\<And>j. j < length hp \<Longrightarrow> hp' ! j = (if j \<in> set (t k) then push m (hp ! j) else hp ! j)"
    by blast
  have "open_ids hp' (t k')" for k'
    using table_ok_open [OF assms, of k'] l e by (simp add: open_ids_def)
  moreover have "ch_cap c = n \<and> length (ch_buf c) \<le> n" if "c \<in> set hp'" for c
    using that table_ok_chan [OF assms] l e by (auto simp: in_set_conv_nth)
  ultimately have "table_ok n hp' t" using assms by (simp add: table_ok_def)
  moreover have "chan_buf hp' c =
      (if c \<in> set (t k) \<and> length (chan_buf hp c) < n then chan_buf hp c @ [m] else chan_buf hp c)" for c
    using l e [of c] table_ok_chan [OF assms, of c] table_ok_open [OF assms, of k]
    by (auto simp: chan_buf_def open_ids_def)
  ultimately show ?thesis using s by blast
qed

lemma table_ok_sub:
  assumes "table_ok n hp t" and "\<And>k'. set (t' k') = (if k' = k then insert (length hp) (set (t k)) else set (t k'))"
    and "\<And>k'. distinct (t' k')"
  shows "table_ok n (hp @ [make_chan n]) t'"
proof -
  have "open_ids (hp @ [make_chan n]) (t' k')" for k'
    using table_ok_open [OF assms(1), of k'] assms(2) [of k'] assms(3) [of k']
    by (auto simp: open_ids_def nth_append make_chan_def split: if_splits)
  moreover have "i < length hp" if "i \<in> set (t k')" for i k'
    using table_ok_open [OF assms(1), of k'] that by (simp add: open_ids_def)
  moreover have "k1 = k2" if "i \<in> set (t' k1)" "i \<in> set (t' k2)" for i k1 k2
    using that assms(2) table_ok_one [OF assms(1), of i k1 k2] calculation(2)
      table_ok_one [OF assms(1), of i k k2] table_ok_one [OF assms(1), of i k1 k]
    by (auto split: if_splits)
  moreover have "ch_cap c = n \<and> length (ch_buf c) \<le> n" if "c \<in> set (hp @ [make_chan n])" for c
    using that table_ok_set [OF assms(1)] by (auto simp: make_chan_def)
  ultimately show ?thesis by (intro table_okI) blast+
qed

lemma table_ok_close:
  assumes "table_ok n hp t" "i \<in> set (t k)"
    and "\<And>k'. set (t' k') = set (t k') - (if k' = k then {i} else {})"
    and "\<And>k'. distinct (t' k')"
  shows "\<exists>hp'. heap_close i hp = Some hp' \<and> table_ok n hp' t' \<and> chan_buf hp' = chan_buf hp"
proof -
  have i: "i < length hp" "\<not> ch_closed (hp ! i)"
    using table_ok_open [OF assms(1), of k] assms(2) by (simp_all add: open_ids_def)
  let ?h = "hp[i := (hp ! i)\<lparr>ch_closed := True\<rparr>]"
  have "i \<notin> set (t' k')" for k'
    using assms(2,3) table_ok_one [OF assms(1), of i k k'] by (auto split: if_splits)
  then have "?h ! j = hp ! j" if "j \<in> set (t' k')" for j k'
    using that by (metis nth_list_update_neq)
  then have "open_ids ?h (t' k')" for k'
    using table_ok_open [OF assms(1), of k'] assms(3) [of k'] assms(4) [of k']
    unfolding open_ids_def by (metis DiffD1 length_list_update)
  moreover have "ch_cap c = n \<and> length (ch_buf c) \<le> n" if "c \<in> set ?h" for c
    using that table_ok_chan [OF assms(1)] i by (auto simp: in_set_conv_nth nth_list_update)
  moreover have "k1 = k2" if "j \<in> set (t' k1)" "j \<in> set (t' k2)" for j k1 k2
    using that assms(3) table_ok_one [OF assms(1), of j k1 k2] by auto
  ultimately have "table_ok n ?h t'" by (intro table_okI) blast+
  moreover have "chan_buf ?h = chan_buf hp"
    using i by (intro ext) (simp add: chan_buf_def nth_list_update)
  ultimately show ?thesis using i by (simp add: heap_close_def)
qed

section \<open>ChatHub\<close>

record ChatMessage =
  StreamID :: string
  Type :: string
  Username :: string
  Avatar :: string
  Text :: string
  Value :: int
  CreatedAt :: string

record ChatHub =
  chat_heap :: "ChatMessage heap"
  rooms :: "string \<Rightarrow> nat list option"

definition NewChatHub :: ChatHub where
  "NewChatHub = \<lparr>chat_heap = [], rooms = Map.empty\<rparr>"

definition ChatHub_Subscribe :: "string \<Rightarrow> ChatHub \<Rightarrow> nat \<times> ChatHub" where
  "ChatHub_Subscribe streamID h =
     (let ch = length (chat_heap h);
          room = (case rooms h streamID of None \<Rightarrow> [] | Some r \<Rightarrow> r)
      in (ch, h\<lparr>chat_heap := chat_heap h @ [make_chan 20],
               rooms := (rooms h)(streamID \<mapsto> room @ [ch])\<rparr>))"

definition ChatHub_Unsubscribe :: "string \<Rightarrow> nat \<Rightarrow> ChatHub \<Rightarrow> ChatHub option" where
  "ChatHub_Unsubscribe streamID ch h =
     (let h1 = (case rooms h streamID of
                  None \<Rightarrow> h
                | Some room \<Rightarrow>
                    let room' = removeAll ch room in
                    h\<lparr>rooms := (rooms h)(streamID := if room' = [] then None else Some room')\<rparr>)
      in case heap_close ch (chat_heap h1) of None \<Rightarrow> None | Some hp \<Rightarrow> Some (h1\<lparr>chat_heap := hp\<rparr>))"

definition safeSend :: "nat \<Rightarrow> 'm \<Rightarrow> 'm heap \<Rightarrow> 'm heap" where
  "safeSend ch msg hp = (case heap_send msg ch hp of None \<Rightarrow> hp | Some hp' \<Rightarrow> hp')"

definition ChatHub_Broadcast :: "string \<Rightarrow> ChatMessage \<Rightarrow> ChatHub \<Rightarrow> ChatHub" where
  "ChatHub_Broadcast streamID msg h =
     (case rooms h streamID of
        None \<Rightarrow> h
      | Some room \<Rightarrow> h\<lparr>chat_heap := fold (\<lambda>ch. safeSend ch msg) room (chat_heap h)\<rparr>)"

definition ChatHub_inv :: "ChatHub \<Rightarrow> bool" where
  "ChatHub_inv h \<longleftrightarrow> table_ok 20 (chat_heap h) (room_list (rooms h)) \<and> (\<forall>k. rooms h k \<noteq> Some [])"

lemma fold_safeSend: "send_all m is hp = Some hp' \<Longrightarrow> fold (\<lambda>ch. safeSend ch m) is hp = hp'"
  by (induction m "is" hp rule: send_all.induct) (auto simp: safeSend_def split: option.splits)

lemma ChatHub_Broadcast_rooms [simp]: "rooms (ChatHub_Broadcast k m h) = rooms h"
  by (simp add: ChatHub_Broadcast_def split: option.splits)

lemma ChatHub_Broadcast_spec:
  assumes "ChatHub_inv h"
  shows "ChatHub_inv (ChatHub_Broadcast k m h) \<and>
     (\<forall>c. chan_buf (chat_heap (ChatHub_Broadcast k m h)) c =
        (if c \<in> set (room_list (rooms h) k) \<and> length (chan_buf (chat_heap h) c) < 20
         then chan_buf (chat_heap h) c @ [m] else chan_buf (chat_heap h) c))"
proof -
  have ok: "table_ok 20 (chat_heap h) (room_list (rooms h))" using assms by (simp add: ChatHub_inv_def)
  from table_ok_send [OF ok, of m k] obtain hp' where
    hp': "send_all m (room_list (rooms h) k) (chat_heap h) = Some hp'"
    "table_ok 20 hp' (room_list (rooms h))"
    "\<And>c. chan_buf hp' c = (if c \<in> set (room_list (rooms h) k) \<and> length (chan_buf (chat_heap h) c) < 20
         then chan_buf (chat_heap h) c @ [m] else chan_buf (chat_heap h) c)" by blast
  have "chat_heap (ChatHub_Broadcast k m h) = hp'"
    using fold_safeSend [OF hp'(1)]
    by (auto simp: ChatHub_Broadcast_def room_list_def split: option.splits)
  then show ?thesis using hp'(2,3) assms by (simp add: ChatHub_inv_def)
qed

lemma ChatHub_Subscribe_inv:
  assumes "ChatHub_inv h" "ChatHub_Subscribe k h = (c, h')"
  shows "ChatHub_inv h'"
proof -
  have ok: "table_ok 20 (chat_heap h) (room_list (rooms h))" using assms(1) by (simp add: ChatHub_inv_def)
  have h': "h' = h\<lparr>chat_heap := chat_heap h @ [make_chan 20],
              rooms := (rooms h)(k \<mapsto> room_list (rooms h) k @ [length (chat_heap h)])\<rparr>"
    using assms(2) by (auto simp: ChatHub_Subscribe_def Let_def room_list_def)
  have lt: "i < length (chat_heap h)" if "i \<in> set (room_list (rooms h) k')" for i k'
    using table_ok_open [OF ok, of k'] that by (simp add: open_ids_def)
  have "table_ok 20 (chat_heap h') (room_list (rooms h'))"
  proof -
    have "distinct (room_list (rooms h') k')" for k'
      using table_ok_open [OF ok, of k'] lt [of "length (chat_heap h)" k]
      by (auto simp: h' open_ids_def)
    moreover have "set (room_list (rooms h') k') =
        (if k' = k then insert (length (chat_heap h)) (set (room_list (rooms h) k)) else set (room_list (rooms h) k'))" for k'
      by (simp add: h')
    ultimately have "table_ok 20 (chat_heap h @ [make_chan 20]) (room_list (rooms h'))"
      by (intro table_ok_sub [OF ok, of _ k])
    then show ?thesis by (simp add: h')
  qed
  then show ?thesis using assms(1) by (simp add: ChatHub_inv_def h')
qed

lemma ChatHub_Subscribe_fresh:
  assumes "ChatHub_inv h" "ChatHub_Subscribe k h = (c, h')"
  shows "c = length (chat_heap h)" "c \<notin> set (room_list (rooms h) k')"
    "set (room_list (rooms h') k') = (if k' = k then insert c (set (room_list (rooms h) k)) else set (room_list (rooms h) k'))"
    "chan_buf (chat_heap h') c = []" "d \<noteq> c \<Longrightarrow> chan_buf (chat_heap h') d = chan_buf (chat_heap h) d"
proof -
  have ok: "table_ok 20 (chat_heap h) (room_list (rooms h))" using assms(1) by (simp add: ChatHub_inv_def)
  show c: "c = length (chat_heap h)" using assms(2) by (auto simp: ChatHub_Subscribe_def Let_def)
  show "c \<notin> set (room_list (rooms h) k')"
    using table_ok_open [OF ok, of k'] by (auto simp: c open_ids_def)
  have h': "h' = h\<lparr>chat_heap := chat_heap h @ [make_chan 20],
              rooms := (rooms h)(k \<mapsto> room_list (rooms h) k @ [length (chat_heap h)])\<rparr>"
    using assms(2) by (auto simp: ChatHub_Subscribe_def Let_def room_list_def)
  show "set (room_list (rooms h') k') = (if k' = k then insert c (set (room_list (rooms h) k)) else set (room_list (rooms h) k'))"
    by (simp add: h' c)
  show "chan_buf (chat_heap h') c = []" by (simp add: h' c chan_buf_def make_chan_def)
  show "d \<noteq> c \<Longrightarrow> chan_buf (chat_heap h') d = chan_buf (chat_heap h) d"
    by (auto simp: h' c chan_buf_def nth_append)
qed

lemma ChatHub_Unsubscribe_spec:
  assumes "ChatHub_inv h" "c \<in> set (room_list (rooms h) k)"
  shows "\<exists>h'. ChatHub_Unsubscribe k c h = Some h' \<and> ChatHub_inv h' \<and>
     chan_buf (chat_heap h') = chan_buf (chat_heap h) \<and>
     (\<forall>k'. set (room_list (rooms h') k') = set (room_list (rooms h) k') - (if k' = k then {c} else {}))"
proof -
  have ok: "table_ok 20 (chat_heap h) (room_list (rooms h))" using assms(1) by (simp add: ChatHub_inv_def)
  obtain room where room: "rooms h k = Some room"
    using assms(2) by (cases "rooms h k") (simp_all add: room_list_def)
  let ?rs = "(rooms h)(k := if removeAll c room = [] then None else Some (removeAll c room))"
  have sets: "set (room_list ?rs k') = set (room_list (rooms h) k') - (if k' = k then {c} else {})" for k'
    using room by (auto simp: room_list_def removeAll_empty)
  have "distinct (room_list ?rs k')" for k'
    using table_ok_open [OF ok, of k'] room by (auto simp: room_list_def open_ids_def distinct_removeAll)
  from table_ok_close [OF ok assms(2) sets this] obtain hp' where
    hp': "heap_close c (chat_heap h) = Some hp'" "table_ok 20 hp' (room_list ?rs)"
    "chan_buf hp' = chan_buf (chat_heap h)" by blast
  let ?h = "h\<lparr>rooms := ?rs, chat_heap := hp'\<rparr>"
  have "ChatHub_Unsubscribe k c h = Some ?h"
    using room hp'(1) by (simp add: ChatHub_Unsubscribe_def Let_def)
  moreover have "ChatHub_inv ?h" using hp'(2) assms(1) by (simp add: ChatHub_inv_def)
  ultimately show ?thesis using hp'(3) sets by (intro exI [of _ ?h]) simp
qed

interpretation chat: room_hub ChatHub_inv 20 "\<lambda>h k. set (room_list (rooms h) k)"
  "\<lambda>h. chan_buf (chat_heap h)" ChatHub_Subscribe ChatHub_Unsubscribe
  "\<lambda>k m h. Some (ChatHub_Broadcast k m h)"
proof unfold_locales
  fix h k c k'
  assume h: "ChatHub_inv h" and c: "c \<in> set (room_list (rooms h) k)"
  then have ok: "table_ok 20 (chat_heap h) (room_list (rooms h))" by (simp add: ChatHub_inv_def)
  show "length (chan_buf (chat_heap h) c) \<le> 20"
    using table_ok_chan [OF ok, of c] by (simp add: chan_buf_def)
  assume "c \<in> set (room_list (rooms h) k')"
  with table_ok_one [OF ok c] show "k = k'" by blast
next
  fix h k c h' k'
  assume *: "ChatHub_inv h" "ChatHub_Subscribe k h = (c, h')"
  show "chan_buf (chat_heap h') c = [] \<and>
      (\<forall>d \<in> set (room_list (rooms h) k'). chan_buf (chat_heap h') d = chan_buf (chat_heap h) d)"
    using ChatHub_Subscribe_fresh [OF *] by metis
next
  fix h k m h'
  assume "ChatHub_inv h" "Some (ChatHub_Broadcast k m h) = Some h'"
  then show "ChatHub_inv h' \<and> (\<lambda>k. set (room_list (rooms h') k)) = (\<lambda>k. set (room_list (rooms h) k))"
    using ChatHub_Broadcast_spec by auto
next
  fix h k m h' c
  assume "ChatHub_inv h" "Some (ChatHub_Broadcast k m h) = Some h'"
  then show "chan_buf (chat_heap h') c =
      (if c \<in> set (room_list (rooms h) k) \<and> length (chan_buf (chat_heap h) c) < 20
       then chan_buf (chat_heap h) c @ [m] else chan_buf (chat_heap h) c)"
    using ChatHub_Broadcast_spec by fastforce
next
  fix h k c h' k'
  assume *: "ChatHub_inv h" "ChatHub_Subscribe k h = (c, h')"
  show "set (room_list (rooms h') k') =
      (if k' = k then insert c (set (room_list (rooms h) k)) else set (room_list (rooms h) k')) \<and>
      c \<notin> set (room_list (rooms h) k')"
    using ChatHub_Subscribe_fresh(2,3) [OF *] by metis
qed (fact ChatHub_Subscribe_inv | fact ChatHub_Unsubscribe_spec | simp)+

section \<open>Hub\<close>

record VideoEvent =
  ve_VideoID :: string
  ve_Status :: string
  ve_HLSUrl :: string

record Hub =
  hub_heap :: "VideoEvent heap"
  clients :: "nat list"

definition NewHub :: Hub where
  "NewHub = \<lparr>hub_heap = [], clients = []\<rparr>"

definition Hub_Subscribe :: "Hub \<Rightarrow> nat \<times> Hub" where
  "Hub_Subscribe h =
     (let ch = length (hub_heap h)
      in (ch, h\<lparr>hub_heap := hub_heap h @ [make_chan 10], clients := clients h @ [ch]\<rparr>))"

definition Hub_Unsubscribe :: "nat \<Rightarrow> Hub \<Rightarrow> Hub option" where
  "Hub_Unsubscribe ch h =
     (let h1 = h\<lparr>clients := removeAll ch (clients h)\<rparr>
      in case heap_close ch (hub_heap h1) of None \<Rightarrow> None | Some hp \<Rightarrow> Some (h1\<lparr>hub_heap := hp\<rparr>))"

definition Hub_Broadcast :: "VideoEvent \<Rightarrow> Hub \<Rightarrow> Hub option" where
  "Hub_Broadcast event h =
     (case send_all event (clients h) (hub_heap h) of
        None \<Rightarrow> None
      | Some hp \<Rightarrow> Some (h\<lparr>hub_heap := hp\<rparr>))"

definition Hub_inv :: "Hub \<Rightarrow> bool" where
  "Hub_inv h \<longleftrightarrow> table_ok 10 (hub_heap h) (\<lambda>_::unit. clients h)"

lemma Hub_Broadcast_spec:
  assumes "Hub_inv h"
  shows "\<exists>h'. Hub_Broadcast m h = Some h' \<and> Hub_inv h' \<and> clients h' = clients h \<and>
     (\<forall>c. chan_buf (hub_heap h') c =
        (if c \<in> set (clients h) \<and> length (chan_buf (hub_heap h) c) < 10
         then chan_buf (hub_heap h) c @ [m] else chan_buf (hub_heap h) c))"
  using table_ok_send [OF assms [unfolded Hub_inv_def], of m]
  by (auto simp: Hub_Broadcast_def Hub_inv_def)

lemma Hub_Subscribe_spec:
  assumes "Hub_inv h" "Hub_Subscribe h = (c, h')"
  shows "Hub_inv h'" "c \<notin> set (clients h)" "set (clients h') = insert c (set (clients h))"
    "chan_buf (hub_heap h') c = []" "d \<noteq> c \<Longrightarrow> chan_buf (hub_heap h') d = chan_buf (hub_heap h) d"
proof -
  note ok = assms(1) [unfolded Hub_inv_def]
  have h': "c = length (hub_heap h)"
    "h' = h\<lparr>hub_heap := hub_heap h @ [make_chan 10], clients := clients h @ [length (hub_heap h)]\<rparr>"
    using assms(2) by (auto simp: Hub_Subscribe_def Let_def)
  show c: "c \<notin> set (clients h)"
    using table_ok_open [OF ok] by (auto simp: h' open_ids_def)
  show "Hub_inv h'"
    using table_ok_sub [OF ok, of "\<lambda>_. clients h'"] table_ok_open [OF ok] c
    by (auto simp: Hub_inv_def h' open_ids_def)
  show "set (clients h') = insert c (set (clients h))" by (simp add: h')
  show "chan_buf (hub_heap h') c = []" by (simp add: h' chan_buf_def make_chan_def)
  show "d \<noteq> c \<Longrightarrow> chan_buf (hub_heap h') d = chan_buf (hub_heap h) d"
    by (auto simp: h' chan_buf_def nth_append)
qed

lemma Hub_Unsubscribe_spec:
  assumes "Hub_inv h" "c \<in> set (clients h)"
  shows "\<exists>h'. Hub_Unsubscribe c h = Some h' \<and> Hub_inv h' \<and>
     chan_buf (hub_heap h') = chan_buf (hub_heap h) \<and> set (clients h') = set (clients h) - {c}"
proof -
  note ok = assms(1) [unfolded Hub_inv_def]
  have "\<exists>hp'. heap_close c (hub_heap h) = Some hp' \<and>
      table_ok 10 hp' (\<lambda>_::unit. removeAll c (clients h)) \<and> chan_buf hp' = chan_buf (hub_heap h)"
    using assms(2) table_ok_open [OF ok]
    by (intro table_ok_close [OF ok, of c]) (auto simp: open_ids_def distinct_removeAll)
  then show ?thesis by (auto simp: Hub_Unsubscribe_def Hub_inv_def Let_def)
qed

interpretation video_events: room_hub Hub_inv 10 "\<lambda>h (_::unit). set (clients h)"
  "\<lambda>h. chan_buf (hub_heap h)" "\<lambda>_. Hub_Subscribe" "\<lambda>_. Hub_Unsubscribe" "\<lambda>_. Hub_Broadcast"
proof unfold_locales
  fix h c
  assume h: "Hub_inv h" and c: "c \<in> set (clients h)"
  show "length (chan_buf (hub_heap h) c) \<le> 10"
    using table_ok_chan [OF h [unfolded Hub_inv_def], of c] by (simp add: chan_buf_def)
next
  fix h c h'
  assume *: "Hub_inv h" "Hub_Subscribe h = (c, h')"
  show "chan_buf (hub_heap h') c = [] \<and> (\<forall>d \<in> set (clients h). chan_buf (hub_heap h') d = chan_buf (hub_heap h) d)"
    using Hub_Subscribe_spec [OF *] by metis
next
  fix h h' m c
  assume *: "Hub_inv h"
  show "\<exists>h'. Hub_Broadcast m h = Some h'" using Hub_Broadcast_spec [OF *] by blast
  assume "Hub_Broadcast m h = Some h'"
  with Hub_Broadcast_spec [OF *, of m]
  show "Hub_inv h' \<and> (\<lambda>_::unit. set (clients h')) = (\<lambda>_. set (clients h))"
    and "chan_buf (hub_heap h') c =
        (if c \<in> set (clients h) \<and> length (chan_buf (hub_heap h) c) < 10
         then chan_buf (hub_heap h) c @ [m] else chan_buf (hub_heap h) c)" by auto
next
  fix h c and k :: unit
  assume "Hub_inv h" "c \<in> set (clients h)"
  with Hub_Unsubscribe_spec [OF this]
  show "\<exists>h'. Hub_Unsubscribe c h = Some h' \<and> Hub_inv h' \<and> chan_buf (hub_heap h') = chan_buf (hub_heap h) \<and>
      (\<forall>k'. set (clients h') = set (clients h) - (if k' = k then {c} else {}))" by simp
qed (use Hub_Subscribe_spec in auto)

section \<open>NotificationHub\<close>

record NotificationHub =
  notif_heap :: "Notification heap"
  subscribers :: "string \<Rightarrow> nat list option"

definition NewNotificationHub :: NotificationHub where
  "NewNotificationHub = \<lparr>notif_heap = [], subscribers = Map.empty\<rparr>"

definition NotificationHub_Subscribe :: "string \<Rightarrow> NotificationHub \<Rightarrow> nat \<times> NotificationHub" where
  "NotificationHub_Subscribe userID h =
     (let ch = length (notif_heap h)
      in (ch, h\<lparr>notif_heap := notif_heap h @ [make_chan 16],
               subscribers := (subscribers h)(userID \<mapsto> room_list (subscribers h) userID @ [ch])\<rparr>))"

definition NotificationHub_Unsubscribe :: "string \<Rightarrow> nat \<Rightarrow> NotificationHub \<Rightarrow> NotificationHub option" where
  "NotificationHub_Unsubscribe userID ch h =
     (let subs = room_list (subscribers h) userID in
      case (if ch \<in> set subs
            then (case heap_close ch (notif_heap h) of
                    None \<Rightarrow> None
                  | Some hp \<Rightarrow> Some (h\<lparr>notif_heap := hp,
                      subscribers := (subscribers h)(userID \<mapsto> remove1 ch subs)\<rparr>))
            else Some h) of
        None \<Rightarrow> None
      | Some h1 \<Rightarrow>
          Some (if room_list (subscribers h1) userID = []
                then h1\<lparr>subscribers := (subscribers h1)(userID := None)\<rparr> else h1))"

definition NotificationHub_SendDirect :: "string \<Rightarrow> Notification \<Rightarrow> NotificationHub \<Rightarrow> NotificationHub option" where
  "NotificationHub_SendDirect userID notif h =
     (case subscribers h userID of
        None \<Rightarrow> Some h
      | Some subs \<Rightarrow>
          (case send_all notif subs (notif_heap h) of
             None \<Rightarrow> None
           | Some hp \<Rightarrow> Some (h\<lparr>notif_heap := hp\<rparr>)))"

definition NotificationHub_inv :: "NotificationHub \<Rightarrow> bool" where
  "NotificationHub_inv h \<longleftrightarrow>
     table_ok 16 (notif_heap h) (room_list (subscribers h)) \<and> (\<forall>k. subscribers h k \<noteq> Some [])"

lemma NotificationHub_SendDirect_spec:
  assumes "NotificationHub_inv h"
  shows "\<exists>h'. NotificationHub_SendDirect k m h = Some h' \<and> NotificationHub_inv h' \<and> subscribers h' = subscribers h \<and>
     (\<forall>c. chan_buf (notif_heap h') c =
        (if c \<in> set (room_list (subscribers h) k) \<and> length (chan_buf (notif_heap h) c) < 16
         then chan_buf (notif_heap h) c @ [m] else chan_buf (notif_heap h) c))"
proof (cases "subscribers h k")
  case None
  then show ?thesis using assms by (simp add: NotificationHub_SendDirect_def room_list_def)
next
  case (Some subs)
  then have subs: "room_list (subscribers h) k = subs" by (simp add: room_list_def)
  have "table_ok 16 (notif_heap h) (room_list (subscribers h))" using assms by (simp add: NotificationHub_inv_def)
  from table_ok_send [OF this, of m k] subs Some assms show ?thesis
    by (auto simp: NotificationHub_SendDirect_def NotificationHub_inv_def)
qed

lemma NotificationHub_Subscribe_spec:
  assumes "NotificationHub_inv h" "NotificationHub_Subscribe k h = (c, h')"
  shows "NotificationHub_inv h'" "c \<notin> set (room_list (subscribers h) k')"
    "set (room_list (subscribers h') k') =
       (if k' = k then insert c (set (room_list (subscribers h) k)) else set (room_list (subscribers h) k'))"
    "chan_buf (notif_heap h') c = []" "d \<noteq> c \<Longrightarrow> chan_buf (notif_heap h') d = chan_buf (notif_heap h) d"
proof -
  have ok: "table_ok 16 (notif_heap h) (room_list (subscribers h))" using assms(1) by (simp add: NotificationHub_inv_def)
  have h': "c = length (notif_heap h)"
    "h' = h\<lparr>notif_heap := notif_heap h @ [make_chan 16],
       subscribers := (subscribers h)(k \<mapsto> room_list (subscribers h) k @ [length (notif_heap h)])\<rparr>"
    using assms(2) by (auto simp: NotificationHub_Subscribe_def Let_def)
  have c: "c \<notin> set (room_list (subscribers h) k1)" for k1
    using table_ok_open [OF ok, of k1] by (auto simp: h' open_ids_def)
  show "c \<notin> set (room_list (subscribers h) k')" by (rule c)
  have sets: "set (room_list (subscribers h') k1) =
       (if k1 = k then insert c (set (room_list (subscribers h) k)) else set (room_list (subscribers h) k1))" for k1
    by (simp add: h')
  show "set (room_list (subscribers h') k') =
       (if k' = k then insert c (set (room_list (subscribers h) k)) else set (room_list (subscribers h) k'))"
    by (rule sets)
  have "distinct (room_list (subscribers h') k1)" for k1
    using table_ok_open [OF ok, of k1] c [of k] by (auto simp: h' open_ids_def)
  with sets have "table_ok 16 (notif_heap h @ [make_chan 16]) (room_list (subscribers h'))"
    by (intro table_ok_sub [OF ok, of _ k]) (simp_all add: h')
  then show "NotificationHub_inv h'" using assms(1) by (simp add: NotificationHub_inv_def h')
  show "chan_buf (notif_heap h') c = []" by (simp add: h' chan_buf_def make_chan_def)
  show "d \<noteq> c \<Longrightarrow> chan_buf (notif_heap h') d = chan_buf (notif_heap h) d"
    by (auto simp: h' chan_buf_def nth_append)
qed

lemma NotificationHub_Unsubscribe_spec:
  assumes "NotificationHub_inv h" "c \<in> set (room_list (subscribers h) k)"
  shows "\<exists>h'. NotificationHub_Unsubscribe k c h = Some h' \<and> NotificationHub_inv h' \<and>
     chan_buf (notif_heap h') = chan_buf (notif_heap h) \<and>
     (\<forall>k'. set (room_list (subscribers h') k') = set (room_list (subscribers h) k') - (if k' = k then {c} else {}))"
proof -
  have ok: "table_ok 16 (notif_heap h) (room_list (subscribers h))" using assms(1) by (simp add: NotificationHub_inv_def)
  have d: "distinct (room_list (subscribers h) k')" for k'
    using table_ok_open [OF ok, of k'] by (simp add: open_ids_def)
  let ?r = "remove1 c (room_list (subscribers h) k)"
  let ?rs = "(subscribers h)(k := if ?r = [] then None else Some ?r)"
  have rl: "room_list ?rs k' = (if k' = k then ?r else room_list (subscribers h) k')" for k' by simp
  have sets: "set (room_list ?rs k') = set (room_list (subscribers h) k') - (if k' = k then {c} else {})" for k'
    unfolding rl using d [of k] by (simp add: set_remove1_eq)
  have "distinct (room_list ?rs k')" for k' unfolding rl using d by (simp add: distinct_remove1)
  from table_ok_close [OF ok assms(2) sets this] obtain hp' where
    hp': "heap_close c (notif_heap h) = Some hp'" "table_ok 16 hp' (room_list ?rs)"
    "chan_buf hp' = chan_buf (notif_heap h)" by blast
  let ?h = "h\<lparr>notif_heap := hp', subscribers := ?rs\<rparr>"
  have "NotificationHub_Unsubscribe k c h = Some ?h"
    using assms(2) hp'(1) by (simp add: NotificationHub_Unsubscribe_def Let_def)
  moreover have "NotificationHub_inv ?h" using hp'(2) assms(1) by (simp add: NotificationHub_inv_def)
  ultimately show ?thesis using hp'(3) sets by (intro exI [of _ ?h]) simp
qed

interpretation notif: room_hub NotificationHub_inv 16 "\<lambda>h k. set (room_list (subscribers h) k)"
  "\<lambda>h. chan_buf (notif_heap h)" NotificationHub_Subscribe NotificationHub_Unsubscribe NotificationHub_SendDirect
proof unfold_locales
  fix h k c k'
  assume h: "NotificationHub_inv h" and c: "c \<in> set (room_list (subscribers h) k)"
  then have ok: "table_ok 16 (notif_heap h) (room_list (subscribers h))" by (simp add: NotificationHub_inv_def)
  show "length (chan_buf (notif_heap h) c) \<le> 16"
    using table_ok_chan [OF ok, of c] by (simp add: chan_buf_def)
  assume "c \<in> set (room_list (subscribers h) k')"
  with table_ok_one [OF ok c] show "k = k'" by blast
next
  fix h k c h' k'
  assume *: "NotificationHub_inv h" "NotificationHub_Subscribe k h = (c, h')"
  show "chan_buf (notif_heap h') c = [] \<and>
      (\<forall>d \<in> set (room_list (subscribers h) k'). chan_buf (notif_heap h') d = chan_buf (notif_heap h) d)"
    using NotificationHub_Subscribe_spec [OF *] by metis
next
  fix h h' k m c
  assume *: "NotificationHub_inv h"
  show "\<exists>h'. NotificationHub_SendDirect k m h = Some h'" using NotificationHub_SendDirect_spec [OF *] by blast
  assume "NotificationHub_SendDirect k m h = Some h'"
  with NotificationHub_SendDirect_spec [OF *, of k m]
  show "NotificationHub_inv h' \<and>
      (\<lambda>k. set (room_list (subscribers h') k)) = (\<lambda>k. set (room_list (subscribers h) k))"
    and "chan_buf (notif_heap h') c =
        (if c \<in> set (room_list (subscribers h) k) \<and> length (chan_buf (notif_heap h) c) < 16
         then chan_buf (notif_heap h) c @ [m] else chan_buf (notif_heap h) c)" by auto
qed (use NotificationHub_Subscribe_spec NotificationHub_Unsubscribe_spec in auto)

end
