(* ===== verification/Store.thy ===== *)
theory Store
  imports GoStd Hubs
begin

text \<open>
  The state of the service and the calls by which the code reaches it.  The database is a record
  with one list of rows per table of \<^verbatim>\<open>migrations/\<close>; a SQL statement of the source is a
  function on it.  The code not in the repository (drivers, Redis, NATS, MinIO, SRS, bcrypt, the
  JWT library, the clock, the source of UUIDs) is a parameter: the fields of \<^verbatim>\<open>env\<close>.
  Every interaction with the outside advances \<^verbatim>\<open>tick\<close>, so that a parameter may answer
  differently each time.
\<close>

section \<open>Rows\<close>

text \<open>
  A row holds the columns of its table.  Columns that are nullable in the schema but that every
  writer of the program fills are plain values (an \<^verbatim>\<open>avatar_url\<close> that \<^verbatim>\<open>Store\<close> leaves NULL is
  read through \<^verbatim>\<open>COALESCE(avatar_url, '')\<close> everywhere and is the empty string here).
\<close>

record video_row =
  vd_id :: string
  vd_user_id :: string
  vd_title :: string
  vd_description :: string
  vd_category :: string
  vd_status :: string
  vd_visibility :: string
  vd_raw_s3_key :: string
  vd_hls_url :: string
  vd_thumbnail_url :: string
  vd_duration :: string
  vd_is_reel :: bool
  vd_views :: int
  vd_created_at :: time
  vd_updated_at :: time

record livestream_row =
  lv_id :: string
  lv_user_id :: string
  lv_stream_key :: string
  lv_title :: string
  lv_category :: string
  lv_is_live :: bool
  lv_hls_url :: string
  lv_viewers_count :: int
  lv_started_at :: "time option"
  lv_ended_at :: "time option"
  lv_created_at :: time
  lv_updated_at :: time

record comment_row =
  cm_id :: string
  cm_video_id :: string
  cm_user_id :: string
  cm_user_name :: string
  cm_user_avatar :: string
  cm_content :: string
  cm_parent_id :: "string option"
  cm_created_at :: time

text \<open>\<^verbatim>\<open>likes\<close>, \<^verbatim>\<open>comment_likes\<close>, \<^verbatim>\<open>post_likes\<close> and \<^verbatim>\<open>saved_videos\<close> have the same shape.\<close>

record mark_row =
  mk_id :: string
  mk_target_id :: string
  mk_user_id :: string
  mk_created_at :: time

record follow_row =
  fl_follower_id :: string
  fl_channel_id :: string
  fl_created_at :: time

record subtitle_row =
  sb_id :: string
  sb_video_id :: string
  sb_seq :: int
  sb_start_sec :: float64
  sb_end_sec :: float64
  sb_text_en :: string
  sb_text_vi :: string

record db =
  users :: "User list"
  videos :: "video_row list"
  livestreams :: "livestream_row list"
  likes :: "mark_row list"
  comments :: "comment_row list"
  watch_history :: "WatchHistoryEntry list"
  follows :: "follow_row list"
  worker_heartbeats :: "WorkerHeartbeat list"
  user_vocabulary :: "Vocabulary list"
  video_subtitles :: "subtitle_row list"
  notifications :: "Notification list"
  category_preferences :: "(string \<times> string) list"
  saved_videos :: "mark_row list"
  comment_likes :: "mark_row list"
  posts :: "Post list"
  post_likes :: "mark_row list"

definition empty_db :: db where
  "empty_db = \<lparr>users = [], videos = [], livestreams = [], likes = [], comments = [], watch_history = [],
     follows = [], worker_heartbeats = [], user_vocabulary = [], video_subtitles = [], notifications = [],
     category_preferences = [], saved_videos = [], comment_likes = [], posts = [], post_likes = []\<rparr>"

section \<open>Redis\<close>

text \<open>
  The commands the code sends.  Redis is outside the repository, so the model keeps only the log
  of commands with the instants at which they ran, and the reply to a command is a function of
  the log and of the present instant (field \<^verbatim>\<open>redis\<close> of the environment).
\<close>

datatype redis_cmd =
    SetNX string string int
  | Get string
  | Incr string
  | Decr string
  | DecrBy string int
  | ZIncrBy_Expire string string int
  | ZUnionStore string "string list"
  | ZRevRange string int int
  | Del string
  | Scan nat string int

datatype redis_reply =
    RErr string
  | RNil
  | RBool bool
  | RInt int
  | RStr string
  | RList "string list"
  | RScan "string list" nat
  | ROk

type_synonym redis_log = "(time \<times> redis_cmd) list"

section \<open>Environment and world\<close>

record env =
  pg_fail :: "nat \<Rightarrow> string option"
  pg_cut :: "nat \<Rightarrow> nat option"
  clock :: "nat \<Rightarrow> time"
  uuid :: "nat \<Rightarrow> string"
  uuid_norm :: "string \<Rightarrow> string option"
  ilike :: "string \<Rightarrow> string \<Rightarrow> bool"
  local_off :: int
  has_redis :: bool
  redis :: "redis_log \<Rightarrow> time \<Rightarrow> redis_cmd \<Rightarrow> redis_reply"
  fp_hash :: "string \<Rightarrow> string"
  bcrypt_hash :: "nat \<Rightarrow> string \<Rightarrow> string res"
  bcrypt_ok :: "string \<Rightarrow> string \<Rightarrow> bool"
  jwt_secret :: string
  jwt_ttl :: int
  jwt_sign :: "string \<Rightarrow> string \<Rightarrow> time \<Rightarrow> string res"
  jwt_is_hmac :: "string \<Rightarrow> bool option"
  jwt_subject :: "time \<Rightarrow> string \<Rightarrow> string \<Rightarrow> string option res"
  has_viewRepo :: bool
  has_likeRepo :: bool
  has_savedRepo :: bool
  has_followRepo :: bool
  has_commentLikeRepo :: bool
  has_postLikeRepo :: bool
  has_notifUc :: bool
  has_notifHub :: bool
  has_chatHub :: bool
  has_nats :: bool
  nats_publish :: "nat \<Rightarrow> string option"
  has_minio :: bool
  minio_upload :: "nat \<Rightarrow> string option"
  file_stat :: "nat \<Rightarrow> string \<Rightarrow> string option"
  has_srs :: bool
  srs_streams :: "nat \<Rightarrow> (string \<times> bool) list res"
  dvr_dir :: string
  grace :: int
  fparse :: "string \<Rightarrow> float64 option"
  fadd :: "float64 \<Rightarrow> float64 \<Rightarrow> float64"
  fof_int :: "int \<Rightarrow> float64"

text \<open>
  The flags \<^verbatim>\<open>has_...\<close> say which dependencies of the use cases are not \<^verbatim>\<open>nil\<close>.  A started goroutine that runs \<^verbatim>\<open>NotifyFollowers\<close> is queued in \<^verbatim>\<open>spawned\<close> until the scheduler
  runs it.  A pending finalisation of a livestream refers to its timer; an armed timer is in
  \<^verbatim>\<open>timers\<close> (\<^verbatim>\<open>timer_seq\<close> numbers them), the callback of a timer that has fired but has not yet run is in \<^verbatim>\<open>firing\<close>.
\<close>

record notify_call =
  nc_sender_id :: string
  nc_sender_name :: string
  nc_sender_avatar :: string
  nc_type :: string
  nc_title :: string
  nc_message :: string
  nc_target_url :: string

record pendingEnd =
  pe_timer :: nat
  pe_dvrPath :: string

record timer =
  tm_id :: nat
  tm_key :: string
  tm_deadline :: time

record TranscodeJobPayload =
  tj_VideoID :: string
  tj_RawObjectKey :: string
  tj_UserID :: string

record world =
  tick :: nat
  db :: db
  rlog :: redis_log
  hub :: Hub
  chatHub :: ChatHub
  notifHub :: NotificationHub
  spawned :: "notify_call list"
  jobs :: "TranscodeJobPayload list"
  pending :: "string \<Rightarrow> pendingEnd option"
  timer_seq :: nat
  timers :: "timer list"
  firing :: "string list"

definition init_world :: world where
  "init_world = \<lparr>tick = 0, db = empty_db, rlog = [], hub = NewHub, chatHub = NewChatHub,
     notifHub = NewNotificationHub, spawned = [], jobs = [], pending = Map.empty, timer_seq = 0, timers = [], firing = []\<rparr>"

definition bump :: "world \<Rightarrow> world" where
  "bump w = w\<lparr>tick := tick w + 1\<rparr>"

definition Now :: "env \<Rightarrow> world \<Rightarrow> time \<times> world" where
  "Now E w = (clock E (tick w), bump w)"

definition NewUUID :: "env \<Rightarrow> world \<Rightarrow> string \<times> world" where
  "NewUUID E w = (uuid E (tick w), bump w)"

lemma bump_simps [simp]:
  "db (bump w) = db w" "rlog (bump w) = rlog w" "hub (bump w) = hub w" "chatHub (bump w) = chatHub w"
  "notifHub (bump w) = notifHub w" "spawned (bump w) = spawned w" "jobs (bump w) = jobs w"
  "pending (bump w) = pending w" "timer_seq (bump w) = timer_seq w" "timers (bump w) = timers w" "firing (bump w) = firing w"
  "tick (bump w) = Suc (tick w)"
  by (simp_all add: bump_def)

definition redis_do :: "env \<Rightarrow> redis_cmd \<Rightarrow> world \<Rightarrow> redis_reply \<times> world" where
  "redis_do E c w = (redis E (rlog w) (clock E (tick w)) c, bump (w\<lparr>rlog := rlog w @ [(clock E (tick w), c)]\<rparr>))"

lemma redis_do_db [simp]: "db (snd (redis_do E c w)) = db w"
  by (simp add: redis_do_def)

section \<open>The SQL driver\<close>

text \<open>
  \<^verbatim>\<open>Pool.Exec\<close>, \<^verbatim>\<open>Pool.QueryRow(...).Scan\<close> and \<^verbatim>\<open>Pool.Query\<close> with the loop over
  \<^verbatim>\<open>rows.Next()\<close>.  A call may fail before the statement takes effect (\<^verbatim>\<open>pg_fail\<close>: the
  connection, a timeout, a value the server cannot decode), and the row stream of a query may break
  off (\<^verbatim>\<open>pg_cut\<close>): no repository looks at \<^verbatim>\<open>rows.Err()\<close>, so the code then sees a
  shorter list and no error.  \<^verbatim>\<open>Exec\<close> returns the number of affected rows.
\<close>

type_synonym stmt = "db \<Rightarrow> (nat \<times> db) res"

definition Exec :: "env \<Rightarrow> stmt \<Rightarrow> world \<Rightarrow> nat res \<times> world" where
  "Exec E s w =
     (case pg_fail E (tick w) of
        Some m \<Rightarrow> (Inl (ExtErr m), bump w)
      | None \<Rightarrow> (case s (db w) of
                  Inl e \<Rightarrow> (Inl e, bump w)
                | Inr (n, d) \<Rightarrow> (Inr n, bump (w\<lparr>db := d\<rparr>))))"

definition QueryRow :: "env \<Rightarrow> (db \<Rightarrow> 'a option res) \<Rightarrow> world \<Rightarrow> 'a res \<times> world" where
  "QueryRow E q w =
     (case pg_fail E (tick w) of
        Some m \<Rightarrow> (Inl (ExtErr m), bump w)
      | None \<Rightarrow> (case q (db w) of
                  Inl e \<Rightarrow> (Inl e, bump w)
                | Inr None \<Rightarrow> (Inl ErrNoRows, bump w)
                | Inr (Some x) \<Rightarrow> (Inr x, bump w)))"

definition Query :: "env \<Rightarrow> (db \<Rightarrow> 'a list res) \<Rightarrow> world \<Rightarrow> 'a list res \<times> world" where
  "Query E q w =
     (case pg_fail E (tick w) of
        Some m \<Rightarrow> (Inl (ExtErr m), bump w)
      | None \<Rightarrow> (case q (db w) of
                  Inl e \<Rightarrow> (Inl e, bump w)
                | Inr xs \<Rightarrow> (Inr (case pg_cut E (tick w) of None \<Rightarrow> xs | Some k \<Rightarrow> take k xs), bump w)))"

text \<open>\<^verbatim>\<open>Pool.Begin\<close> and \<^verbatim>\<open>tx.Commit\<close>; a transaction that ends otherwise rolls back to the
  database it started from.\<close>

definition Begin :: "env \<Rightarrow> world \<Rightarrow> unit res \<times> world" where
  "Begin E w = (case pg_fail E (tick w) of Some m \<Rightarrow> (Inl (ExtErr m), bump w) | None \<Rightarrow> (Inr (), bump w))"

definition Commit :: "env \<Rightarrow> world \<Rightarrow> unit res \<times> world" where
  "Commit E w = Begin E w"

definition Rollback :: "db \<Rightarrow> world \<Rightarrow> world" where
  "Rollback d w = w\<lparr>db := d\<rparr>"

text \<open>A run in which no driver call fails and no row stream breaks.\<close>

definition healthy :: "env \<Rightarrow> bool" where
  "healthy E \<longleftrightarrow> pg_fail E = (\<lambda>_. None) \<and> pg_cut E = (\<lambda>_. None)"

lemma Exec_healthy:
  "healthy E \<Longrightarrow> Exec E s w =
     (case s (db w) of Inl e \<Rightarrow> (Inl e, bump w) | Inr (n, d) \<Rightarrow> (Inr n, bump (w\<lparr>db := d\<rparr>)))"
  by (simp add: healthy_def Exec_def)

lemma QueryRow_healthy:
  "healthy E \<Longrightarrow> QueryRow E q w =
     (case q (db w) of Inl e \<Rightarrow> (Inl e, bump w) | Inr None \<Rightarrow> (Inl ErrNoRows, bump w)
      | Inr (Some x) \<Rightarrow> (Inr x, bump w))"
  by (simp add: healthy_def QueryRow_def)

lemma Query_healthy:
  "healthy E \<Longrightarrow> Query E q w = (case q (db w) of Inl e \<Rightarrow> (Inl e, bump w) | Inr xs \<Rightarrow> (Inr xs, bump w))"
  by (simp add: healthy_def Query_def split: sum.splits)

lemma Begin_healthy: "healthy E \<Longrightarrow> Begin E w = (Inr (), bump w)"
  by (simp add: healthy_def Begin_def)

lemma Commit_healthy: "healthy E \<Longrightarrow> Commit E w = (Inr (), bump w)"
  by (simp add: Commit_def Begin_healthy)

lemmas driver_healthy = Exec_healthy QueryRow_healthy Query_healthy Begin_healthy Commit_healthy

text \<open>Reading calls leave everything but the tick alone.\<close>

lemma QueryRow_world: "snd (QueryRow E q w) = bump w"
  by (simp add: QueryRow_def split: option.splits sum.splits)

lemma Query_world: "snd (Query E q w) = bump w"
  by (simp add: Query_def split: option.splits sum.splits)

lemma QueryRow_bump: "QueryRow E q w = (r, w') \<Longrightarrow> w' = bump w"
  using QueryRow_world [of E q w] by simp

lemma Query_bump: "Query E q w = (r, w') \<Longrightarrow> w' = bump w"
  using Query_world [of E q w] by simp

lemmas driver_bump = QueryRow_bump Query_bump

lemma QueryRow_Inr: "QueryRow E q w = (Inr x, w') \<Longrightarrow> q (db w) = Inr (Some x)"
  by (simp add: QueryRow_def split: option.splits sum.splits)

lemma QueryRow_InrD: "QueryRow E q w = (Inr x, w') \<Longrightarrow> q (db w) = Inr (Some x) \<and> w' = bump w"
  by (intro conjI) (erule QueryRow_Inr, erule QueryRow_bump)

text \<open>A statement either leaves the world but its tick alone, or took effect.\<close>

lemma Exec_cases:
  assumes "Exec E s w = (r, w')"
  obtains (failed) e where "r = Inl e" "w' = bump w"
    | (applied) n d where "r = Inr n" "s (db w) = Inr (n, d)" "w' = bump (w\<lparr>db := d\<rparr>)"
  using assms by (auto simp: Exec_def split: option.splits sum.splits)

section \<open>Statements on rows\<close>

definition sql_update :: "('row \<Rightarrow> bool) \<Rightarrow> ('row \<Rightarrow> 'row) \<Rightarrow> 'row list \<Rightarrow> 'row list" where
  "sql_update p f rows = map (\<lambda>r. if p r then f r else r) rows"

definition sql_delete :: "('row \<Rightarrow> bool) \<Rightarrow> 'row list \<Rightarrow> 'row list" where
  "sql_delete p rows = filter (\<lambda>r. \<not> p r) rows"

definition sql_count :: "('row \<Rightarrow> bool) \<Rightarrow> 'row list \<Rightarrow> int" where
  "sql_count p rows = int (length (filter p rows))"

text \<open>
  \<^verbatim>\<open>ORDER BY k ASC\<close> and \<^verbatim>\<open>ORDER BY k DESC\<close>.  The order of rows with equal keys is
  unspecified in SQL; the model keeps the order of insertion.
\<close>

definition order_asc :: "('row \<Rightarrow> int) \<Rightarrow> 'row list \<Rightarrow> 'row list" where
  "order_asc k rows = sort_key k rows"

definition order_desc :: "('row \<Rightarrow> int) \<Rightarrow> 'row list \<Rightarrow> 'row list" where
  "order_desc k rows = sort_key (\<lambda>r. - k r) rows"

text \<open>\<^verbatim>\<open>LIMIT lim OFFSET off\<close>: both are \<^verbatim>\<open>bigint\<close> on the server, the builder takes \<^verbatim>\<open>uint64\<close>.\<close>

definition sql_page :: "nat \<Rightarrow> nat \<Rightarrow> 'row list \<Rightarrow> 'row list res" where
  "sql_page lim off rows =
     (if lim \<ge> 2 ^ 63 \<or> off \<ge> 2 ^ 63 then Inl (PgError ''22003'') else Inr (take lim (drop off rows)))"

text \<open>The checks of an insertion, in the order in which the server makes them: the length of
  every \<^verbatim>\<open>VARCHAR(n)\<close> value, then the \<^verbatim>\<open>CHECK\<close> and \<^verbatim>\<open>UNIQUE\<close> constraints and foreign keys.\<close>

definition varchar_ok :: "(nat \<times> string) list \<Rightarrow> bool" where
  "varchar_ok cols \<longleftrightarrow> list_all (\<lambda>(n, s). rune_count s \<le> n) cols"

definition check :: "bool \<Rightarrow> string \<Rightarrow> 'a res \<Rightarrow> 'a res" where
  "check ok code k = (if ok then k else Inl (PgError code))"

lemma check_simps [simp]: "check True c k = k" "check False c k = Inl (PgError c)"
  by (simp_all add: check_def)

lemma check_Inr [simp]: "check ok c k = Inr x \<longleftrightarrow> ok \<and> k = Inr x"
  by (simp add: check_def)

lemma set_sql_update: "set (sql_update p f rows) = {if p r then f r else r | r. r \<in> set rows}"
  by (auto simp: sql_update_def)

lemma set_sql_delete [simp]: "set (sql_delete p rows) = {r \<in> set rows. \<not> p r}"
  by (simp add: sql_delete_def)

lemma map_key_sql_update: "(\<And>r. p r \<Longrightarrow> k (f r) = k r) \<Longrightarrow> map k (sql_update p f rows) = map k rows"
  by (auto simp: sql_update_def)

lemma distinct_map_delete: "distinct (map k rows) \<Longrightarrow> distinct (map k (sql_delete p rows))"
  by (simp add: sql_delete_def distinct_map_filter)

lemma set_order_desc [simp]: "set (order_desc k rows) = set rows"
  by (simp add: order_desc_def)

lemma length_order_desc [simp]: "length (order_desc k rows) = length rows"
  by (simp add: order_desc_def)

lemma order_desc_sorted: "sorted_wrt (\<lambda>a b. k a \<ge> k b) (order_desc k rows)"
proof -
  have "sorted (map (\<lambda>r. - k r) (order_desc k rows))" by (simp add: order_desc_def)
  then show ?thesis by (simp add: sorted_map)
qed

lemma sql_page_small:
  assumes "lim < 2 ^ 63" "off < 2 ^ 63"
  shows "sql_page lim off rows = Inr (take lim (drop off rows))"
  using assms by (simp add: sql_page_def)

section \<open>Effects\<close>

text \<open>
  Two relations describe what an operation did.  \<^term>\<open>quiet\<close>: it read, and changed nothing but the
  tick.  \<^term>\<open>runs\<close>: it changed the database by a sequence of statements of a given set; an
  invariant that every statement of the set keeps is then kept by the operation.
\<close>

definition quiet :: "world \<Rightarrow> world \<Rightarrow> bool" where
  "quiet w w' \<longleftrightarrow> w' = w\<lparr>tick := tick w'\<rparr>"

lemma quiet_refl [simp]: "quiet w w"
  by (simp add: quiet_def)

lemma quiet_bump [simp]: "quiet w (bump w)"
  by (simp add: quiet_def bump_def)

lemma quiet_trans [trans]: "quiet w w1 \<Longrightarrow> quiet w1 w2 \<Longrightarrow> quiet w w2"
  by (cases w; cases w1; cases w2) (auto simp: quiet_def)

lemma quiet_bump_iff [simp]: "quiet w (bump w') \<longleftrightarrow> quiet w w'"
proof
  show "quiet w w' \<Longrightarrow> quiet w (bump w')" using quiet_trans quiet_bump by blast
  show "quiet w (bump w') \<Longrightarrow> quiet w w'"
    by (cases w; cases w') (auto simp: quiet_def bump_def)
qed

lemma quiet_bump_left [simp]: "quiet (bump w) w' \<longleftrightarrow> quiet w w'"
  by (cases w; cases w') (auto simp: quiet_def bump_def)

lemma quietD:
  assumes "quiet w w'"
  shows "db w' = db w" "rlog w' = rlog w" "hub w' = hub w" "chatHub w' = chatHub w" "notifHub w' = notifHub w"
    "spawned w' = spawned w" "jobs w' = jobs w" "pending w' = pending w" "timer_seq w' = timer_seq w" "timers w' = timers w" "firing w' = firing w"
  using assms by (cases w; cases w'; simp add: quiet_def)+

inductive runs :: "stmt set \<Rightarrow> db \<Rightarrow> db \<Rightarrow> bool" for S where
  runs_refl [simp, intro]: "runs S d d"
| runs_step: "runs S d d1 \<Longrightarrow> s \<in> S \<Longrightarrow> s d1 = Inr (n, d2) \<Longrightarrow> runs S d d2"

lemma runs_trans: "runs S d1 d2 \<Longrightarrow> runs S d d1 \<Longrightarrow> runs S d d2"
  by (induction rule: runs.induct) (auto intro: runs_step)

lemma runs_mono: "runs S d d' \<Longrightarrow> S \<subseteq> T \<Longrightarrow> runs T d d'"
  by (induction rule: runs.induct) (auto intro: runs_step)

lemma runs_invariant:
  assumes "runs S d d'" and "P d" and "\<And>s d n d'. s \<in> S \<Longrightarrow> P d \<Longrightarrow> s d = Inr (n, d') \<Longrightarrow> P d'"
  shows "P d'"
  using assms(1,2) by (induction rule: runs.induct) (auto intro: assms(3))

lemma runs_keeps:
  assumes "runs S d d'" and "\<And>s d n d'. s \<in> S \<Longrightarrow> s d = Inr (n, d') \<Longrightarrow> f d' = f d"
  shows "f d' = f d"
  using assms(1) by (induction rule: runs.induct) (auto dest: assms(2))

lemma Exec_runs: "Exec E s w = (r, w') \<Longrightarrow> s \<in> S \<Longrightarrow> runs S (db w) (db w')"
  by (erule Exec_cases) (auto intro: runs_step)

text \<open>A statement changes no part of the world but the database.\<close>

definition only_db :: "world \<Rightarrow> world \<Rightarrow> bool" where
  "only_db w w' \<longleftrightarrow> w' = w\<lparr>tick := tick w', db := db w'\<rparr>"

lemma only_db_quiet: "quiet w w' \<Longrightarrow> only_db w w'"
  by (cases w; cases w') (simp add: quiet_def only_db_def)

lemma only_db_refl [simp]: "only_db w w"
  by (simp add: only_db_quiet)

lemma only_db_trans [trans]: "only_db w w1 \<Longrightarrow> only_db w1 w2 \<Longrightarrow> only_db w w2"
  by (cases w; cases w1; cases w2) (auto simp: only_db_def)

lemma only_db_bump [simp]: "only_db w (bump w') \<longleftrightarrow> only_db w w'"
  by (cases w; cases w') (auto simp: only_db_def bump_def)

lemma only_db_bump_left [simp]: "only_db (bump w) w' \<longleftrightarrow> only_db w w'"
  by (cases w; cases w') (auto simp: only_db_def bump_def)

lemma only_db_set [simp]: "only_db w (w\<lparr>db := d\<rparr>)"
  by (cases w) (simp add: only_db_def)

lemma only_dbD:
  assumes "only_db w w'"
  shows "rlog w' = rlog w" "hub w' = hub w" "chatHub w' = chatHub w" "notifHub w' = notifHub w"
    "spawned w' = spawned w" "jobs w' = jobs w" "pending w' = pending w" "timer_seq w' = timer_seq w" "timers w' = timers w" "firing w' = firing w"
  using assms by (cases w; cases w'; simp add: only_db_def)+

lemma Exec_only_db: "Exec E s w = (r, w') \<Longrightarrow> only_db w w'"
  by (erule Exec_cases) simp_all

text \<open>The effect of an operation that only writes the database, by statements of a given set.\<close>

definition effect :: "stmt set \<Rightarrow> world \<Rightarrow> world \<Rightarrow> bool" where
  "effect S w w' \<longleftrightarrow> runs S (db w) (db w') \<and> only_db w w'"

lemma effect_refl [simp]: "effect S w w"
  by (simp add: effect_def)

lemma effect_bump [simp]: "effect S w (bump w') \<longleftrightarrow> effect S w w'" "effect S (bump w) w' \<longleftrightarrow> effect S w w'"
  by (simp_all add: effect_def)

lemma effect_trans: "effect S w w1 \<Longrightarrow> effect S w1 w2 \<Longrightarrow> effect S w w2"
  unfolding effect_def using runs_trans only_db_trans by blast

lemma quiet_effect: "quiet w w' \<Longrightarrow> effect S w w'"
  by (simp add: effect_def only_db_quiet quietD)

lemma effect_mono: "effect S w w' \<Longrightarrow> S \<subseteq> T \<Longrightarrow> effect T w w'"
  using runs_mono by (auto simp: effect_def)

lemma Exec_effect: "Exec E s w = (r, w') \<Longrightarrow> s \<in> S \<Longrightarrow> effect S w w'"
  by (simp add: effect_def Exec_runs Exec_only_db)

lemma quiet_then: "effect S w1 w2 \<Longrightarrow> quiet w w1 \<Longrightarrow> effect S w w2"
  using quiet_effect effect_trans by blast

lemma then_quiet: "quiet w1 w2 \<Longrightarrow> effect S w w1 \<Longrightarrow> effect S w w2"
  using quiet_effect effect_trans by blast

lemma effect_invariant:
  assumes "effect S w w'" and "P (db w)" and "\<And>s d n d'. s \<in> S \<Longrightarrow> P d \<Longrightarrow> s d = Inr (n, d') \<Longrightarrow> P d'"
  shows "P (db w')"
  using assms(1) runs_invariant [of S "db w" "db w'" P, OF _ assms(2,3)] by (simp add: effect_def)

lemma effect_keeps:
  assumes "effect S w w'" and "\<And>s d n d'. s \<in> S \<Longrightarrow> s d = Inr (n, d') \<Longrightarrow> f d' = f d"
  shows "f (db w') = f (db w)"
  using assms(1) runs_keeps [of S "db w" "db w'" f, OF _ assms(2)] by (simp add: effect_def)

lemma Inr_result: "\<not> isl (fst p) \<Longrightarrow> \<exists>x w. p = (Inr x, w)"
  by (cases p; cases "fst p") auto

end
