(* ===== verification/TestEnv.thy ===== *)
theory TestEnv
  imports Store
begin

text \<open>
  A concrete environment, at which the hypotheses on the parameters are seen to hold together: the
  witnesses of the properties run the model in it.  The database and the services answer, the clock
  advances by a second per interaction, identifiers are numbers padded to the length of a UUID.
  Redis replays its log.
\<close>

section \<open>A reference Redis\<close>

record redis_state =
  rs_val :: "(string \<times> (string \<times> time option)) list"
  rs_zset :: "(string \<times> (string \<times> int) list) list"

definition live :: "time \<Rightarrow> redis_state \<Rightarrow> string \<Rightarrow> string option" where
  "live now s k =
     (case map_of (rs_val s) k of
        None \<Rightarrow> None
      | Some (v, None) \<Rightarrow> Some v
      | Some (v, Some dl) \<Rightarrow> if now < dl then Some v else None)"

definition set_val :: "string \<Rightarrow> string \<Rightarrow> time option \<Rightarrow> redis_state \<Rightarrow> redis_state" where
  "set_val k v dl s = s\<lparr>rs_val := (k, v, dl) # filter (\<lambda>x. fst x \<noteq> k) (rs_val s)\<rparr>"

definition counter :: "time \<Rightarrow> redis_state \<Rightarrow> string \<Rightarrow> int" where
  "counter now s k = (case live now s k of None \<Rightarrow> 0 | Some v \<Rightarrow> ParseInt_value v)"

definition zget :: "redis_state \<Rightarrow> string \<Rightarrow> (string \<times> int) list" where
  "zget s k = (case map_of (rs_zset s) k of None \<Rightarrow> [] | Some z \<Rightarrow> z)"

definition zput :: "string \<Rightarrow> (string \<times> int) list \<Rightarrow> redis_state \<Rightarrow> redis_state" where
  "zput k z s = s\<lparr>rs_zset := (k, z) # filter (\<lambda>x. fst x \<noteq> k) (rs_zset s)\<rparr>"

definition zincr :: "string \<Rightarrow> int \<Rightarrow> (string \<times> int) list \<Rightarrow> (string \<times> int) list" where
  "zincr m by z = (m, (case map_of z m of None \<Rightarrow> 0 | Some n \<Rightarrow> n) + by) # filter (\<lambda>x. fst x \<noteq> m) z"

definition zunion :: "(string \<times> int) list list \<Rightarrow> (string \<times> int) list" where
  "zunion zs = fold (\<lambda>(m, n). zincr m n) (concat zs) []"

definition zrev :: "(string \<times> int) list \<Rightarrow> string list" where
  "zrev z = map fst (sort_key (\<lambda>x. - snd x) z)"

text \<open>One command: the reply and the new state.\<close>

definition redis_exec :: "time \<Rightarrow> redis_cmd \<Rightarrow> redis_state \<Rightarrow> redis_reply \<times> redis_state" where
  "redis_exec now c s =
     (case c of
        SetNX k v ttl \<Rightarrow>
          (case live now s k of
             Some _ \<Rightarrow> (RBool False, s)
           | None \<Rightarrow> (RBool True, set_val k v (Some (now + ttl)) s))
      | Get k \<Rightarrow> (case live now s k of None \<Rightarrow> RNil | Some v \<Rightarrow> RStr v, s)
      | Incr k \<Rightarrow> let n = counter now s k + 1 in (RInt n, set_val k (itoa n) None s)
      | Decr k \<Rightarrow> let n = counter now s k - 1 in (RInt n, set_val k (itoa n) None s)
      | DecrBy k x \<Rightarrow> let n = counter now s k - x in (RInt n, set_val k (itoa n) None s)
      | ZIncrBy_Expire k m _ \<Rightarrow> (ROk, zput k (zincr m 1 (zget s k)) s)
      | ZUnionStore dst ks \<Rightarrow> (ROk, zput dst (zunion (map (zget s) ks)) s)
      | ZRevRange k a b \<Rightarrow> (RList (take (nat (b - a + 1)) (drop (nat a) (zrev (zget s k)))), s)
      | Del k \<Rightarrow> (ROk, s\<lparr>rs_val := filter (\<lambda>x. fst x \<noteq> k) (rs_val s),
                      rs_zset := filter (\<lambda>x. fst x \<noteq> k) (rs_zset s)\<rparr>)
      | Scan _ p _ \<Rightarrow> (RScan (map fst (rs_val s)) 0, s))"

definition redis_replay :: "redis_log \<Rightarrow> redis_state" where
  "redis_replay lg = fold (\<lambda>(t, c) s. snd (redis_exec t c s)) lg \<lparr>rs_val = [], rs_zset = []\<rparr>"

definition redis_ref :: "redis_log \<Rightarrow> time \<Rightarrow> redis_cmd \<Rightarrow> redis_reply" where
  "redis_ref lg now c = fst (redis_exec now c (redis_replay lg))"

section \<open>The environment\<close>

definition test_uuid :: "nat \<Rightarrow> string" where
  "test_uuid n = pad_to 36 (nat_digits n)"

definition test_env :: env where
  "test_env = \<lparr>
     pg_fail = \<lambda>_. None,
     pg_cut = \<lambda>_. None,
     clock = \<lambda>n. 1000000 * int n,
     uuid = test_uuid,
     uuid_norm = Some,
     ilike = \<lambda>s p. Contains s (filter (\<lambda>c. c \<noteq> CHR ''%'') p),
     local_off = 0,
     has_redis = True,
     redis = redis_ref,
     fp_hash = \<lambda>s. s,
     bcrypt_hash = \<lambda>_ p. Inr (CHR ''h'' # p),
     bcrypt_ok = \<lambda>h p. h = CHR ''h'' # p,
     jwt_secret = ''secret'',
     jwt_ttl = 3600000000,
     jwt_sign = \<lambda>sec sub expiry. Inr (CHR ''t'' # sub),
     jwt_is_hmac = \<lambda>t. if t = [] then None else Some True,
     jwt_subject = \<lambda>now sec t. Inr (Some (tl t)),
     has_viewRepo = True, has_likeRepo = True, has_savedRepo = True, has_followRepo = True,
     has_commentLikeRepo = True, has_postLikeRepo = True, has_notifUc = True, has_notifHub = True,
     has_chatHub = True,
     has_nats = True,
     nats_publish = \<lambda>_. None,
     has_minio = True,
     minio_upload = \<lambda>_. None,
     file_stat = \<lambda>_ _. None,
     has_srs = True,
     srs_streams = \<lambda>_. Inr [],
     dvr_dir = ''/dvr'',
     grace = 30000000,
     fparse = \<lambda>s. map_option of_nat (digits_value 0 s),
     fadd = (+),
     fof_int = of_int\<rparr>"

lemma test_env_healthy [simp]: "healthy test_env"
  by (simp add: healthy_def test_env_def)

end
