(* ===== verification/Tables.thy ===== *)
theory Tables
  imports TestEnv
begin

text \<open>
  What the repositories promise about a table with a key, as locales: an insertion adds one row
  under a fresh key, an update changes the row of one key, a deletion removes it.  The abstract
  view of such a table is a finite map, and the three statements act on it as the three map
  operations.  The components interpret the locales on their own statements.
\<close>

definition row_at :: "('row \<Rightarrow> 'k) \<Rightarrow> 'k \<Rightarrow> 'row list \<Rightarrow> 'row option" where
  "row_at key k rows = find (\<lambda>r. key r = k) rows"

lemma row_at_simps [simp]:
  "row_at key k [] = None"
  "row_at key k (r # rs) = (if key r = k then Some r else row_at key k rs)"
  by (simp_all add: row_at_def)

lemma row_at_None: "row_at key k rows = None \<longleftrightarrow> k \<notin> key ` set rows"
  by (auto simp: row_at_def find_None_iff)

lemma row_at_Some: "row_at key k rows = Some r \<Longrightarrow> r \<in> set rows \<and> key r = k"
  by (auto simp: row_at_def dest: find_Some_in)

lemma row_at_unique:
  "distinct (map key rows) \<Longrightarrow> r \<in> set rows \<Longrightarrow> row_at key (key r) rows = Some r"
  by (induction rows) (auto simp: row_at_def)

lemma row_at_append: "row_at key k (rows @ [r]) =
    (case row_at key k rows of None \<Rightarrow> if key r = k then Some r else None | Some x \<Rightarrow> Some x)"
  by (simp add: row_at_def find_append split: option.splits)

lemma row_at_update:
  assumes "\<And>r. p r \<Longrightarrow> key (f r) = key r"
  shows "row_at key k (sql_update p f rows) =
     (case row_at key k rows of None \<Rightarrow> None | Some r \<Rightarrow> Some (if p r then f r else r))"
  using assms by (induction rows) (auto simp: sql_update_def split: option.splits)

lemma row_at_delete_key:
  "row_at key k (sql_delete (\<lambda>r. key r = k') rows) = (if k = k' then None else row_at key k rows)"
  by (induction rows) (auto simp: sql_delete_def row_at_def)

lemma distinct_key_eq:
  "distinct (map key rows) \<Longrightarrow> x \<in> set rows \<Longrightarrow> y \<in> set rows \<Longrightarrow> key x = key y \<Longrightarrow> x = y"
  by (auto simp: distinct_map dest: inj_onD)

lemma sql_update_none: "k \<notin> key ` set rows \<Longrightarrow> sql_update (\<lambda>y. key y = k) f rows = rows"
  unfolding sql_update_def by (intro map_idI) auto

text \<open>A unique column after one row took a value that no other row has.\<close>

lemma distinct_map_update_one:
  assumes "distinct (map key rows)" "distinct (map g rows)" "\<And>x. g (f x) = v"
    and "\<And>y. y \<in> set rows \<Longrightarrow> key y \<noteq> k \<Longrightarrow> g y \<noteq> v"
  shows "distinct (map g (sql_update (\<lambda>y. key y = k) f rows))"
proof -
  let ?h = "\<lambda>r. if key r = k then f r else r"
  have "inj_on (g \<circ> ?h) (set rows)"
  proof (rule inj_onI)
    fix x y
    assume xy: "x \<in> set rows" "y \<in> set rows" "(g \<circ> ?h) x = (g \<circ> ?h) y"
    then have "(key x = k) = (key y = k)" using assms(3,4) by (auto split: if_splits)
    then show "x = y"
      using xy distinct_key_eq [OF assms(1)] distinct_key_eq [OF assms(2)] by (auto split: if_splits)
  qed
  moreover have "distinct rows" using assms(1) by (simp add: distinct_map)
  ultimately show ?thesis by (simp add: sql_update_def distinct_map)
qed

locale keyed_table =
  fixes rows :: "db \<Rightarrow> 'row list"
    and key :: "'row \<Rightarrow> 'k"
    and stored :: "'row \<Rightarrow> 'row"
    and ins :: "'row \<Rightarrow> stmt"
  assumes ins_rows: "ins r d = Inr (n, d') \<Longrightarrow> n = 1 \<and> rows d' = rows d @ [stored r]"
    and ins_fresh: "ins r d = Inr (n, d') \<Longrightarrow> key (stored r) \<notin> key ` set (rows d)"
begin

lemma ins_distinct: "ins r d = Inr (n, d') \<Longrightarrow> distinct (map key (rows d)) \<Longrightarrow> distinct (map key (rows d'))"
  using ins_rows ins_fresh by fastforce

lemma row_at_ins:
  "ins r d = Inr (n, d') \<Longrightarrow>
   row_at key k (rows d') = (if k = key (stored r) then Some (stored r) else row_at key k (rows d))"
proof -
  assume i: "ins r d = Inr (n, d')"
  have "row_at key (key (stored r)) (rows d) = None" using ins_fresh [OF i] by (simp add: row_at_None)
  then show ?thesis using ins_rows [OF i] by (auto simp: row_at_append split: option.splits)
qed

end

locale updatable_table = keyed_table +
  fixes merge :: "'row \<Rightarrow> 'row \<Rightarrow> 'row"
    and upd :: "'row \<Rightarrow> stmt"
  assumes merge_key: "key (merge r x) = key x"
    and upd_rows: "upd r d = Inr (n, d') \<Longrightarrow> rows d' = sql_update (\<lambda>x. key x = key (stored r)) (merge r) (rows d)"
begin

lemma upd_distinct: "upd r d = Inr (n, d') \<Longrightarrow> distinct (map key (rows d)) \<Longrightarrow> distinct (map key (rows d'))"
  using upd_rows merge_key by (simp add: map_key_sql_update)

lemma row_at_upd:
  "upd r d = Inr (n, d') \<Longrightarrow>
   row_at key k (rows d') =
     (if k = key (stored r) then map_option (merge r) (row_at key k (rows d)) else row_at key k (rows d))"
  by (auto simp: upd_rows merge_key row_at_update split: option.splits dest: row_at_Some)

end

locale deletable_table = keyed_table +
  fixes del :: "'k \<Rightarrow> stmt"
  assumes del_rows: "del k d = Inr (n, d') \<Longrightarrow> rows d' = sql_delete (\<lambda>x. key x = k) (rows d)"
begin

lemma del_distinct: "del k d = Inr (n, d') \<Longrightarrow> distinct (map key (rows d)) \<Longrightarrow> distinct (map key (rows d'))"
  by (simp add: del_rows distinct_map_delete)

lemma row_at_del:
  "del k' d = Inr (n, d') \<Longrightarrow> row_at key k (rows d') = (if k = k' then None else row_at key k (rows d))"
  by (simp add: del_rows row_at_delete_key)

end

end
