(* ===== verification/Users.thy ===== *)
theory Users
  imports Tables
begin

text \<open>
  Accounts: the user repository (\<^verbatim>\<open>internal/repo/persistent/user\<close>), the token manager
  (\<^verbatim>\<open>pkg/jwt\<close>), the user use case (\<^verbatim>\<open>internal/usecase/user\<close>) and the user mapper.
  The tracing decorators around repository and use case add spans and change no result.
\<close>

section \<open>Table users\<close>

text \<open>
  The identifier is a \<^verbatim>\<open>UUID\<close> column: the driver parses the argument (\<^verbatim>\<open>uuid_norm\<close>), and a
  string that is no UUID fails the statement.
\<close>

definition canon_id :: "env \<Rightarrow> string \<Rightarrow> string" where
  "canon_id E s = (case uuid_norm E s of Some i \<Rightarrow> i | None \<Rightarrow> s)"

definition users_varchar :: "User \<Rightarrow> bool" where
  "users_varchar u \<longleftrightarrow> varchar_ok [(255, u_Username u), (255, u_Email u), (255, u_PasswordHash u),
     (20, u_Role u), (512, u_Avatar u)]"

definition user_clash :: "User \<Rightarrow> User \<Rightarrow> bool" where
  "user_clash u x \<longleftrightarrow> u_ID x = u_ID u \<or> u_Username x = u_Username u \<or> u_Email x = u_Email u"

text \<open>The columns the insertion leaves out take their defaults.\<close>

definition user_stored :: "env \<Rightarrow> User \<Rightarrow> User" where
  "user_stored E u = u\<lparr>u_ID := canon_id E (u_ID u), u_Avatar := [], u_IsBanned := False\<rparr>"

definition insert_user :: "env \<Rightarrow> User \<Rightarrow> stmt" where
  "insert_user E u d =
     (let x = user_stored E u in
      check (uuid_norm E (u_ID u) \<noteq> None) ''22P02''
       (check (users_varchar x) ''22001''
         (check (u_Role x \<in> {UserRoleUser, UserRoleAdmin}) ''23514''
           (check (\<not> list_ex (user_clash x) (users d)) ''23505''
             (Inr (1, d\<lparr>users := users d @ [x]\<rparr>))))))"

definition user_merge :: "User \<Rightarrow> User \<Rightarrow> User" where
  "user_merge u x = x\<lparr>u_Username := u_Username u, u_Email := u_Email u, u_Avatar := u_Avatar u,
     u_IsBanned := u_IsBanned u, u_UpdatedAt := u_UpdatedAt u\<rparr>"

definition update_user :: "env \<Rightarrow> User \<Rightarrow> stmt" where
  "update_user E u d =
     check (uuid_norm E (u_ID u) \<noteq> None) ''22P02''
      (case row_at u_ID (canon_id E (u_ID u)) (users d) of
         None \<Rightarrow> Inr (0, d)
       | Some x \<Rightarrow>
           check (users_varchar (user_merge u x)) ''22001''
            (check (\<not> list_ex (\<lambda>y. u_ID y \<noteq> u_ID x \<and> (u_Username y = u_Username u \<or> u_Email y = u_Email u)) (users d))
              ''23505''
              (Inr (1, d\<lparr>users := sql_update (\<lambda>y. u_ID y = canon_id E (u_ID u)) (user_merge u) (users d)\<rparr>))))"

text \<open>The constraints of the table as an invariant of the database.\<close>

definition users_ok :: "env \<Rightarrow> db \<Rightarrow> bool" where
  "users_ok E d \<longleftrightarrow>
     distinct (map u_ID (users d)) \<and> distinct (map u_Username (users d)) \<and> distinct (map u_Email (users d)) \<and>
     (\<forall>u \<in> set (users d). uuid_norm E (u_ID u) = Some (u_ID u) \<and> users_varchar u \<and>
        u_Role u \<in> {UserRoleUser, UserRoleAdmin})"

text \<open>What the code relies on of the UUID type: a parsed value is canonical, and so is a new one.\<close>

definition uuid_laws :: "env \<Rightarrow> bool" where
  "uuid_laws E \<longleftrightarrow>
     (\<forall>s i. uuid_norm E s = Some i \<longrightarrow> uuid_norm E i = Some i) \<and> (\<forall>n. uuid_norm E (uuid E n) = Some (uuid E n))"

text \<open>What it relies on of bcrypt and of the JWT library: a hash verifies the password it was made
  from, and a signed token yields its subject until the second in which it expires.\<close>

definition bcrypt_laws :: "env \<Rightarrow> bool" where
  "bcrypt_laws E \<longleftrightarrow> (\<forall>n p h. bcrypt_hash E n p = Inr h \<longrightarrow> bcrypt_ok E h p)"

definition jwt_laws :: "env \<Rightarrow> bool" where
  "jwt_laws E \<longleftrightarrow> (\<forall>sub expiry. \<exists>t. jwt_sign E (jwt_secret E) sub expiry = Inr t \<and> jwt_is_hmac E t = Some True \<and>
     (\<forall>now. now < expiry - 1000000 \<longrightarrow> jwt_subject E now (jwt_secret E) t = Inr (Some sub)))"

lemma insert_user_Inr:
  "insert_user E u d = Inr (n, d') \<longleftrightarrow>
     uuid_norm E (u_ID u) \<noteq> None \<and> users_varchar (user_stored E u) \<and> u_Role u \<in> {UserRoleUser, UserRoleAdmin} \<and>
     \<not> list_ex (user_clash (user_stored E u)) (users d) \<and>
     n = 1 \<and> d' = d\<lparr>users := users d @ [user_stored E u]\<rparr>"
  by (auto simp: insert_user_def Let_def user_stored_def)

lemma update_user_Inr:
  assumes "update_user E u d = Inr (n, d')"
  shows "users d' = sql_update (\<lambda>y. u_ID y = canon_id E (u_ID u)) (user_merge u) (users d)"
    and "d' = d\<lparr>users := users d'\<rparr>"
proof -
  have "sql_update (\<lambda>y. u_ID y = canon_id E (u_ID u)) (user_merge u) (users d) = users d"
    if "row_at u_ID (canon_id E (u_ID u)) (users d) = None"
    using that by (simp add: sql_update_none row_at_None)
  with assms show "users d' = sql_update (\<lambda>y. u_ID y = canon_id E (u_ID u)) (user_merge u) (users d)"
    and "d' = d\<lparr>users := users d'\<rparr>"
    by (auto simp: update_user_def split: option.splits)
qed

lemma user_merge_simps [simp]:
  "u_ID (user_merge u x) = u_ID x" "u_Username (user_merge u x) = u_Username u"
  "u_Email (user_merge u x) = u_Email u" "u_Role (user_merge u x) = u_Role x"
  "u_PasswordHash (user_merge u x) = u_PasswordHash x" "u_IsBanned (user_merge u x) = u_IsBanned u"
  by (simp_all add: user_merge_def)

interpretation user_table: updatable_table users u_ID "user_stored E" "insert_user E" user_merge "update_user E" for E
proof unfold_locales
  fix r d n d'
  assume i: "insert_user E r d = Inr (n, d')"
  then show "n = 1 \<and> users d' = users d @ [user_stored E r]" by (simp add: insert_user_Inr)
  show "u_ID (user_stored E r) \<notin> u_ID ` set (users d)"
    using i by (auto simp: insert_user_Inr list_ex_iff user_clash_def)
next
  fix r d n d'
  assume "update_user E r d = Inr (n, d')"
  then show "users d' = sql_update (\<lambda>x. u_ID x = u_ID (user_stored E r)) (user_merge r) (users d)"
    using update_user_Inr(1) by (simp add: user_stored_def)
qed simp

lemma insert_user_ok:
  assumes "uuid_laws E" "users_ok E d" "insert_user E u d = Inr (n, d')"
  shows "users_ok E d'"
proof -
  obtain i where i: "uuid_norm E (u_ID u) = Some i" using assms(3) by (auto simp: insert_user_Inr)
  then have "uuid_norm E i = Some i" using assms(1) by (auto simp: uuid_laws_def)
  then show ?thesis
    using assms(2,3) i
    by (auto simp: users_ok_def insert_user_Inr list_ex_iff user_clash_def user_stored_def canon_id_def users_varchar_def)
qed

lemma update_user_ok:
  assumes ok: "users_ok E d" and u: "update_user E u d = Inr (n, d')"
  shows "users_ok E d'"
proof (cases "row_at u_ID (canon_id E (u_ID u)) (users d)")
  case None
  then show ?thesis using u ok by (simp add: update_user_def)
next
  case (Some x)
  then have x: "x \<in> set (users d)" "u_ID x = canon_id E (u_ID u)" by (auto dest: row_at_Some)
  from u Some have c: "users_varchar (user_merge u x)"
    "\<And>y. y \<in> set (users d) \<Longrightarrow> u_ID y \<noteq> u_ID x \<Longrightarrow> u_Username y \<noteq> u_Username u \<and> u_Email y \<noteq> u_Email u"
    by (auto simp: update_user_def list_ex_iff)
  note d' = update_user_Inr(1) [OF u]
  have one: "y = x" if "y \<in> set (users d)" "u_ID y = u_ID x" for y
    using distinct_key_eq [of u_ID "users d" y x] that x(1) ok by (simp add: users_ok_def)
  have "distinct (map u_ID (users d'))" using ok by (simp add: d' users_ok_def map_key_sql_update)
  moreover have "distinct (map u_Username (users d'))"
    unfolding d' using ok c(2) x(2)
    by (intro distinct_map_update_one [where v = "u_Username u"]) (auto simp: users_ok_def)
  moreover have "distinct (map u_Email (users d'))"
    unfolding d' using ok c(2) x(2)
    by (intro distinct_map_update_one [where v = "u_Email u"]) (auto simp: users_ok_def)
  moreover have "uuid_norm E (u_ID y) = Some (u_ID y) \<and> users_varchar y \<and> u_Role y \<in> {UserRoleUser, UserRoleAdmin}"
    if y: "y \<in> set (users d')" for y
  proof -
    from y obtain z where z: "z \<in> set (users d)"
      "y = (if u_ID z = canon_id E (u_ID u) then user_merge u z else z)"
      unfolding d' set_sql_update by blast
    have zok: "uuid_norm E (u_ID z) = Some (u_ID z)" "users_varchar z" "u_Role z \<in> {UserRoleUser, UserRoleAdmin}"
      using ok z(1) by (simp_all add: users_ok_def)
    show ?thesis
    proof (cases "u_ID z = u_ID x")
      case True
      then show ?thesis using one [OF z(1) True] z(2) x(2) c(1) zok by simp
    next
      case False
      then show ?thesis using z(2) x(2) zok by simp
    qed
  qed
  ultimately show ?thesis by (simp add: users_ok_def)
qed

definition user_stmts :: "env \<Rightarrow> stmt set" where
  "user_stmts E = range (insert_user E) \<union> range (update_user E)"

lemma user_stmtsI [simp, intro]: "insert_user E u \<in> user_stmts E" "update_user E u \<in> user_stmts E"
  by (simp_all add: user_stmts_def)

lemma user_stmts_ok:
  "uuid_laws E \<Longrightarrow> s \<in> user_stmts E \<Longrightarrow> users_ok E d \<Longrightarrow> s d = Inr (n, d') \<Longrightarrow> users_ok E d'"
  by (auto simp: user_stmts_def dest: insert_user_ok update_user_ok)

lemma user_stmts_frame: "s \<in> user_stmts E \<Longrightarrow> s d = Inr (n, d') \<Longrightarrow> d' = d\<lparr>users := users d'\<rparr>"
  by (auto simp: user_stmts_def insert_user_Inr dest: update_user_Inr(2))

section \<open>Repository\<close>

definition UserRepo_Store :: "env \<Rightarrow> User \<Rightarrow> world \<Rightarrow> unit res \<times> world" where
  "UserRepo_Store E user w =
     (case Exec E (insert_user E user) w of
        (Inl err, w) \<Rightarrow>
          if err = PgError ''23505'' then (Inl ErrUserAlreadyExists, w)
          else (Inl (Errorf ''UserRepo - Store - r.Pool.Exec'' err), w)
      | (Inr _, w) \<Rightarrow> (Inr (), w))"

datatype user_column = Col_id | Col_email | Col_username

text \<open>\<^verbatim>\<open>SELECT ... FROM users WHERE column = value\<close>\<close>

definition select_user :: "env \<Rightarrow> user_column \<Rightarrow> string \<Rightarrow> db \<Rightarrow> User option res" where
  "select_user E column val d =
     (case column of
        Col_id \<Rightarrow> (case uuid_norm E val of
                    None \<Rightarrow> Inl (PgError ''22P02'')
                  | Some i \<Rightarrow> Inr (row_at u_ID i (users d)))
      | Col_email \<Rightarrow> Inr (row_at u_Email val (users d))
      | Col_username \<Rightarrow> Inr (row_at u_Username val (users d)))"

definition UserRepo_getUser :: "env \<Rightarrow> user_column \<Rightarrow> string \<Rightarrow> world \<Rightarrow> User res \<times> world" where
  "UserRepo_getUser E column val w =
     (case QueryRow E (select_user E column val) w of
        (Inl err, w) \<Rightarrow>
          if errors_Is err ErrNoRows then (Inl ErrUserNotFound, w)
          else (Inl (Errorf ''UserRepo - getUser - r.Pool.QueryRow'' err), w)
      | (Inr user, w) \<Rightarrow> (Inr user, w))"

definition UserRepo_GetByID :: "env \<Rightarrow> string \<Rightarrow> world \<Rightarrow> User res \<times> world" where
  "UserRepo_GetByID E i = UserRepo_getUser E Col_id i"

definition UserRepo_GetByEmail :: "env \<Rightarrow> string \<Rightarrow> world \<Rightarrow> User res \<times> world" where
  "UserRepo_GetByEmail E email = UserRepo_getUser E Col_email email"

definition UserRepo_GetByUsername :: "env \<Rightarrow> string \<Rightarrow> world \<Rightarrow> User res \<times> world" where
  "UserRepo_GetByUsername E username = UserRepo_getUser E Col_username username"

definition UserRepo_List :: "env \<Rightarrow> int \<Rightarrow> int \<Rightarrow> world \<Rightarrow> (User list \<times> int) res \<times> world" where
  "UserRepo_List E page0 limit0 w =
     (let page = (if page0 < 1 then 1 else page0);
          limit = (if limit0 < 1 then 10 else limit0);
          offset = page_offset page limit
      in case QueryRow E (\<lambda>d. Inr (Some (sql_count (\<lambda>_. True) (users d)))) w of
           (Inl err, w) \<Rightarrow> (Inl (Errorf ''UserRepo - List - count query'' err), w)
         | (Inr n, w) \<Rightarrow>
             (case Query E (\<lambda>d. sql_page (to_uint64 limit) (to_uint64 offset) (order_desc u_CreatedAt (users d))) w of
                (Inl err, w) \<Rightarrow> (Inl (Errorf ''UserRepo - List - r.Pool.Query'' err), w)
              | (Inr us, w) \<Rightarrow> (Inr (us, n), w)))"

definition UserRepo_Update :: "env \<Rightarrow> User \<Rightarrow> world \<Rightarrow> unit res \<times> world" where
  "UserRepo_Update E user w =
     (case Exec E (update_user E user) w of
        (Inl err, w) \<Rightarrow> (Inl (Errorf ''UserRepo - Update - r.Pool.Exec'' err), w)
      | (Inr _, w) \<Rightarrow> (Inr (), w))"

section \<open>Token manager\<close>

definition GenerateToken :: "env \<Rightarrow> string \<Rightarrow> world \<Rightarrow> string res \<times> world" where
  "GenerateToken E userID w =
     (case Now E w of (now, w) \<Rightarrow>
        case jwt_sign E (jwt_secret E) userID (now + jwt_ttl E) of
          Inl err \<Rightarrow> (Inl (Errorf ''jwt - GenerateToken - token.SignedString'' err), w)
        | Inr tokenString \<Rightarrow> (Inr tokenString, w))"

text \<open>
  \<^verbatim>\<open>jwtlib.Parse\<close> decodes the header (\<^verbatim>\<open>jwt_is_hmac\<close>: \<^const>\<open>None\<close> when it is malformed), asks the
  key function, and verifies signature and claims with the key it returns (\<^verbatim>\<open>jwt_subject\<close>: the
  subject claim, \<^const>\<open>None\<close> when it is not a string).
\<close>

definition ParseToken :: "env \<Rightarrow> string \<Rightarrow> world \<Rightarrow> string res \<times> world" where
  "ParseToken E tokenString w =
     (case Now E w of (now, w) \<Rightarrow>
        (case (case jwt_is_hmac E tokenString of
                 None \<Rightarrow> Inl (ExtErr ''token is malformed'')
               | Some False \<Rightarrow> Inl (NewErr ''unexpected signing method'')
               | Some True \<Rightarrow> jwt_subject E now (jwt_secret E) tokenString) of
           Inl err \<Rightarrow> (Inl (Errorf ''jwt - ParseToken - jwtlib.Parse'' err), w)
         | Inr None \<Rightarrow> (Inl (Errorf ''jwt - ParseToken - GetSubject'' (ExtErr ''sub is invalid'')), w)
         | Inr (Some sub) \<Rightarrow> (Inr sub, w)))"

section \<open>Use case\<close>

definition User_Register :: "env \<Rightarrow> string \<Rightarrow> string \<Rightarrow> string \<Rightarrow> world \<Rightarrow> User res \<times> world" where
  "User_Register E username email password w =
     (case bcrypt_hash E (tick w) password of
        Inl err \<Rightarrow> (Inl (Errorf ''UserUseCase - Register - bcrypt.GenerateFromPassword'' err), bump w)
      | Inr hash \<Rightarrow>
          (case Now E (bump w) of (now, w) \<Rightarrow>
           case NewUUID E w of (i, w) \<Rightarrow>
             let user = \<lparr>u_ID = i, u_Username = username, u_Email = email, u_Avatar = [],
                         u_PasswordHash = hash, u_Role = UserRoleUser, u_IsBanned = False,
                         u_CreatedAt = now, u_UpdatedAt = now\<rparr>
             in case UserRepo_Store E user w of
                  (Inl err, w) \<Rightarrow> (Inl (Errorf ''UserUseCase - Register - uc.repo.Store'' err), w)
                | (Inr _, w) \<Rightarrow> (Inr user, w)))"

definition User_Login :: "env \<Rightarrow> string \<Rightarrow> string \<Rightarrow> world \<Rightarrow> string res \<times> world" where
  "User_Login E email password w =
     (case UserRepo_GetByEmail E email w of
        (Inl _, w) \<Rightarrow> (Inl ErrInvalidCredentials, w)
      | (Inr user, w) \<Rightarrow>
          if \<not> bcrypt_ok E (u_PasswordHash user) password then (Inl ErrInvalidCredentials, w)
          else if u_IsBanned user then (Inl ErrUserBanned, w)
          else (case GenerateToken E (u_ID user) w of
                  (Inl err, w) \<Rightarrow> (Inl (Errorf ''UserUseCase - Login - uc.jwt.GenerateToken'' err), w)
                | (Inr token, w) \<Rightarrow> (Inr token, w)))"

definition User_GetUser :: "env \<Rightarrow> string \<Rightarrow> world \<Rightarrow> User res \<times> world" where
  "User_GetUser E userID w =
     (case UserRepo_GetByID E userID w of
        (Inr user, w) \<Rightarrow> (Inr user, w)
      | (Inl err, w) \<Rightarrow>
          (case UserRepo_GetByUsername E userID w of
             (Inr userByUsername, w) \<Rightarrow> (Inr userByUsername, w)
           | (Inl _, w) \<Rightarrow> (Inl (Errorf ''UserUseCase - GetUser'' err), w)))"

definition User_UpdateUser :: "env \<Rightarrow> string \<Rightarrow> string \<Rightarrow> string \<Rightarrow> string \<Rightarrow> world \<Rightarrow> User res \<times> world" where
  "User_UpdateUser E userID username email avatar w =
     (case UserRepo_GetByID E userID w of
        (Inl err, w) \<Rightarrow> (Inl (Errorf ''UserUseCase - UpdateUser - uc.repo.GetByID'' err), w)
      | (Inr user, w) \<Rightarrow>
          let user = (if username \<noteq> [] then user\<lparr>u_Username := username\<rparr> else user);
              user = (if email \<noteq> [] then user\<lparr>u_Email := email\<rparr> else user);
              user = (if avatar \<noteq> [] then user\<lparr>u_Avatar := avatar\<rparr> else user)
          in case Now E w of (now, w) \<Rightarrow>
             let user = user\<lparr>u_UpdatedAt := now\<rparr>
             in case UserRepo_Update E user w of
                  (Inl err, w) \<Rightarrow> (Inl (Errorf ''UserUseCase - UpdateUser - uc.repo.Update'' err), w)
                | (Inr _, w) \<Rightarrow> (Inr user, w))"

definition User_RefreshToken :: "env \<Rightarrow> string \<Rightarrow> world \<Rightarrow> string res \<times> world" where
  "User_RefreshToken E refreshToken w =
     (case ParseToken E refreshToken w of
        (Inl _, w) \<Rightarrow> (Inl ErrInvalidCredentials, w)
      | (Inr userID, w) \<Rightarrow>
          (case UserRepo_GetByID E userID w of
             (Inl _, w) \<Rightarrow> (Inl ErrUserNotFound, w)
           | (Inr user, w) \<Rightarrow>
               if u_IsBanned user then (Inl ErrUserBanned, w)
               else (case GenerateToken E (u_ID user) w of
                       (Inl err, w) \<Rightarrow> (Inl (Errorf ''UserUseCase - RefreshToken - uc.jwt.GenerateToken'' err), w)
                     | (Inr newToken, w) \<Rightarrow> (Inr newToken, w))))"

section \<open>Mapper\<close>

definition ToUserResponse :: "User \<Rightarrow> UserResponse" where
  "ToUserResponse u = \<lparr>ur_ID = u_ID u, ur_Username = u_Username u, ur_Email = u_Email u, ur_Avatar = u_Avatar u,
     ur_Role = u_Role u, ur_IsBanned = u_IsBanned u,
     ur_CreatedAt = format_date (u_CreatedAt u) @ ''T'' @ format_clock (u_CreatedAt u) @ ''Z''\<rparr>"

text \<open>The page responses of all mappers have the same body, at different element types.\<close>

definition page_response :: "'a list \<Rightarrow> int \<Rightarrow> int \<Rightarrow> int \<Rightarrow> 'a PageResponse" where
  "page_response items totalItems page limit =
     \<lparr>Success = True, Data = items,
      Pagination = \<lparr>TotalItems = totalItems, TotalPages = total_pages totalItems limit,
                    CurrentPage = page, Limit = limit\<rparr>\<rparr>"

definition ToUserPageResponse :: "User list \<Rightarrow> int \<Rightarrow> int \<Rightarrow> int \<Rightarrow> UserResponse PageResponse" where
  "ToUserPageResponse us totalItems page limit = page_response (map ToUserResponse us) totalItems page limit"

section \<open>Effects\<close>

lemma Now_quiet: "Now E w = (t, w') \<Longrightarrow> quiet w w'"
  by (auto simp: Now_def)

lemma NewUUID_quiet: "NewUUID E w = (i, w') \<Longrightarrow> quiet w w'"
  by (auto simp: NewUUID_def)

lemma UserRepo_getUser_quiet: "UserRepo_getUser E c v w = (r, w') \<Longrightarrow> quiet w w'"
  by (auto simp: UserRepo_getUser_def split: prod.splits sum.splits if_splits dest!: driver_bump)

lemmas user_read_defs = UserRepo_GetByID_def UserRepo_GetByEmail_def UserRepo_GetByUsername_def

lemma UserRepo_List_quiet: "UserRepo_List E p l w = (r, w') \<Longrightarrow> quiet w w'"
  by (auto simp: UserRepo_List_def Let_def split: prod.splits sum.splits dest!: driver_bump)

lemma GenerateToken_quiet: "GenerateToken E i w = (r, w') \<Longrightarrow> quiet w w'"
  by (auto simp: GenerateToken_def Now_def split: sum.splits)

lemma ParseToken_quiet: "ParseToken E t w = (r, w') \<Longrightarrow> quiet w w'"
  by (auto simp: ParseToken_def Now_def split: sum.splits option.splits bool.splits)

lemma User_Login_quiet: "User_Login E e p w = (r, w') \<Longrightarrow> quiet w w'"
  by (auto simp: User_Login_def user_read_defs split: prod.splits sum.splits if_splits
      dest!: UserRepo_getUser_quiet GenerateToken_quiet intro: quiet_trans)

lemma User_GetUser_quiet: "User_GetUser E i w = (r, w') \<Longrightarrow> quiet w w'"
  by (auto simp: User_GetUser_def user_read_defs split: prod.splits sum.splits
      dest!: UserRepo_getUser_quiet intro: quiet_trans)

lemma User_RefreshToken_quiet: "User_RefreshToken E t w = (r, w') \<Longrightarrow> quiet w w'"
  by (auto simp: User_RefreshToken_def user_read_defs split: prod.splits sum.splits if_splits
      dest!: ParseToken_quiet UserRepo_getUser_quiet GenerateToken_quiet intro: quiet_trans)

lemma UserRepo_Store_runs: "UserRepo_Store E u w = (r, w') \<Longrightarrow> effect (user_stmts E) w w'"
  by (auto simp: UserRepo_Store_def split: prod.splits sum.splits if_splits intro: Exec_effect)

lemma UserRepo_Update_runs: "UserRepo_Update E u w = (r, w') \<Longrightarrow> effect (user_stmts E) w w'"
  by (auto simp: UserRepo_Update_def split: prod.splits sum.splits intro: Exec_effect)

lemma User_Register_runs: "User_Register E u e p w = (r, w') \<Longrightarrow> effect (user_stmts E) w w'"
  by (auto simp: User_Register_def Now_def NewUUID_def Let_def split: prod.splits sum.splits
      dest!: UserRepo_Store_runs)

lemma User_UpdateUser_runs:
  assumes "User_UpdateUser E i un em av w = (r, w')"
  shows "effect (user_stmts E) w w'"
proof (cases "UserRepo_GetByID E i w")
  case (Pair r1 w1)
  then have q: "quiet w w1" by (auto simp: user_read_defs dest: UserRepo_getUser_quiet)
  show ?thesis
  proof (cases r1)
    case (Inl e)
    then show ?thesis using assms Pair q by (auto simp: User_UpdateUser_def quiet_effect)
  next
    case (Inr u)
    then obtain v r2 where "UserRepo_Update E v (bump w1) = (r2, w')"
      using assms Pair by (auto simp: User_UpdateUser_def Let_def Now_def split: prod.splits sum.splits)
    from UserRepo_Update_runs [OF this] q show ?thesis
      by (simp add: quiet_then)
  qed
qed

section \<open>Properties\<close>

lemma test_env_laws: "uuid_laws test_env" "bcrypt_laws test_env" "jwt_laws test_env"
  by (simp_all add: uuid_laws_def bcrypt_laws_def jwt_laws_def test_env_def)

lemma UserRepo_getUser_healthy:
  "healthy E \<Longrightarrow> UserRepo_getUser E c v w =
     (case select_user E c v (db w) of
        Inl e \<Rightarrow> (Inl (if errors_Is e ErrNoRows then ErrUserNotFound else Errorf ''UserRepo - getUser - r.Pool.QueryRow'' e), bump w)
      | Inr None \<Rightarrow> (Inl ErrUserNotFound, bump w)
      | Inr (Some u) \<Rightarrow> (Inr u, bump w))"
  by (simp add: UserRepo_getUser_def QueryRow_healthy split: sum.splits option.splits)

lemma UserRepo_getUser_Inr:
  "UserRepo_getUser E c v w = (Inr u, w') \<Longrightarrow> select_user E c v (db w) = Inr (Some u)"
  by (auto simp: UserRepo_getUser_def split: prod.splits sum.splits if_splits dest: QueryRow_Inr)

lemma UserRepo_Store_healthy:
  "healthy E \<Longrightarrow> UserRepo_Store E u w =
     (case insert_user E u (db w) of
        Inl e \<Rightarrow> (Inl (if e = PgError ''23505'' then ErrUserAlreadyExists else Errorf ''UserRepo - Store - r.Pool.Exec'' e), bump w)
      | Inr (_, d) \<Rightarrow> (Inr (), bump (w\<lparr>db := d\<rparr>)))"
  by (simp add: UserRepo_Store_def Exec_healthy split: sum.splits)

lemma GenerateToken_law:
  assumes "jwt_laws E"
  shows "\<exists>t. GenerateToken E i w = (Inr t, bump w) \<and> jwt_is_hmac E t = Some True \<and>
     (\<forall>now. now < clock E (tick w) + jwt_ttl E - 1000000 \<longrightarrow> jwt_subject E now (jwt_secret E) t = Inr (Some i))"
proof -
  from assms obtain t where t: "jwt_sign E (jwt_secret E) i (clock E (tick w) + jwt_ttl E) = Inr t"
    "jwt_is_hmac E t = Some True"
    "\<forall>now. now < clock E (tick w) + jwt_ttl E - 1000000 \<longrightarrow> jwt_subject E now (jwt_secret E) t = Inr (Some i)"
    unfolding jwt_laws_def by blast
  then show ?thesis by (intro exI [of _ t]) (simp add: GenerateToken_def Now_def)
qed

text \<open>C6: after a successful registration, logging in with the same e-mail and password yields a
  token, and until a second before its expiry the token authenticates exactly the new account.\<close>

theorem register_then_login:
  assumes "healthy E" "uuid_laws E" "bcrypt_laws E" "jwt_laws E"
    and reg: "User_Register E username email password w = (Inr user, w1)"
  shows "\<exists>token w2. User_Login E email password w1 = (Inr token, w2) \<and> db w2 = db w1 \<and>
     (\<forall>w3. clock E (tick w3) < clock E (tick w1 + 1) + jwt_ttl E - 1000000 \<longrightarrow>
        fst (ParseToken E token w3) = Inr (u_ID user))"
proof -
  from reg obtain hash where h: "bcrypt_hash E (tick w) password = Inr hash"
    by (auto simp: User_Register_def split: sum.splits)
  let ?u = "\<lparr>u_ID = uuid E (Suc (Suc (tick w))), u_Username = username, u_Email = email, u_Avatar = [],
     u_PasswordHash = hash, u_Role = UserRoleUser, u_IsBanned = False,
     u_CreatedAt = clock E (Suc (tick w)), u_UpdatedAt = clock E (Suc (tick w))\<rparr>"
  from reg h assms(1) obtain n d where i: "insert_user E ?u (db w) = Inr (n, d)" "user = ?u" "db w1 = d"
    by (auto simp: User_Register_def Now_def NewUUID_def Let_def UserRepo_Store_healthy split: sum.splits)
  have st: "user_stored E ?u = ?u" using assms(2) by (simp add: user_stored_def canon_id_def uuid_laws_def)
  have "row_at u_Email email (users d) = Some ?u"
    using i(1) st by (auto simp: insert_user_Inr row_at_append list_ex_iff user_clash_def
        split: option.splits dest: row_at_Some)
  then have get: "UserRepo_GetByEmail E email w1 = (Inr ?u, bump w1)"
    using i(3) assms(1) by (simp add: user_read_defs UserRepo_getUser_healthy select_user_def)
  from GenerateToken_law [OF assms(4), of "u_ID ?u" "bump w1"] obtain t where
    t: "GenerateToken E (u_ID ?u) (bump w1) = (Inr t, bump (bump w1))" "jwt_is_hmac E t = Some True"
    "\<And>now. now < clock E (tick w1 + 1) + jwt_ttl E - 1000000 \<Longrightarrow>
       jwt_subject E now (jwt_secret E) t = Inr (Some (u_ID ?u))" by auto
  have "bcrypt_ok E hash password" using assms(3) h by (auto simp: bcrypt_laws_def)
  then have "User_Login E email password w1 = (Inr t, bump (bump w1))"
    using get t(1) by (simp add: User_Login_def)
  then show ?thesis using t(2,3) i(2) by (auto simp: ParseToken_def Now_def)
qed

theorem register_then_login_witness:
  "\<exists>user w1. User_Register test_env ''ann'' ''a@x'' ''pw'' init_world = (Inr user, w1) \<and>
     (\<exists>token w2. User_Login test_env ''a@x'' ''pw'' w1 = (Inr token, w2) \<and> db w2 = db w1)"
proof -
  let ?r = "User_Register test_env ''ann'' ''a@x'' ''pw'' init_world"
  have "isl (fst ?r) = False" by code_simp
  then obtain user w1 where r: "?r = (Inr user, w1)" by (cases ?r; cases "fst ?r") auto
  show ?thesis using register_then_login [OF test_env_healthy test_env_laws r] r by blast
qed

text \<open>C34: registering a username or an e-mail that is taken answers ``user already exists'' and
  changes nothing.\<close>

theorem register_taken:
  assumes "healthy E" "uuid_laws E" "x \<in> set (users (db w))" "u_Username x = username \<or> u_Email x = email"
    and "bcrypt_hash E (tick w) password = Inr hash"
    and "varchar_ok [(255, username), (255, email), (255, hash)]"
  shows "\<exists>err w'. User_Register E username email password w = (Inl err, w') \<and>
           errors_Is err ErrUserAlreadyExists \<and> quiet w w'"
proof -
  let ?u = "\<lparr>u_ID = uuid E (Suc (Suc (tick w))), u_Username = username, u_Email = email, u_Avatar = [],
     u_PasswordHash = hash, u_Role = UserRoleUser, u_IsBanned = False,
     u_CreatedAt = clock E (Suc (tick w)), u_UpdatedAt = clock E (Suc (tick w))\<rparr>"
  have st: "user_stored E ?u = ?u" using assms(2) by (simp add: user_stored_def canon_id_def uuid_laws_def)
  have "list_ex (user_clash ?u) (users (db w))" using assms(3,4) by (auto simp: list_ex_iff user_clash_def)
  moreover have "uuid_norm E (u_ID ?u) \<noteq> None" using assms(2) by (simp add: uuid_laws_def)
  moreover have "users_varchar ?u" using assms(6) by (simp add: users_varchar_def varchar_ok_def rune_count_def)
  ultimately have "insert_user E ?u (db w) = Inl (PgError ''23505'')"
    unfolding insert_user_def st Let_def by simp
  then show ?thesis
    using assms(1,5) by (simp add: User_Register_def Now_def NewUUID_def Let_def UserRepo_Store_healthy)
qed

text \<open>The database of the witnesses below: one account, with the password ``pw''.\<close>

definition ann :: User where
  "ann = \<lparr>u_ID = ''u-ann'', u_Username = ''ann'', u_Email = ''a@x'', u_Avatar = [], u_PasswordHash = ''hpw'',
     u_Role = UserRoleUser, u_IsBanned = False, u_CreatedAt = 0, u_UpdatedAt = 0\<rparr>"

definition ann_world :: world where
  "ann_world = init_world\<lparr>db := empty_db\<lparr>users := [ann]\<rparr>\<rparr>"

theorem register_taken_witness:
  "\<exists>err w'. User_Register test_env ''ann'' ''b@x'' ''pw'' ann_world = (Inl err, w') \<and>
     errors_Is err ErrUserAlreadyExists \<and> quiet ann_world w'"
  by (rule register_taken [OF test_env_healthy test_env_laws(1), of ann _ _ _ _ "''hpw''"])
    (simp_all add: ann_world_def ann_def test_env_def varchar_ok_def rune_count_def)

text \<open>C4: whatever fails underneath, a login that answers a token was made with the e-mail and the
  password of an account that is not banned, and a refresh that answers a token was made with a token
  that the key verifies and whose subject is an account that is not banned; neither writes anything.\<close>

theorem tokens_only_for_active_accounts:
  "(\<forall>token w'. User_Login E email password w = (Inr token, w') \<longrightarrow>
      quiet w w' \<and> (\<exists>u \<in> set (users (db w)). u_Email u = email \<and> bcrypt_ok E (u_PasswordHash u) password \<and> \<not> u_IsBanned u)) \<and>
   (\<forall>token w'. User_RefreshToken E refresh w = (Inr token, w') \<longrightarrow>
      quiet w w' \<and> jwt_is_hmac E refresh = Some True \<and>
      (\<exists>sub. jwt_subject E (clock E (tick w)) (jwt_secret E) refresh = Inr (Some sub) \<and>
         (\<exists>u \<in> set (users (db w)). uuid_norm E sub = Some (u_ID u) \<and> \<not> u_IsBanned u)))"
proof (intro conjI allI impI)
  fix token w'
  assume l: "User_Login E email password w = (Inr token, w')"
  then show "quiet w w'" by (rule User_Login_quiet)
  from l obtain u w1 where "UserRepo_getUser E Col_email email w = (Inr u, w1)"
    "bcrypt_ok E (u_PasswordHash u) password" "\<not> u_IsBanned u"
    by (auto simp: User_Login_def user_read_defs split: prod.splits sum.splits if_splits)
  then show "\<exists>u \<in> set (users (db w)). u_Email u = email \<and> bcrypt_ok E (u_PasswordHash u) password \<and> \<not> u_IsBanned u"
    by (auto simp: select_user_def dest!: UserRepo_getUser_Inr row_at_Some)
next
  fix token w'
  assume l: "User_RefreshToken E refresh w = (Inr token, w')"
  then show "quiet w w'" by (rule User_RefreshToken_quiet)
  from l obtain sub w1 u w2 where p: "ParseToken E refresh w = (Inr sub, w1)"
    and g: "UserRepo_getUser E Col_id sub w1 = (Inr u, w2)" and b: "\<not> u_IsBanned u"
    by (auto simp: User_RefreshToken_def user_read_defs split: prod.splits sum.splits if_splits)
  from p show "jwt_is_hmac E refresh = Some True"
    by (auto simp: ParseToken_def Now_def split: sum.splits option.splits bool.splits)
  from p have s: "jwt_subject E (clock E (tick w)) (jwt_secret E) refresh = Inr (Some sub)"
    by (auto simp: ParseToken_def Now_def split: sum.splits option.splits bool.splits)
  have "db w1 = db w" using ParseToken_quiet [OF p] by (simp add: quietD)
  then have "\<exists>u \<in> set (users (db w)). uuid_norm E sub = Some (u_ID u) \<and> \<not> u_IsBanned u"
    using UserRepo_getUser_Inr [OF g] b
    by (auto simp: select_user_def split: option.splits dest: row_at_Some)
  with s show "\<exists>sub. jwt_subject E (clock E (tick w)) (jwt_secret E) refresh = Inr (Some sub) \<and>
         (\<exists>u \<in> set (users (db w)). uuid_norm E sub = Some (u_ID u) \<and> \<not> u_IsBanned u)" by blast
qed

theorem tokens_only_for_active_accounts_witness:
  "\<exists>token w'. User_Login test_env ''a@x'' ''pw'' ann_world = (Inr token, w') \<and>
     (\<exists>u \<in> set (users (db ann_world)). u_Email u = ''a@x'')"
proof -
  have "fst (User_Login test_env ''a@x'' ''pw'' ann_world) = Inr ''tu-ann''" by code_simp
  then obtain w' where l: "User_Login test_env ''a@x'' ''pw'' ann_world = (Inr ''tu-ann'', w')"
    by (cases "User_Login test_env ''a@x'' ''pw'' ann_world") simp
  with tokens_only_for_active_accounts [of test_env "''a@x''" "''pw''" ann_world "''t''"] show ?thesis by blast
qed



end
