(* ===== verification/Paging.thy ===== *)
theory Paging
  imports Users
begin

text \<open>
  The contract of the list endpoints, as a locale: a request for page \<open>k\<close> answers the \<open>k\<close>-th slice
  of one list, with the size of the list and the page count.  The pages from the first to the last
  then are the list, without gap or repetition, and every page behind the last is empty.
\<close>

definition page_meta :: "int \<Rightarrow> int \<Rightarrow> int \<Rightarrow> PaginationMeta" where
  "page_meta n page limit =
     \<lparr>TotalItems = n, TotalPages = total_pages n limit, CurrentPage = page, Limit = limit\<rparr>"

lemma page_response_simps [simp]:
  "Data (page_response xs n page limit) = xs" "Pagination (page_response xs n page limit) = page_meta n page limit"
  "Success (page_response xs n page limit)"
  by (simp_all add: page_response_def page_meta_def)

lemma page_meta_simps [simp]:
  "TotalItems (page_meta n page limit) = n" "TotalPages (page_meta n page limit) = total_pages n limit"
  by (simp_all add: page_meta_def)

text \<open>The conversions of a request within the bounds.\<close>

lemma page_request_small:
  assumes "1 \<le> page" "small_int page" "small_int limit"
  shows "to_uint64 limit = nat limit" "nat limit < 2 ^ 63"
    "to_uint64 (page_offset page limit) = nat ((page - 1) * limit)" "nat ((page - 1) * limit) < 2 ^ 63"
proof -
  note off = page_offset_small [OF assms]
  show "to_uint64 limit = nat limit" "nat limit < 2 ^ 63"
    using assms(3) by (simp_all add: small_int_def to_uint64_nonneg nat_less_iff)
  show "to_uint64 (page_offset page limit) = nat ((page - 1) * limit)" "nat ((page - 1) * limit) < 2 ^ 63"
    using off by (simp_all add: to_uint64_nonneg nat_less_iff)
qed

text \<open>The slice that a repository fetches for a page.\<close>

definition page_of :: "int \<Rightarrow> int \<Rightarrow> 'a list \<Rightarrow> 'a list" where
  "page_of page limit xs = take (nat limit) (drop (nat ((page - 1) * limit)) xs)"

lemma page_of_Nil [simp]: "page_of page limit [] = []"
  by (simp add: page_of_def)

lemma page_of_map: "map f (page_of page limit xs) = page_of page limit (map f xs)"
  by (simp add: page_of_def take_map drop_map)

lemma sql_page_request:
  assumes "1 \<le> page" "small_int page" "small_int limit"
  shows "sql_page (to_uint64 limit) (to_uint64 (page_offset page limit)) rows = Inr (page_of page limit rows)"
  using page_request_small [OF assms] by (simp add: sql_page_def page_of_def)

text \<open>What a listing promises of its pages, with the list it shows.\<close>

definition covers :: "(int \<Rightarrow> 'p res) \<Rightarrow> ('p \<Rightarrow> 'a list) \<Rightarrow> ('p \<Rightarrow> PaginationMeta) \<Rightarrow> int \<Rightarrow> 'a list \<Rightarrow> bool" where
  "covers fetch items meta limit xs \<longleftrightarrow>
     (let n = int (length xs); pages = total_pages n limit in
      n \<le> pages * limit \<and> pages * limit < n + limit \<and>
      (\<forall>k. 1 \<le> k \<and> small_int k \<longrightarrow>
         (\<exists>p. fetch k = Inr p \<and> meta p = page_meta n k limit \<and> (pages < k \<longrightarrow> items p = []))) \<and>
      concat (map (\<lambda>k. case fetch (int k + 1) of Inr p \<Rightarrow> items p | Inl _ \<Rightarrow> []) [0..<nat pages]) = xs)"

locale paged_listing =
  fixes good :: "'q \<Rightarrow> bool"
    and all :: "'q \<Rightarrow> 'a list"
    and fetch :: "'q \<Rightarrow> int \<Rightarrow> int \<Rightarrow> 'p res"
    and items :: "'p \<Rightarrow> 'a list"
    and meta :: "'p \<Rightarrow> PaginationMeta"
  assumes fetch_page: "good q \<Longrightarrow> 1 \<le> page \<Longrightarrow> small_int page \<Longrightarrow> small_int limit \<Longrightarrow>
     \<exists>p. fetch q page limit = Inr p \<and> items p = page_of page limit (all q) \<and>
         meta p = page_meta (int (length (all q))) page limit"
begin

lemma pages_cover_all:
  assumes "good q" "small_int limit" "0 < limit" "small_int (int (length (all q)))"
  shows "covers (\<lambda>k. fetch q k limit) items meta limit (all q)"
proof -
  let ?n = "int (length (all q))"
  let ?pages = "total_pages ?n limit"
  note b = total_pages_bounds [OF assms(4,2,3)]
  have small: "small_int (int k + 1)" if "k < nat ?pages" for k
    using that b(3,4) assms(4) by (auto simp: small_int_def)
  have pg: "(case fetch q (int k + 1) limit of Inr p \<Rightarrow> items p | Inl _ \<Rightarrow> []) = take (nat limit) (drop (k * nat limit) (all q))"
    if "k < nat ?pages" for k
    using fetch_page [OF assms(1) _ small [OF that] assms(2)] page_slice [of "Suc k" limit] assms(3)
    by (auto simp: page_of_def)
  have "concat (map (\<lambda>k. case fetch q (int k + 1) limit of Inr p \<Rightarrow> items p | Inl _ \<Rightarrow> []) [0..<nat ?pages]) =
        concat (map (\<lambda>k. take (nat limit) (drop (k * nat limit) (all q))) [0..<nat ?pages])"
    by (intro arg_cong [where f = concat] map_cong refl pg) simp
  also have "\<dots> = all q" by (rule pages_cover [OF assms(4,2,3)])
  finally have c: "concat (map (\<lambda>k. case fetch q (int k + 1) limit of Inr p \<Rightarrow> items p | Inl _ \<Rightarrow> []) [0..<nat ?pages]) = all q" .
  have "\<exists>p. fetch q k limit = Inr p \<and> meta p = page_meta ?n k limit \<and> (?pages < k \<longrightarrow> items p = [])"
    if k: "1 \<le> k" "small_int k" for k
  proof -
    have "page_of k limit (all q) = []" if "?pages < k"
    proof -
      have "?pages * limit \<le> (k - 1) * limit" using that assms(3) by (intro mult_right_mono) simp_all
      then have "?n \<le> (k - 1) * limit" using b(1) by linarith
      then have "length (all q) \<le> nat ((k - 1) * limit)" by linarith
      then show ?thesis by (simp add: page_of_def)
    qed
    then show ?thesis using fetch_page [OF assms(1) k assms(2)] by auto
  qed
  then show ?thesis unfolding covers_def Let_def using b(1,2) c by blast
qed

end

end
