(* ===== verification/Videos.thy ===== *)
theory Videos
  imports Paging
begin

text \<open>
  Videos at rest: the table, the repository (\<^verbatim>\<open>internal/repo/persistent/video\<close>) and the video mapper
  (\<^verbatim>\<open>internal/mapper/video.go\<close>).
\<close>

section \<open>Table videos\<close>

text \<open>\<^verbatim>\<open>LEFT JOIN users u ON v.user_id::text = u.id::text\<close> with
  \<^verbatim>\<open>COALESCE(u.username, u.email, dflt)\<close> and \<^verbatim>\<open>COALESCE(u.avatar_url, '')\<close>.\<close>

definition owner_name :: "string \<Rightarrow> string \<Rightarrow> db \<Rightarrow> string" where
  "owner_name dflt uid d = (case row_at u_ID uid (users d) of None \<Rightarrow> dflt | Some u \<Rightarrow> u_Username u)"

definition owner_avatar :: "string \<Rightarrow> db \<Rightarrow> string" where
  "owner_avatar uid d = (case row_at u_ID uid (users d) of None \<Rightarrow> [] | Some u \<Rightarrow> u_Avatar u)"

definition video_of_row :: "db \<Rightarrow> video_row \<Rightarrow> Video" where
  "video_of_row d r =
     \<lparr>v_ID = vd_id r, v_UserID = vd_user_id r, v_UserName = owner_name ''Creator'' (vd_user_id r) d,
      v_UserAvatar = owner_avatar (vd_user_id r) d, v_Title = vd_title r, v_Description = vd_description r,
      v_Category = vd_category r, v_Status = vd_status r, v_Visibility = vd_visibility r,
      v_RawS3Key = vd_raw_s3_key r, v_HLSUrl = vd_hls_url r, v_ThumbnailUrl = vd_thumbnail_url r,
      v_Duration = vd_duration r, v_IsReel = vd_is_reel r, v_Views = vd_views r,
      v_CreatedAt = vd_created_at r, v_UpdatedAt = vd_updated_at r\<rparr>"

definition row_of_video :: "Video \<Rightarrow> video_row" where
  "row_of_video v =
     \<lparr>vd_id = v_ID v, vd_user_id = v_UserID v, vd_title = v_Title v, vd_description = v_Description v,
      vd_category = v_Category v, vd_status = v_Status v, vd_visibility = v_Visibility v,
      vd_raw_s3_key = v_RawS3Key v, vd_hls_url = v_HLSUrl v, vd_thumbnail_url = v_ThumbnailUrl v,
      vd_duration = v_Duration v, vd_is_reel = v_IsReel v, vd_views = v_Views v,
      vd_created_at = v_CreatedAt v, vd_updated_at = v_UpdatedAt v\<rparr>"

definition video_varchar :: "video_row \<Rightarrow> bool" where
  "video_varchar r \<longleftrightarrow> varchar_ok [(64, vd_id r), (64, vd_user_id r), (255, vd_title r), (64, vd_category r),
     (32, vd_status r), (32, vd_visibility r), (512, vd_raw_s3_key r), (512, vd_hls_url r),
     (512, vd_thumbnail_url r), (32, vd_duration r)]"

definition insert_video :: "video_row \<Rightarrow> stmt" where
  "insert_video r d =
     check (video_varchar r) ''22001''
      (check (vd_id r \<notin> vd_id ` set (videos d)) ''23505''
        (Inr (1, d\<lparr>videos := videos d @ [r]\<rparr>)))"

text \<open>The columns that \<^verbatim>\<open>Update\<close> sets.\<close>

definition video_merge :: "video_row \<Rightarrow> video_row \<Rightarrow> video_row" where
  "video_merge v x = x\<lparr>vd_title := vd_title v, vd_description := vd_description v, vd_category := vd_category v,
     vd_status := vd_status v, vd_visibility := vd_visibility v, vd_hls_url := vd_hls_url v,
     vd_thumbnail_url := vd_thumbnail_url v, vd_duration := vd_duration v, vd_views := vd_views v,
     vd_updated_at := vd_updated_at v\<rparr>"

definition update_video :: "video_row \<Rightarrow> stmt" where
  "update_video v d =
     (case row_at vd_id (vd_id v) (videos d) of
        None \<Rightarrow> Inr (0, d)
      | Some x \<Rightarrow>
          check (video_varchar (video_merge v x)) ''22001''
           (Inr (1, d\<lparr>videos := sql_update (\<lambda>y. vd_id y = vd_id v) (video_merge v) (videos d)\<rparr>)))"

definition delete_video :: "string \<Rightarrow> stmt" where
  "delete_video i d =
     Inr (length (filter (\<lambda>r. vd_id r = i) (videos d)), d\<lparr>videos := sql_delete (\<lambda>r. vd_id r = i) (videos d)\<rparr>)"

text \<open>\<^verbatim>\<open>UPDATE videos SET views = views + n WHERE id = i\<close> (of the view repository).\<close>

definition add_views :: "string \<Rightarrow> int \<Rightarrow> stmt" where
  "add_views i n d =
     (case row_at vd_id i (videos d) of
        None \<Rightarrow> Inr (0, d)
      | Some x \<Rightarrow>
          check (in_int64 (vd_views x + n)) ''22003''
           (Inr (1, d\<lparr>videos := sql_update (\<lambda>y. vd_id y = i) (\<lambda>y. y\<lparr>vd_views := vd_views y + n\<rparr>) (videos d)\<rparr>)))"

definition videos_ok :: "db \<Rightarrow> bool" where
  "videos_ok d \<longleftrightarrow> distinct (map vd_id (videos d)) \<and> (\<forall>r \<in> set (videos d). video_varchar r)"

definition video_stmts :: "stmt set" where
  "video_stmts = range insert_video \<union> range update_video \<union> range delete_video \<union> {add_views i n | i n. True}"

lemma video_stmtsI [simp, intro]:
  "insert_video r \<in> video_stmts" "update_video r \<in> video_stmts" "delete_video i \<in> video_stmts" "add_views i n \<in> video_stmts"
  by (auto simp: video_stmts_def)

lemma insert_video_Inr:
  "insert_video r d = Inr (n, d') \<longleftrightarrow>
     video_varchar r \<and> vd_id r \<notin> vd_id ` set (videos d) \<and> n = 1 \<and> d' = d\<lparr>videos := videos d @ [r]\<rparr>"
  by (auto simp: insert_video_def)

lemma video_merge_id [simp]: "vd_id (video_merge v x) = vd_id x" "vd_user_id (video_merge v x) = vd_user_id x"
  "vd_visibility (video_merge v x) = vd_visibility v" "vd_status (video_merge v x) = vd_status v"
  "vd_raw_s3_key (video_merge v x) = vd_raw_s3_key x"
  by (simp_all add: video_merge_def)

lemma update_video_Inr:
  assumes "update_video v d = Inr (n, d')"
  shows "videos d' = sql_update (\<lambda>y. vd_id y = vd_id v) (video_merge v) (videos d)"
    and "d' = d\<lparr>videos := videos d'\<rparr>"
  using assms by (auto simp: update_video_def sql_update_none row_at_None split: option.splits)

lemma add_views_Inr:
  assumes "add_views i k d = Inr (n, d')"
  shows "videos d' = sql_update (\<lambda>y. vd_id y = i) (\<lambda>y. y\<lparr>vd_views := vd_views y + k\<rparr>) (videos d)"
    and "d' = d\<lparr>videos := videos d'\<rparr>"
  using assms by (auto simp: add_views_def sql_update_none row_at_None split: option.splits)

interpretation video_table: updatable_table videos vd_id "\<lambda>r. r" insert_video video_merge update_video
proof unfold_locales
  fix r d n d'
  assume "update_video r d = Inr (n, d')"
  then show "videos d' = sql_update (\<lambda>x. vd_id x = vd_id r) (video_merge r) (videos d)"
    by (rule update_video_Inr)
qed (auto simp: insert_video_Inr)

interpretation video_table_del: deletable_table videos vd_id "\<lambda>r. r" insert_video delete_video
  by unfold_locales (auto simp: delete_video_def)

lemma update_video_ok:
  assumes ok: "videos_ok d" and u: "update_video v d = Inr (n, d')"
  shows "videos_ok d'"
proof (cases "row_at vd_id (vd_id v) (videos d)")
  case None
  then show ?thesis using u ok by (simp add: update_video_def)
next
  case (Some x)
  then have x: "x \<in> set (videos d)" "vd_id x = vd_id v" and c: "video_varchar (video_merge v x)"
    using u by (auto simp: update_video_def dest: row_at_Some)
  have "video_varchar y" if "y \<in> set (videos d')" for y
  proof -
    from that obtain z where z: "z \<in> set (videos d)" "y = (if vd_id z = vd_id v then video_merge v z else z)"
      unfolding update_video_Inr(1) [OF u] set_sql_update by blast
    moreover have "z = x" if "vd_id z = vd_id v"
      using distinct_key_eq [of vd_id "videos d" z x] that x z(1) ok by (simp add: videos_ok_def)
    ultimately show ?thesis using c ok by (auto simp: videos_ok_def)
  qed
  then show ?thesis using video_table.upd_distinct [OF u] ok by (simp add: videos_ok_def)
qed

lemma video_stmts_ok: "s \<in> video_stmts \<Longrightarrow> videos_ok d \<Longrightarrow> s d = Inr (n, d') \<Longrightarrow> videos_ok d'"
proof -
  assume s: "s \<in> video_stmts" and ok: "videos_ok d" and r: "s d = Inr (n, d')"
  consider v where "s = insert_video v" | v where "s = update_video v" | i where "s = delete_video i"
    | i k where "s = add_views i k" using s by (auto simp: video_stmts_def)
  then show ?thesis
  proof cases
    case 1
    then show ?thesis using r ok by (auto simp: videos_ok_def insert_video_Inr)
  next
    case 2
    then show ?thesis using r ok update_video_ok by blast
  next
    case 3
    then show ?thesis using r ok by (auto simp: videos_ok_def delete_video_def distinct_map_delete)
  next
    case 4
    then have "videos d' = sql_update (\<lambda>y. vd_id y = i) (\<lambda>y. y\<lparr>vd_views := vd_views y + k\<rparr>) (videos d)"
      using r add_views_Inr by blast
    moreover have "video_varchar (y\<lparr>vd_views := n\<rparr>) = video_varchar y" for y n by (simp add: video_varchar_def)
    ultimately show ?thesis using ok by (auto simp: videos_ok_def map_key_sql_update set_sql_update)
  qed
qed

lemma video_stmts_frame: "s \<in> video_stmts \<Longrightarrow> s d = Inr (n, d') \<Longrightarrow> d' = d\<lparr>videos := videos d'\<rparr>"
  by (auto simp: video_stmts_def insert_video_Inr delete_video_def dest: update_video_Inr(2) add_views_Inr(2))

section \<open>Repository\<close>

record VideoFilter =
  vf_UserID :: string
  vf_Category :: string
  vf_Query :: string
  vf_Status :: "string option"
  vf_Visibility :: "string option"
  vf_IsReel :: "bool option"
  vf_Limit :: nat
  vf_Offset :: nat

definition no_filter :: VideoFilter where
  "no_filter = \<lparr>vf_UserID = [], vf_Category = [], vf_Query = [], vf_Status = None, vf_Visibility = None,
     vf_IsReel = None, vf_Limit = 0, vf_Offset = 0\<rparr>"

definition VideoRepo_Store :: "env \<Rightarrow> Video \<Rightarrow> world \<Rightarrow> unit res \<times> world" where
  "VideoRepo_Store E v w =
     (case Exec E (insert_video (row_of_video v)) w of
        (Inl err, w) \<Rightarrow> (Inl (Errorf ''VideoRepo - Store - r.Pool.Exec'' err), w)
      | (Inr _, w) \<Rightarrow> (Inr (), w))"

definition VideoRepo_GetByID :: "env \<Rightarrow> string \<Rightarrow> world \<Rightarrow> Video res \<times> world" where
  "VideoRepo_GetByID E i w =
     (case QueryRow E (\<lambda>d. Inr (map_option (video_of_row d) (row_at vd_id i (videos d)))) w of
        (Inl err, w) \<Rightarrow>
          if errors_Is err ErrNoRows then (Inl ErrVideoNotFound, w)
          else (Inl (Errorf ''VideoRepo - GetByID - QueryRow'' err), w)
      | (Inr v, w) \<Rightarrow> (Inr v, w))"

definition VideoRepo_GetByIDs :: "env \<Rightarrow> string list \<Rightarrow> world \<Rightarrow> Video list res \<times> world" where
  "VideoRepo_GetByIDs E ids w =
     (if ids = [] then (Inr [], w)
      else case Query E (\<lambda>d. Inr (map (video_of_row d) (filter (\<lambda>r. vd_id r \<in> set ids \<and>
                    vd_status r = VideoStatusComplete \<and> vd_visibility r = VideoVisibilityPublic) (videos d)))) w of
             (Inl err, w) \<Rightarrow> (Inl (Errorf ''VideoRepo - GetByIDs - Query'' err), w)
           | (Inr vs, w) \<Rightarrow> (Inr vs, w))"

text \<open>The \<^verbatim>\<open>WHERE\<close> clause that the count and the data query of \<^verbatim>\<open>List\<close> build from the filter.\<close>

definition video_matches :: "env \<Rightarrow> VideoFilter \<Rightarrow> db \<Rightarrow> video_row \<Rightarrow> bool" where
  "video_matches E f d r \<longleftrightarrow>
     (vf_UserID f \<noteq> [] \<longrightarrow> vd_user_id r = vf_UserID f) \<and>
     (vf_Category f \<noteq> [] \<longrightarrow> vd_category r = vf_Category f) \<and>
     (vf_Query f \<noteq> [] \<longrightarrow>
        (let pat = ''%'' @ vf_Query f @ ''%'' in
         ilike E (vd_title r) pat \<or> ilike E (vd_description r) pat \<or> ilike E (vd_category r) pat \<or>
         (case row_at u_ID (vd_user_id r) (users d) of None \<Rightarrow> False | Some u \<Rightarrow> ilike E (u_Username u) pat))) \<and>
     (case vf_Status f of None \<Rightarrow> True | Some s \<Rightarrow> vd_status r = s) \<and>
     (case vf_Visibility f of None \<Rightarrow> True | Some s \<Rightarrow> vd_visibility r = s) \<and>
     (case vf_IsReel f of None \<Rightarrow> True | Some b \<Rightarrow> vd_is_reel r = b)"

definition VideoRepo_List :: "env \<Rightarrow> VideoFilter \<Rightarrow> world \<Rightarrow> (Video list \<times> int) res \<times> world" where
  "VideoRepo_List E f w =
     (case QueryRow E (\<lambda>d. Inr (Some (sql_count (video_matches E f d) (videos d)))) w of
        (Inl err, w) \<Rightarrow> (Inl (Errorf ''VideoRepo - List - count query'' err), w)
      | (Inr n, w) \<Rightarrow>
          (case Query E (\<lambda>d. map_sum id (map (video_of_row d))
                   (sql_page (vf_Limit f) (vf_Offset f)
                     (order_desc vd_created_at (filter (video_matches E f d) (videos d))))) w of
             (Inl err, w) \<Rightarrow> (Inl (Errorf ''VideoRepo - List - Query'' err), w)
           | (Inr vs, w) \<Rightarrow> (Inr (vs, n), w)))"

definition VideoRepo_Update :: "env \<Rightarrow> Video \<Rightarrow> world \<Rightarrow> unit res \<times> world" where
  "VideoRepo_Update E v w =
     (case Exec E (update_video (row_of_video v)) w of
        (Inl err, w) \<Rightarrow> (Inl (Errorf ''VideoRepo - Update - Exec'' err), w)
      | (Inr _, w) \<Rightarrow> (Inr (), w))"

definition VideoRepo_Delete :: "env \<Rightarrow> string \<Rightarrow> world \<Rightarrow> unit res \<times> world" where
  "VideoRepo_Delete E i w =
     (case Exec E (delete_video i) w of
        (Inl err, w) \<Rightarrow> (Inl (Errorf ''VideoRepo - Delete - Exec'' err), w)
      | (Inr _, w) \<Rightarrow> (Inr (), w))"

section \<open>Mapper\<close>

definition ToVideoEntity :: "string \<Rightarrow> CreateVideoUpload \<Rightarrow> string \<Rightarrow> string \<Rightarrow> Video" where
  "ToVideoEntity userID req i s3Key =
     \<lparr>v_ID = i, v_UserID = userID, v_UserName = [], v_UserAvatar = [], v_Title = cvu_Title req,
      v_Description = cvu_Description req, v_Category = cvu_Category req, v_Status = VideoStatusPending,
      v_Visibility = (if cvu_Visibility req \<noteq> [] then cvu_Visibility req else VideoVisibilityPublic),
      v_RawS3Key = s3Key, v_HLSUrl = [], v_ThumbnailUrl = cvu_ThumbnailURL req, v_Duration = cvu_Duration req,
      v_IsReel = cvu_IsReel req, v_Views = 0, v_CreatedAt = 0, v_UpdatedAt = 0\<rparr>"

definition ApplyVideoUpdate :: "UpdateVideoReq \<Rightarrow> Video \<Rightarrow> Video" where
  "ApplyVideoUpdate req v =
     (let v = (if uv_Title req \<noteq> [] then v\<lparr>v_Title := uv_Title req\<rparr> else v);
          v = (if uv_Description req \<noteq> [] then v\<lparr>v_Description := uv_Description req\<rparr> else v);
          v = (if uv_Category req \<noteq> [] then v\<lparr>v_Category := uv_Category req\<rparr> else v);
          v = (if uv_Visibility req \<noteq> [] then v\<lparr>v_Visibility := uv_Visibility req\<rparr> else v);
          v = (if uv_ThumbnailURL req \<noteq> [] then v\<lparr>v_ThumbnailUrl := uv_ThumbnailURL req\<rparr> else v)
      in v)"

definition ApplyThumbnailUpdate :: "string \<Rightarrow> Video \<Rightarrow> Video" where
  "ApplyThumbnailUpdate thumbnailURL v = (if thumbnailURL \<noteq> [] then v\<lparr>v_ThumbnailUrl := thumbnailURL\<rparr> else v)"

definition ToVideoResponse :: "Video \<Rightarrow> VideoResponse" where
  "ToVideoResponse v =
     \<lparr>vr_ID = v_ID v, vr_Creator = \<lparr>cr_ID = v_UserID v, cr_Name = v_UserName v, cr_Avatar = v_UserAvatar v\<rparr>,
      vr_Title = v_Title v, vr_Description = v_Description v, vr_Category = v_Category v,
      vr_Status = v_Status v, vr_Visibility = v_Visibility v, vr_HLSUrl = v_HLSUrl v,
      vr_ThumbnailUrl = v_ThumbnailUrl v, vr_Duration = v_Duration v, vr_IsReel = v_IsReel v, vr_Views = v_Views v,
      vr_LikesCount = 0, vr_IsLiked = False, vr_IsSaved = False,
      vr_CreatedAt = v_CreatedAt v, vr_UpdatedAt = v_UpdatedAt v\<rparr>"

definition ToVideoResponses :: "Video list \<Rightarrow> VideoResponse list" where
  "ToVideoResponses vs = map ToVideoResponse vs"

definition ToVideoPageResponse :: "Video list \<Rightarrow> int \<Rightarrow> int \<Rightarrow> int \<Rightarrow> VideoResponse PageResponse" where
  "ToVideoPageResponse vs totalItems page limit = page_response (ToVideoResponses vs) totalItems page limit"

section \<open>Effects and results\<close>

lemma VideoRepo_GetByID_quiet: "VideoRepo_GetByID E i w = (r, w') \<Longrightarrow> quiet w w'"
  by (auto simp: VideoRepo_GetByID_def split: prod.splits sum.splits if_splits dest!: driver_bump)

lemma VideoRepo_GetByIDs_quiet: "VideoRepo_GetByIDs E ids w = (r, w') \<Longrightarrow> quiet w w'"
  by (auto simp: VideoRepo_GetByIDs_def split: prod.splits sum.splits if_splits dest!: driver_bump)

lemma VideoRepo_List_quiet: "VideoRepo_List E f w = (r, w') \<Longrightarrow> quiet w w'"
  by (auto simp: VideoRepo_List_def split: prod.splits sum.splits dest!: driver_bump)

lemma VideoRepo_Store_runs: "VideoRepo_Store E v w = (r, w') \<Longrightarrow> effect video_stmts w w'"
  by (auto simp: VideoRepo_Store_def split: prod.splits sum.splits intro: Exec_effect)

lemma VideoRepo_Update_runs: "VideoRepo_Update E v w = (r, w') \<Longrightarrow> effect video_stmts w w'"
  by (auto simp: VideoRepo_Update_def split: prod.splits sum.splits intro: Exec_effect)

lemma VideoRepo_Delete_runs: "VideoRepo_Delete E i w = (r, w') \<Longrightarrow> effect video_stmts w w'"
  by (auto simp: VideoRepo_Delete_def split: prod.splits sum.splits intro: Exec_effect)

lemma VideoRepo_GetByID_Inr:
  "VideoRepo_GetByID E i w = (Inr v, w') \<Longrightarrow>
   \<exists>r. row_at vd_id i (videos (db w)) = Some r \<and> v = video_of_row (db w) r"
  by (auto simp: VideoRepo_GetByID_def split: prod.splits sum.splits if_splits dest!: QueryRow_Inr)

lemma VideoRepo_GetByID_healthy:
  "healthy E \<Longrightarrow> VideoRepo_GetByID E i w =
     (case row_at vd_id i (videos (db w)) of
        None \<Rightarrow> (Inl ErrVideoNotFound, bump w)
      | Some r \<Rightarrow> (Inr (video_of_row (db w) r), bump w))"
  by (simp add: VideoRepo_GetByID_def QueryRow_healthy split: option.splits)

lemma VideoRepo_Update_Inr:
  "VideoRepo_Update E v w = (Inr x, w') \<Longrightarrow>
   \<exists>n. update_video (row_of_video v) (db w) = Inr (n, db w')"
  by (auto simp: VideoRepo_Update_def split: prod.splits sum.splits elim!: Exec_cases)

lemma VideoRepo_Update_Inl: "VideoRepo_Update E v w = (Inl e, w') \<Longrightarrow> quiet w w'"
  by (auto simp: VideoRepo_Update_def split: prod.splits sum.splits elim!: Exec_cases)

lemma row_of_video_of_row [simp]: "row_of_video (video_of_row d r) = r"
  by (simp add: row_of_video_def video_of_row_def)

text \<open>Both queries of a listing see the same rows, so the page is a slice of what was counted.\<close>

lemma VideoRepo_List_healthy:
  assumes "healthy E" "vf_Limit f < 2 ^ 63" "vf_Offset f < 2 ^ 63"
  shows "VideoRepo_List E f w =
     (let all = order_desc vd_created_at (filter (video_matches E f (db w)) (videos (db w)))
      in (Inr (map (video_of_row (db w)) (take (vf_Limit f) (drop (vf_Offset f) all)), int (length all)), bump (bump w)))"
  using assms by (simp add: VideoRepo_List_def QueryRow_healthy Query_healthy sql_page_def sql_count_def Let_def)

end
