(* ===== verification/Marks.thy ===== *)
theory Marks
  imports Videos
begin

text \<open>
  Marks: a user likes or saves something, or takes the mark back.  The four tables
  \<^verbatim>\<open>likes\<close>, \<^verbatim>\<open>comment_likes\<close>, \<^verbatim>\<open>post_likes\<close> and \<^verbatim>\<open>saved_videos\<close> have one shape; the repositories
  \<^verbatim>\<open>commentlike\<close>, \<^verbatim>\<open>postlike\<close> and \<^verbatim>\<open>savedvideo\<close> and the use case \<^verbatim>\<open>savedvideo\<close> are modelled here.
  The locale below states what a toggle promises; the components interpret it.
\<close>

section \<open>The contract of a toggle\<close>

text \<open>
  \<^verbatim>\<open>marks\<close> is the set of pairs (user, target) that are marked.  A toggle that succeeds answers the
  new state and flips exactly its own pair.  Nothing is promised of a toggle that answers an error:
  some repositories report an error of the count after the mark was already changed.
\<close>

locale toggle_store =
  fixes ok :: "db \<Rightarrow> bool"
    and marks :: "db \<Rightarrow> (string \<times> string) set"
    and toggle :: "env \<Rightarrow> string \<Rightarrow> string \<Rightarrow> world \<Rightarrow> 'r res \<times> world"
    and state :: "'r \<Rightarrow> bool"
  assumes toggle_ok: "ok (db w) \<Longrightarrow> toggle E u t w = (Inr r, w') \<Longrightarrow> ok (db w')"
    and toggle_state: "ok (db w) \<Longrightarrow> toggle E u t w = (Inr r, w') \<Longrightarrow> state r \<longleftrightarrow> (u, t) \<notin> marks (db w)"
    and toggle_marks: "ok (db w) \<Longrightarrow> toggle E u t w = (Inr r, w') \<Longrightarrow>
      marks (db w') = (if state r then insert (u, t) (marks (db w)) else marks (db w) - {(u, t)})"
begin

lemma toggle_twice:
  assumes "ok (db w)" "toggle E u t w = (Inr r1, w1)" "toggle E u t w1 = (Inr r2, w2)"
  shows "state r2 \<longleftrightarrow> \<not> state r1" and "marks (db w2) = marks (db w)"
proof -
  have ok1: "ok (db w1)" using assms toggle_ok by blast
  note s1 = toggle_state [OF assms(1,2)] and m1 = toggle_marks [OF assms(1,2)]
  note s2 = toggle_state [OF ok1 assms(3)] and m2 = toggle_marks [OF ok1 assms(3)]
  show "state r2 \<longleftrightarrow> \<not> state r1" using s2 m1 by auto
  show "marks (db w2) = marks (db w)" using s1 m1 s2 m2 by (auto split: if_splits)
qed

text \<open>Any sequence of successful toggles: a pair is marked at the end iff it was toggled an odd number of
  times, counted from its state at the start.\<close>

lemma toggle_run:
  assumes "ok (db w)" "fold (\<lambda>(u, t) x. case x of None \<Rightarrow> None | Some w \<Rightarrow>
      (case toggle E u t w of (Inr r, w') \<Rightarrow> Some w' | (Inl e, w') \<Rightarrow> None)) xs (Some w) = Some w'"
  shows "p \<in> marks (db w') \<longleftrightarrow> (p \<in> marks (db w)) \<noteq> odd (count_list xs p)"
  using assms
proof (induction xs arbitrary: w)
  case Nil
  then show ?case by simp
next
  case (Cons x xs)
  obtain u t where x: "x = (u, t)" by force
  have none: "fold (\<lambda>(u, t) x. case x of None \<Rightarrow> None | Some w \<Rightarrow>
      (case toggle E u t w of (Inr r, w') \<Rightarrow> Some w' | (Inl e, w') \<Rightarrow> None)) xs None = None" for xs
    by (induction xs) auto
  obtain r w1 where t: "toggle E u t w = (Inr r, w1)"
    using Cons.prems(2) x none by (cases "toggle E u t w"; cases "fst (toggle E u t w)") auto
  note ok1 = toggle_ok [OF Cons.prems(1) t]
  have "p \<in> marks (db w') \<longleftrightarrow> (p \<in> marks (db w1)) \<noteq> odd (count_list xs p)"
    using Cons.IH [OF ok1] Cons.prems(2) x t by simp
  moreover have "p \<in> marks (db w1) \<longleftrightarrow> (if p = x then p \<notin> marks (db w) else p \<in> marks (db w))"
    using toggle_state [OF Cons.prems(1) t] toggle_marks [OF Cons.prems(1) t] x by auto
  ultimately show ?case by auto
qed

end

text \<open>Some toggles also answer the number of users that now mark the target.\<close>

locale counting_toggle = toggle_store +
  fixes number :: "'b \<Rightarrow> int"
  assumes toggle_number: "ok (db w) \<Longrightarrow> toggle E u t w = (Inr r, w') \<Longrightarrow>
      number r = int (card {u. (u, t) \<in> marks (db w')}) \<and> finite {u. (u, t) \<in> marks (db w)}"
begin

lemma toggle_number_step:
  assumes "ok (db w)" "toggle E u t w = (Inr r, w')"
  shows "number r = int (card {u. (u, t) \<in> marks (db w)}) + (if state r then 1 else -1)"
proof -
  let ?M = "{u. (u, t) \<in> marks (db w)}"
  note n = toggle_number [OF assms] and s = toggle_state [OF assms] and m = toggle_marks [OF assms]
  have "{u. (u, t) \<in> marks (db w')} = (if state r then insert u ?M else ?M - {u})"
    using m by auto
  moreover have "card (insert u ?M) = card ?M + 1" if "state r" using n s that by auto
  moreover have "card (?M - {u}) + 1 = card ?M" if "\<not> state r"
    using n s that card_Suc_Diff1 [of ?M u] by simp
  ultimately show ?thesis using n by (auto split: if_splits)
qed

end

section \<open>Tables of marks\<close>

definition mark_varchar :: "mark_row \<Rightarrow> bool" where
  "mark_varchar m \<longleftrightarrow> varchar_ok [(64, mk_id m), (64, mk_target_id m), (64, mk_user_id m)]"

definition mark_pair :: "mark_row \<Rightarrow> string \<times> string" where
  "mark_pair m = (mk_user_id m, mk_target_id m)"

text \<open>\<^verbatim>\<open>INSERT\<close> with the primary key and \<^verbatim>\<open>UNIQUE (user_id, target)\<close>, on the list of rows.\<close>

definition add_mark :: "mark_row \<Rightarrow> mark_row list \<Rightarrow> mark_row list res" where
  "add_mark m ms =
     check (mark_varchar m) ''22001''
      (check (mk_id m \<notin> mk_id ` set ms \<and> mark_pair m \<notin> mark_pair ` set ms) ''23505'' (Inr (ms @ [m])))"

definition marks_ok :: "mark_row list \<Rightarrow> bool" where
  "marks_ok ms \<longleftrightarrow> distinct (map mk_id ms) \<and> distinct (map mark_pair ms) \<and> (\<forall>m \<in> set ms. mark_varchar m)"

definition mark_find :: "string \<Rightarrow> string \<Rightarrow> mark_row list \<Rightarrow> mark_row option" where
  "mark_find u t ms = row_at mark_pair (u, t) ms"

definition mark_count :: "string \<Rightarrow> mark_row list \<Rightarrow> int" where
  "mark_count t ms = sql_count (\<lambda>m. mk_target_id m = t) ms"

lemma add_mark_Inr:
  "add_mark m ms = Inr ms' \<longleftrightarrow> mark_varchar m \<and> mk_id m \<notin> mk_id ` set ms \<and> mark_pair m \<notin> mark_pair ` set ms \<and> ms' = ms @ [m]"
  by (auto simp: add_mark_def)

lemma add_mark_ok: "marks_ok ms \<Longrightarrow> add_mark m ms = Inr ms' \<Longrightarrow> marks_ok ms'"
  by (auto simp: marks_ok_def add_mark_Inr)

lemma del_mark_ok: "marks_ok ms \<Longrightarrow> marks_ok (sql_delete p ms)"
  by (simp add: marks_ok_def distinct_map_delete)

lemma marks_del_id:
  assumes "marks_ok ms" "mark_find u t ms = Some m"
  shows "mark_pair ` set (sql_delete (\<lambda>x. mk_id x = mk_id m) ms) = mark_pair ` set ms - {(u, t)}"
proof -
  have m: "m \<in> set ms" "mark_pair m = (u, t)" using assms(2) by (auto simp: mark_find_def dest: row_at_Some)
  have "mk_id x = mk_id m \<longleftrightarrow> mark_pair x = (u, t)" if "x \<in> set ms" for x
    using distinct_key_eq [of mk_id ms x m] distinct_key_eq [of mark_pair ms x m] assms(1) m that
    by (auto simp: marks_ok_def)
  then show ?thesis by auto
qed

lemma mark_find_None: "mark_find u t ms = None \<longleftrightarrow> (u, t) \<notin> mark_pair ` set ms"
  by (simp add: mark_find_def row_at_None)

lemma mark_count_card:
  assumes "marks_ok ms"
  shows "mark_count t ms = int (card {u. (u, t) \<in> mark_pair ` set ms})"
proof -
  have d: "distinct (map mk_user_id (filter (\<lambda>m. mk_target_id m = t) ms))"
    using assms unfolding marks_ok_def distinct_map
    by (auto simp: mark_pair_def inj_on_def)
  have "{u. (u, t) \<in> mark_pair ` set ms} = set (map mk_user_id (filter (\<lambda>m. mk_target_id m = t) ms))"
    by (auto simp: mark_pair_def image_iff)
  then have "card {u. (u, t) \<in> mark_pair ` set ms} = length (filter (\<lambda>m. mk_target_id m = t) ms)"
    using distinct_card [OF d] by simp
  then show ?thesis by (simp add: mark_count_def sql_count_def)
qed

lemma finite_markers: "finite {u. (u, t) \<in> mark_pair ` set ms}"
proof -
  have "{u. (u, t) \<in> mark_pair ` set ms} \<subseteq> mk_user_id ` set ms" by (auto simp: mark_pair_def)
  then show ?thesis by (rule finite_subset) simp
qed

section \<open>Comment likes\<close>

definition insert_comment_like :: "mark_row \<Rightarrow> stmt" where
  "insert_comment_like m d = map_sum id (\<lambda>ms. (1, d\<lparr>comment_likes := ms\<rparr>)) (add_mark m (comment_likes d))"

definition delete_comment_like :: "string \<Rightarrow> stmt" where
  "delete_comment_like i d =
     Inr (length (filter (\<lambda>m. mk_id m = i) (comment_likes d)),
          d\<lparr>comment_likes := sql_delete (\<lambda>m. mk_id m = i) (comment_likes d)\<rparr>)"

definition CommentLikeRepo_GetLikeCount :: "env \<Rightarrow> string \<Rightarrow> world \<Rightarrow> int res \<times> world" where
  "CommentLikeRepo_GetLikeCount E commentID w =
     (case QueryRow E (\<lambda>d. Inr (Some (mark_count commentID (comment_likes d)))) w of
        (Inl err, w) \<Rightarrow> (Inl (Errorf ''CommentLikeRepo - GetLikeCount - QueryRow'' err), w)
      | (Inr n, w) \<Rightarrow> (Inr n, w))"

definition CommentLikeRepo_ToggleLike :: "env \<Rightarrow> string \<Rightarrow> string \<Rightarrow> world \<Rightarrow> (bool \<times> int) res \<times> world" where
  "CommentLikeRepo_ToggleLike E commentID userID w =
     (case QueryRow E (\<lambda>d. Inr (map_option mk_id (mark_find userID commentID (comment_likes d)))) w of
        (Inl _, w) \<Rightarrow>
          (case NewUUID E w of (i, w) \<Rightarrow> case Now E w of (now, w) \<Rightarrow>
           case Exec E (insert_comment_like \<lparr>mk_id = i, mk_target_id = commentID, mk_user_id = userID, mk_created_at = now\<rparr>) w of
             (Inl err, w) \<Rightarrow> (Inl (Errorf ''CommentLikeRepo - ToggleLike - Insert'' err), w)
           | (Inr _, w) \<Rightarrow>
               (case CommentLikeRepo_GetLikeCount E commentID w of
                  (Inl err, w) \<Rightarrow> (Inl err, w) | (Inr n, w) \<Rightarrow> (Inr (True, n), w)))
      | (Inr existingID, w) \<Rightarrow>
          (case Exec E (delete_comment_like existingID) w of
             (Inl err, w) \<Rightarrow> (Inl (Errorf ''CommentLikeRepo - ToggleLike - Delete'' err), w)
           | (Inr _, w) \<Rightarrow>
               (case CommentLikeRepo_GetLikeCount E commentID w of
                  (Inl err, w) \<Rightarrow> (Inl err, w) | (Inr n, w) \<Rightarrow> (Inr (False, n), w))))"

definition CommentLikeRepo_IsLikedByUser :: "env \<Rightarrow> string \<Rightarrow> string \<Rightarrow> world \<Rightarrow> bool res \<times> world" where
  "CommentLikeRepo_IsLikedByUser E commentID userID w =
     (if userID = [] then (Inr False, w)
      else case QueryRow E (\<lambda>d. Inr (mark_find userID commentID (comment_likes d))) w of
             (Inl err, w) \<Rightarrow>
               if errors_Is err ErrNoRows then (Inr False, w)
               else (Inl (Errorf ''CommentLikeRepo - IsLikedByUser - QueryRow'' err), w)
           | (Inr _, w) \<Rightarrow> (Inr True, w))"

section \<open>Post likes\<close>

text \<open>\<^verbatim>\<open>post_likes.post_id\<close> references \<^verbatim>\<open>posts(id)\<close>.\<close>

definition insert_post_like :: "mark_row \<Rightarrow> stmt" where
  "insert_post_like m d =
     (case add_mark m (post_likes d) of
        Inl e \<Rightarrow> Inl e
      | Inr ms \<Rightarrow> check (mk_target_id m \<in> p_ID ` set (posts d)) ''23503'' (Inr (1, d\<lparr>post_likes := ms\<rparr>)))"

definition delete_post_like :: "string \<Rightarrow> stmt" where
  "delete_post_like i d =
     Inr (length (filter (\<lambda>m. mk_id m = i) (post_likes d)),
          d\<lparr>post_likes := sql_delete (\<lambda>m. mk_id m = i) (post_likes d)\<rparr>)"

definition PostLikeRepo_GetLikeCount :: "env \<Rightarrow> string \<Rightarrow> world \<Rightarrow> int res \<times> world" where
  "PostLikeRepo_GetLikeCount E postID w =
     (case QueryRow E (\<lambda>d. Inr (Some (mark_count postID (post_likes d)))) w of
        (Inl err, w) \<Rightarrow> (Inl (Errorf ''PostLikeRepo - GetLikeCount - QueryRow'' err), w)
      | (Inr n, w) \<Rightarrow> (Inr n, w))"

definition PostLikeRepo_ToggleLike :: "env \<Rightarrow> string \<Rightarrow> string \<Rightarrow> world \<Rightarrow> (bool \<times> int) res \<times> world" where
  "PostLikeRepo_ToggleLike E postID userID w =
     (case QueryRow E (\<lambda>d. Inr (map_option mk_id (mark_find userID postID (post_likes d)))) w of
        (Inl _, w) \<Rightarrow>
          (case NewUUID E w of (i, w) \<Rightarrow> case Now E w of (now, w) \<Rightarrow>
           case Exec E (insert_post_like \<lparr>mk_id = i, mk_target_id = postID, mk_user_id = userID, mk_created_at = now\<rparr>) w of
             (Inl err, w) \<Rightarrow> (Inl (Errorf ''PostLikeRepo - ToggleLike - Insert'' err), w)
           | (Inr _, w) \<Rightarrow>
               (case PostLikeRepo_GetLikeCount E postID w of
                  (Inl err, w) \<Rightarrow> (Inl err, w) | (Inr n, w) \<Rightarrow> (Inr (True, n), w)))
      | (Inr existingID, w) \<Rightarrow>
          (case Exec E (delete_post_like existingID) w of
             (Inl err, w) \<Rightarrow> (Inl (Errorf ''PostLikeRepo - ToggleLike - Delete'' err), w)
           | (Inr _, w) \<Rightarrow>
               (case PostLikeRepo_GetLikeCount E postID w of
                  (Inl err, w) \<Rightarrow> (Inl err, w) | (Inr n, w) \<Rightarrow> (Inr (False, n), w))))"

definition PostLikeRepo_IsLikedByUser :: "env \<Rightarrow> string \<Rightarrow> string \<Rightarrow> world \<Rightarrow> bool res \<times> world" where
  "PostLikeRepo_IsLikedByUser E postID userID w =
     (if userID = [] then (Inr False, w)
      else case QueryRow E (\<lambda>d. Inr (mark_find userID postID (post_likes d))) w of
             (Inl err, w) \<Rightarrow>
               if errors_Is err ErrNoRows then (Inr False, w)
               else (Inl (Errorf ''PostLikeRepo - IsLikedByUser - QueryRow'' err), w)
           | (Inr _, w) \<Rightarrow> (Inr True, w))"

section \<open>Saved videos\<close>

definition insert_saved :: "mark_row \<Rightarrow> stmt" where
  "insert_saved m d = map_sum id (\<lambda>ms. (1, d\<lparr>saved_videos := ms\<rparr>)) (add_mark m (saved_videos d))"

definition delete_saved :: "string \<Rightarrow> stmt" where
  "delete_saved i d =
     Inr (length (filter (\<lambda>m. mk_id m = i) (saved_videos d)),
          d\<lparr>saved_videos := sql_delete (\<lambda>m. mk_id m = i) (saved_videos d)\<rparr>)"

definition SavedVideoRepo_ToggleSave :: "env \<Rightarrow> string \<Rightarrow> string \<Rightarrow> world \<Rightarrow> bool res \<times> world" where
  "SavedVideoRepo_ToggleSave E userID videoID w =
     (case QueryRow E (\<lambda>d. Inr (map_option mk_id (mark_find userID videoID (saved_videos d)))) w of
        (Inl err, w) \<Rightarrow>
          if \<not> errors_Is err ErrNoRows then (Inl (Errorf ''SavedVideoRepo - ToggleSave - QueryRow'' err), w)
          else (case NewUUID E w of (i, w) \<Rightarrow> case Now E w of (now, w) \<Rightarrow>
                case Exec E (insert_saved \<lparr>mk_id = i, mk_target_id = videoID, mk_user_id = userID, mk_created_at = now\<rparr>) w of
                  (Inl err, w) \<Rightarrow> (Inl (Errorf ''SavedVideoRepo - ToggleSave - insert Exec'' err), w)
                | (Inr _, w) \<Rightarrow> (Inr True, w))
      | (Inr existingID, w) \<Rightarrow>
          (case Exec E (delete_saved existingID) w of
             (Inl err, w) \<Rightarrow> (Inl (Errorf ''SavedVideoRepo - ToggleSave - delete Exec'' err), w)
           | (Inr _, w) \<Rightarrow> (Inr False, w)))"

definition SavedVideoRepo_IsSavedByUser :: "env \<Rightarrow> string \<Rightarrow> string \<Rightarrow> world \<Rightarrow> bool res \<times> world" where
  "SavedVideoRepo_IsSavedByUser E videoID userID w =
     (if userID = [] then (Inr False, w)
      else case QueryRow E (\<lambda>d. Inr (mark_find userID videoID (saved_videos d))) w of
             (Inl err, w) \<Rightarrow>
               if errors_Is err ErrNoRows then (Inr False, w)
               else (Inl (Errorf ''SavedVideoRepo - IsSavedByUser - QueryRow'' err), w)
           | (Inr _, w) \<Rightarrow> (Inr True, w))"

text \<open>The row of \<^verbatim>\<open>videos\<close> joined to a mark; \<^verbatim>\<open>is_reel\<close> is not selected and stays \<^verbatim>\<open>false\<close>.\<close>

definition joined_video :: "db \<Rightarrow> string \<Rightarrow> Video list" where
  "joined_video d i =
     (case row_at vd_id i (videos d) of None \<Rightarrow> [] | Some r \<Rightarrow> [(video_of_row d r)\<lparr>v_IsReel := False\<rparr>])"

definition SavedVideoRepo_ListSavedVideos :: "env \<Rightarrow> string \<Rightarrow> int \<Rightarrow> int \<Rightarrow> world \<Rightarrow> (Video list \<times> int) res \<times> world" where
  "SavedVideoRepo_ListSavedVideos E userID limit offset w =
     (case QueryRow E (\<lambda>d. Inr (Some (sql_count (\<lambda>m. mk_user_id m = userID) (saved_videos d)))) w of
        (Inl err, w) \<Rightarrow> (Inl (Errorf ''SavedVideoRepo - ListSavedVideos - count query'' err), w)
      | (Inr n, w) \<Rightarrow>
          (case Query E (\<lambda>d. sql_page (to_uint64 limit) (to_uint64 offset)
                   (concat (map (\<lambda>m. joined_video d (mk_target_id m))
                     (order_desc mk_created_at (filter (\<lambda>m. mk_user_id m = userID) (saved_videos d)))))) w of
             (Inl err, w) \<Rightarrow> (Inl (Errorf ''SavedVideoRepo - ListSavedVideos - Query'' err), w)
           | (Inr vs, w) \<Rightarrow> (Inr (vs, n), w)))"

definition SavedVideo_ToggleSaveVideo :: "env \<Rightarrow> string \<Rightarrow> string \<Rightarrow> world \<Rightarrow> SaveVideoResponse res \<times> world" where
  "SavedVideo_ToggleSaveVideo E userID videoID w =
     (case SavedVideoRepo_ToggleSave E userID videoID w of
        (Inl err, w) \<Rightarrow> (Inl (Errorf ''SavedVideoUseCase - ToggleSaveVideo'' err), w)
      | (Inr saved, w) \<Rightarrow> (Inr \<lparr>sv_VideoID = videoID, sv_Saved = saved\<rparr>, w))"

definition SavedVideo_ListSavedVideos :: "env \<Rightarrow> string \<Rightarrow> int \<Rightarrow> int \<Rightarrow> world \<Rightarrow> VideoResponse PageResponse res \<times> world" where
  "SavedVideo_ListSavedVideos E userID page limit w =
     (let offset = page_offset page limit
      in case SavedVideoRepo_ListSavedVideos E userID limit offset w of
           (Inl err, w) \<Rightarrow> (Inl (Errorf ''SavedVideoUseCase - ListSavedVideos'' err), w)
         | (Inr (vs, n), w) \<Rightarrow> (Inr (ToVideoPageResponse vs n page limit), w))"

section \<open>The toggles keep their contract\<close>

lemma insert_comment_like_Inr:
  "insert_comment_like m d = Inr (n, d') \<longleftrightarrow>
     n = 1 \<and> (\<exists>ms. add_mark m (comment_likes d) = Inr ms \<and> d' = d\<lparr>comment_likes := ms\<rparr>)"
  by (cases "add_mark m (comment_likes d)") (auto simp: insert_comment_like_def)

lemma insert_saved_Inr:
  "insert_saved m d = Inr (n, d') \<longleftrightarrow>
     n = 1 \<and> (\<exists>ms. add_mark m (saved_videos d) = Inr ms \<and> d' = d\<lparr>saved_videos := ms\<rparr>)"
  by (cases "add_mark m (saved_videos d)") (auto simp: insert_saved_def)

lemma insert_post_like_Inr:
  "insert_post_like m d = Inr (n, d') \<longleftrightarrow>
     n = 1 \<and> mk_target_id m \<in> p_ID ` set (posts d) \<and> (\<exists>ms. add_mark m (post_likes d) = Inr ms \<and> d' = d\<lparr>post_likes := ms\<rparr>)"
  by (cases "add_mark m (post_likes d)") (auto simp: insert_post_like_def)

text \<open>What a successful toggle did to its table, once for the three repositories.\<close>

definition flipped :: "mark_row list \<Rightarrow> string \<Rightarrow> string \<Rightarrow> bool \<Rightarrow> mark_row list \<Rightarrow> bool" where
  "flipped ms u t b ms' \<longleftrightarrow>
     (if b then \<exists>m. mark_pair m = (u, t) \<and> add_mark m ms = Inr ms'
      else \<exists>m. mark_find u t ms = Some m \<and> ms' = sql_delete (\<lambda>x. mk_id x = mk_id m) ms)"

lemma flippedD:
  assumes "flipped ms u t b ms'" "marks_ok ms"
  shows "marks_ok ms'" "b \<longleftrightarrow> (u, t) \<notin> mark_pair ` set ms"
    "mark_pair ` set ms' = (if b then insert (u, t) (mark_pair ` set ms) else mark_pair ` set ms - {(u, t)})"
proof -
  consider (add) m where "b" "mark_pair m = (u, t)" "add_mark m ms = Inr ms'"
    | (del) m where "\<not> b" "mark_find u t ms = Some m" "ms' = sql_delete (\<lambda>x. mk_id x = mk_id m) ms"
    using assms(1) by (auto simp: flipped_def split: if_splits)
  then have "marks_ok ms' \<and> (b \<longleftrightarrow> (u, t) \<notin> mark_pair ` set ms) \<and>
    mark_pair ` set ms' = (if b then insert (u, t) (mark_pair ` set ms) else mark_pair ` set ms - {(u, t)})"
  proof cases
    case add
    then show ?thesis using assms(2) add_mark_ok by (auto simp: add_mark_Inr)
  next
    case del
    then have "(u, t) \<in> mark_pair ` set ms" using mark_find_None [of u t ms] by force
    then show ?thesis using del marks_del_id [OF assms(2) del(2)] del_mark_ok [OF assms(2)] by simp
  qed
  then show "marks_ok ms'" "b \<longleftrightarrow> (u, t) \<notin> mark_pair ` set ms"
    "mark_pair ` set ms' = (if b then insert (u, t) (mark_pair ` set ms) else mark_pair ` set ms - {(u, t)})" by blast+
qed

lemma flipped_add:
  "add_mark \<lparr>mk_id = i, mk_target_id = t, mk_user_id = u, mk_created_at = c\<rparr> ms = Inr ms' \<Longrightarrow> flipped ms u t True ms'"
  unfolding flipped_def by (auto simp: mark_pair_def intro!: exI)

lemma flipped_del:
  "mark_find u t ms = Some m \<Longrightarrow> flipped ms u t False (sql_delete (\<lambda>x. mk_id x = mk_id m) ms)"
  by (auto simp: flipped_def)

lemma QueryRow_mark_id:
  "QueryRow E (\<lambda>d. Inr (map_option mk_id (mark_find u t (f d)))) w = (Inr i, w') \<Longrightarrow>
   \<exists>m. mark_find u t (f (db w)) = Some m \<and> i = mk_id m"
  by (auto dest!: QueryRow_Inr)

lemma CommentLikeRepo_GetLikeCount_Inr:
  "CommentLikeRepo_GetLikeCount E t w = (Inr n, w') \<Longrightarrow> n = mark_count t (comment_likes (db w)) \<and> quiet w w'"
  by (auto simp: CommentLikeRepo_GetLikeCount_def split: prod.splits sum.splits dest!: QueryRow_InrD)

lemma PostLikeRepo_GetLikeCount_Inr:
  "PostLikeRepo_GetLikeCount E t w = (Inr n, w') \<Longrightarrow> n = mark_count t (post_likes (db w)) \<and> quiet w w'"
  by (auto simp: PostLikeRepo_GetLikeCount_def split: prod.splits sum.splits dest!: QueryRow_InrD)

lemma CommentLikeRepo_ToggleLike_flips:
  assumes "CommentLikeRepo_ToggleLike E t u w = (Inr r, w')"
  shows "flipped (comment_likes (db w)) u t (fst r) (comment_likes (db w')) \<and> snd r = mark_count t (comment_likes (db w'))"
proof -
  let ?q = "QueryRow E (\<lambda>d. Inr (map_option mk_id (mark_find u t (comment_likes d)))) w"
  show ?thesis
  proof (cases "fst ?q")
    case (Inl e)
    then have "?q = (Inl e, bump w)" using QueryRow_world by (metis prod.collapse)
    with assms show ?thesis
      by (auto simp: CommentLikeRepo_ToggleLike_def NewUUID_def Now_def insert_comment_like_Inr quietD
          split: prod.splits sum.splits elim!: Exec_cases dest!: CommentLikeRepo_GetLikeCount_Inr intro!: flipped_add)
  next
    case (Inr i)
    then have q: "?q = (Inr i, bump w)" using QueryRow_world by (metis prod.collapse)
    from QueryRow_mark_id [OF q] obtain m where "mark_find u t (comment_likes (db w)) = Some m" "i = mk_id m" by auto
    with assms q show ?thesis
      by (auto simp: CommentLikeRepo_ToggleLike_def delete_comment_like_def quietD
          split: prod.splits sum.splits elim!: Exec_cases dest!: CommentLikeRepo_GetLikeCount_Inr intro: flipped_del)
  qed
qed

lemma PostLikeRepo_ToggleLike_flips:
  assumes "PostLikeRepo_ToggleLike E t u w = (Inr r, w')"
  shows "flipped (post_likes (db w)) u t (fst r) (post_likes (db w')) \<and> snd r = mark_count t (post_likes (db w'))"
proof -
  let ?q = "QueryRow E (\<lambda>d. Inr (map_option mk_id (mark_find u t (post_likes d)))) w"
  show ?thesis
  proof (cases "fst ?q")
    case (Inl e)
    then have "?q = (Inl e, bump w)" using QueryRow_world by (metis prod.collapse)
    with assms show ?thesis
      by (auto simp: PostLikeRepo_ToggleLike_def NewUUID_def Now_def insert_post_like_Inr quietD
          split: prod.splits sum.splits elim!: Exec_cases dest!: PostLikeRepo_GetLikeCount_Inr intro!: flipped_add)
  next
    case (Inr i)
    then have q: "?q = (Inr i, bump w)" using QueryRow_world by (metis prod.collapse)
    from QueryRow_mark_id [OF q] obtain m where "mark_find u t (post_likes (db w)) = Some m" "i = mk_id m" by auto
    with assms q show ?thesis
      by (auto simp: PostLikeRepo_ToggleLike_def delete_post_like_def quietD
          split: prod.splits sum.splits elim!: Exec_cases dest!: PostLikeRepo_GetLikeCount_Inr intro: flipped_del)
  qed
qed

lemma SavedVideoRepo_ToggleSave_flips:
  assumes "SavedVideoRepo_ToggleSave E u t w = (Inr b, w')"
  shows "flipped (saved_videos (db w)) u t b (saved_videos (db w'))"
proof -
  let ?q = "QueryRow E (\<lambda>d. Inr (map_option mk_id (mark_find u t (saved_videos d)))) w"
  show ?thesis
  proof (cases "fst ?q")
    case (Inl e)
    then have "?q = (Inl e, bump w)" using QueryRow_world by (metis prod.collapse)
    with assms show ?thesis
      by (auto simp: SavedVideoRepo_ToggleSave_def NewUUID_def Now_def insert_saved_Inr
          split: prod.splits sum.splits if_splits elim!: Exec_cases intro!: flipped_add)
  next
    case (Inr i)
    then have q: "?q = (Inr i, bump w)" using QueryRow_world by (metis prod.collapse)
    from QueryRow_mark_id [OF q] obtain m where "mark_find u t (saved_videos (db w)) = Some m" "i = mk_id m" by auto
    with assms q show ?thesis
      by (auto simp: SavedVideoRepo_ToggleSave_def delete_saved_def
          split: prod.splits sum.splits elim!: Exec_cases intro: flipped_del)
  qed
qed

interpretation comment_likes: counting_toggle "\<lambda>d. marks_ok (comment_likes d)"
  "\<lambda>d. mark_pair ` set (comment_likes d)" "\<lambda>E u t. CommentLikeRepo_ToggleLike E t u" fst snd
  by unfold_locales
    (use CommentLikeRepo_ToggleLike_flips flippedD mark_count_card finite_markers in metis)+

interpretation post_likes: counting_toggle "\<lambda>d. marks_ok (post_likes d)"
  "\<lambda>d. mark_pair ` set (post_likes d)" "\<lambda>E u t. PostLikeRepo_ToggleLike E t u" fst snd
  by unfold_locales
    (use PostLikeRepo_ToggleLike_flips flippedD mark_count_card finite_markers in metis)+

interpretation saved: toggle_store "\<lambda>d. marks_ok (saved_videos d)"
  "\<lambda>d. mark_pair ` set (saved_videos d)" SavedVideoRepo_ToggleSave "\<lambda>b. b"
  by unfold_locales (use SavedVideoRepo_ToggleSave_flips flippedD in metis)+

section \<open>Statements and effects\<close>

definition mark_stmts :: "stmt set" where
  "mark_stmts = range insert_comment_like \<union> range delete_comment_like \<union> range insert_post_like \<union>
     range delete_post_like \<union> range insert_saved \<union> range delete_saved"

lemma mark_stmtsI [simp, intro]:
  "insert_comment_like m \<in> mark_stmts" "delete_comment_like i \<in> mark_stmts" "insert_post_like m \<in> mark_stmts"
  "delete_post_like i \<in> mark_stmts" "insert_saved m \<in> mark_stmts" "delete_saved i \<in> mark_stmts"
  by (simp_all add: mark_stmts_def)

definition mark_tables_ok :: "db \<Rightarrow> bool" where
  "mark_tables_ok d \<longleftrightarrow> marks_ok (comment_likes d) \<and> marks_ok (post_likes d) \<and> marks_ok (saved_videos d)"

lemma mark_stmts_ok:
  assumes "s \<in> mark_stmts" "mark_tables_ok d" "s d = Inr (n, d')"
  shows "mark_tables_ok d'"
  using assms(1) unfolding mark_stmts_def
proof (elim UnE rangeE)
qed (use assms(2,3) in \<open>auto simp: mark_tables_ok_def insert_comment_like_Inr insert_post_like_Inr insert_saved_Inr
      delete_comment_like_def delete_post_like_def delete_saved_def add_mark_ok del_mark_ok\<close>)

lemma mark_stmts_frame:
  "s \<in> mark_stmts \<Longrightarrow> s d = Inr (n, d') \<Longrightarrow>
   d' = d\<lparr>comment_likes := comment_likes d', post_likes := post_likes d', saved_videos := saved_videos d'\<rparr>"
  by (auto simp: mark_stmts_def insert_comment_like_Inr insert_post_like_Inr insert_saved_Inr
      delete_comment_like_def delete_post_like_def delete_saved_def)

lemma CommentLikeRepo_GetLikeCount_quiet: "CommentLikeRepo_GetLikeCount E t w = (r, w') \<Longrightarrow> quiet w w'"
  by (auto simp: CommentLikeRepo_GetLikeCount_def split: prod.splits sum.splits dest!: driver_bump)

lemma PostLikeRepo_GetLikeCount_quiet: "PostLikeRepo_GetLikeCount E t w = (r, w') \<Longrightarrow> quiet w w'"
  by (auto simp: PostLikeRepo_GetLikeCount_def split: prod.splits sum.splits dest!: driver_bump)

lemma CommentLikeRepo_IsLikedByUser_quiet: "CommentLikeRepo_IsLikedByUser E t u w = (r, w') \<Longrightarrow> quiet w w'"
  by (auto simp: CommentLikeRepo_IsLikedByUser_def split: prod.splits sum.splits if_splits dest!: driver_bump)

lemma PostLikeRepo_IsLikedByUser_quiet: "PostLikeRepo_IsLikedByUser E t u w = (r, w') \<Longrightarrow> quiet w w'"
  by (auto simp: PostLikeRepo_IsLikedByUser_def split: prod.splits sum.splits if_splits dest!: driver_bump)

lemma SavedVideoRepo_IsSavedByUser_quiet: "SavedVideoRepo_IsSavedByUser E t u w = (r, w') \<Longrightarrow> quiet w w'"
  by (auto simp: SavedVideoRepo_IsSavedByUser_def split: prod.splits sum.splits if_splits dest!: driver_bump)

lemma SavedVideo_ListSavedVideos_quiet: "SavedVideo_ListSavedVideos E u p l w = (r, w') \<Longrightarrow> quiet w w'"
  by (auto simp: SavedVideo_ListSavedVideos_def SavedVideoRepo_ListSavedVideos_def Let_def
      split: prod.splits sum.splits dest!: driver_bump)

lemma CommentLikeRepo_ToggleLike_runs:
  assumes "CommentLikeRepo_ToggleLike E t u w = (r, w')"
  shows "effect mark_stmts w w'"
  using assms
  by (auto simp: CommentLikeRepo_ToggleLike_def NewUUID_def Now_def split: prod.splits sum.splits
      dest!: QueryRow_bump CommentLikeRepo_GetLikeCount_quiet Exec_effect [where S = mark_stmts]
      intro: then_quiet)

lemma PostLikeRepo_ToggleLike_runs:
  assumes "PostLikeRepo_ToggleLike E t u w = (r, w')"
  shows "effect mark_stmts w w'"
  using assms
  by (auto simp: PostLikeRepo_ToggleLike_def NewUUID_def Now_def split: prod.splits sum.splits
      dest!: QueryRow_bump PostLikeRepo_GetLikeCount_quiet Exec_effect [where S = mark_stmts]
      intro: then_quiet)

lemma SavedVideoRepo_ToggleSave_runs:
  assumes "SavedVideoRepo_ToggleSave E u t w = (r, w')"
  shows "effect mark_stmts w w'"
  using assms
  by (auto simp: SavedVideoRepo_ToggleSave_def NewUUID_def Now_def split: prod.splits sum.splits if_splits
      dest!: QueryRow_bump Exec_effect [where S = mark_stmts])

lemma SavedVideo_ToggleSaveVideo_runs:
  "SavedVideo_ToggleSaveVideo E u t w = (r, w') \<Longrightarrow> effect mark_stmts w w'"
  by (auto simp: SavedVideo_ToggleSaveVideo_def split: prod.splits sum.splits dest: SavedVideoRepo_ToggleSave_runs)

section \<open>Properties\<close>

text \<open>Saving is an involution.  Two successful toggles of the same video by the same user answer
  opposite states and leave the set of saved pairs as it was, and the first answer says whether the
  video was not yet saved.\<close>

theorem save_toggle_involution:
  assumes "marks_ok (saved_videos (db w))"
    and "SavedVideo_ToggleSaveVideo E userID videoID w = (Inr r1, w1)"
    and "SavedVideo_ToggleSaveVideo E userID videoID w1 = (Inr r2, w2)"
  shows "(sv_Saved r1 \<longleftrightarrow> (userID, videoID) \<notin> mark_pair ` set (saved_videos (db w))) \<and>
    (sv_Saved r2 \<longleftrightarrow> \<not> sv_Saved r1) \<and>
    mark_pair ` set (saved_videos (db w2)) = mark_pair ` set (saved_videos (db w))"
proof -
  from assms(2) have t1: "SavedVideoRepo_ToggleSave E userID videoID w = (Inr (sv_Saved r1), w1)"
    by (auto simp: SavedVideo_ToggleSaveVideo_def split: prod.splits sum.splits)
  from assms(3) have t2: "SavedVideoRepo_ToggleSave E userID videoID w1 = (Inr (sv_Saved r2), w2)"
    by (auto simp: SavedVideo_ToggleSaveVideo_def split: prod.splits sum.splits)
  show ?thesis
    using saved.toggle_state [OF assms(1) t1] saved.toggle_twice [OF assms(1) t1 t2] by blast
qed

theorem save_toggle_involution_witness:
  "\<exists>r1 w1 r2 w2. SavedVideo_ToggleSaveVideo test_env ''u'' ''v'' init_world = (Inr r1, w1) \<and>
     SavedVideo_ToggleSaveVideo test_env ''u'' ''v'' w1 = (Inr r2, w2) \<and> sv_Saved r1 \<and> \<not> sv_Saved r2"
proof -
  let ?t = "SavedVideo_ToggleSaveVideo test_env ''u'' ''v''"
  let ?w1 = "snd (?t init_world)"
  have e: "fst (?t init_world) = Inr \<lparr>sv_VideoID = ''v'', sv_Saved = True\<rparr>" "isl (fst (?t ?w1)) = False"
    by code_simp+
  obtain r2 w2 where t2: "?t ?w1 = (Inr r2, w2)" using e(2) by (cases "?t ?w1"; cases "fst (?t ?w1)") auto
  have t1: "?t init_world = (Inr \<lparr>sv_VideoID = ''v'', sv_Saved = True\<rparr>, ?w1)" using e(1) by (metis prod.collapse)
  have "marks_ok (saved_videos (db init_world))" by (simp add: marks_ok_def init_world_def empty_db_def)
  note inv = save_toggle_involution [OF this t1 t2]
  show ?thesis using inv by (intro exI conjI) (rule t1, rule t2, simp_all)
qed

end
