(* ===== verification/Views.thy ===== *)
theory Views
  imports Videos
begin

text \<open>
  View counting: \<^verbatim>\<open>internal/repo/persistent/view\<close>.  A view is counted in Redis once per video,
  client address and device within a minute, and tallied in the bucket of its day for the trending
  ranking.  Without Redis the view goes straight to the column of the video.
\<close>

section \<open>Replies\<close>

text \<open>What the client's \<^verbatim>\<open>Result()\<close> makes of a reply; a reply of another type is an error.\<close>

definition as_bool :: "redis_reply \<Rightarrow> bool res" where
  "as_bool r = (case r of RBool b \<Rightarrow> Inr b | RErr m \<Rightarrow> Inl (ExtErr m) | _ \<Rightarrow> Inl (ExtErr ''redis: unexpected type''))"

definition as_int :: "redis_reply \<Rightarrow> int res" where
  "as_int r = (case r of RInt n \<Rightarrow> Inr n | RErr m \<Rightarrow> Inl (ExtErr m) | _ \<Rightarrow> Inl (ExtErr ''redis: unexpected type''))"

definition as_str :: "redis_reply \<Rightarrow> string res" where
  "as_str r = (case r of RStr s \<Rightarrow> Inr s | RNil \<Rightarrow> Inl (ExtErr ''redis: nil'') | RErr m \<Rightarrow> Inl (ExtErr m)
     | _ \<Rightarrow> Inl (ExtErr ''redis: unexpected type''))"

definition as_list :: "redis_reply \<Rightarrow> string list res" where
  "as_list r = (case r of RList xs \<Rightarrow> Inr xs | RErr m \<Rightarrow> Inl (ExtErr m) | _ \<Rightarrow> Inl (ExtErr ''redis: unexpected type''))"

definition as_unit :: "redis_reply \<Rightarrow> unit res" where
  "as_unit r = (case r of RErr m \<Rightarrow> Inl (ExtErr m) | _ \<Rightarrow> Inr ())"

definition as_scan :: "redis_reply \<Rightarrow> (string list \<times> nat) res" where
  "as_scan r = (case r of RScan ks c \<Rightarrow> Inr (ks, c) | RErr m \<Rightarrow> Inl (ExtErr m) | _ \<Rightarrow> Inl (ExtErr ''redis: unexpected type''))"

section \<open>Repository\<close>

definition trendingKeyTTL :: int where
  "trendingKeyTTL = 9 * 24 * 3600 * 1000000"

definition trendingKey :: "time \<Rightarrow> string" where
  "trendingKey day = ''trending:views:'' @ format_date day"

definition view_key :: "string \<Rightarrow> string" where
  "view_key videoID = ''video_views:'' @ videoID"

definition dedup_key :: "env \<Rightarrow> string \<Rightarrow> string \<Rightarrow> string \<Rightarrow> string" where
  "dedup_key E videoID clientIP deviceID =
     ''view_dedup:'' @ videoID @ '':'' @ fp_hash E (clientIP @ '':'' @ deviceID)"

definition recordViewFallback :: "env \<Rightarrow> string \<Rightarrow> world \<Rightarrow> (bool \<times> int) res \<times> world" where
  "recordViewFallback E videoID w =
     (case Exec E (add_views videoID 1) w of
        (Inl err, w) \<Rightarrow> (Inl err, w)
      | (Inr _, w) \<Rightarrow> (Inr (True, 1), w))"

definition ViewRepo_RecordView :: "env \<Rightarrow> string \<Rightarrow> string \<Rightarrow> string \<Rightarrow> world \<Rightarrow> (bool \<times> int) res \<times> world" where
  "ViewRepo_RecordView E videoID clientIP deviceID w =
     (if \<not> has_redis E then recordViewFallback E videoID w
      else case redis_do E (SetNX (dedup_key E videoID clientIP deviceID) ''1'' 60000000) w of (r, w) \<Rightarrow>
        (case as_bool r of
           Inl err \<Rightarrow> (Inl (Errorf ''ViewRepo - RecordView - SetNX'' err), w)
         | Inr False \<Rightarrow>
             (case redis_do E (Get (view_key videoID)) w of (r, w) \<Rightarrow>
                (Inr (False, case as_str r of Inl _ \<Rightarrow> ParseInt_value [] | Inr s \<Rightarrow> ParseInt_value s), w))
         | Inr True \<Rightarrow>
             (case redis_do E (Incr (view_key videoID)) w of (r, w) \<Rightarrow>
                (case as_int r of
                   Inl err \<Rightarrow> (Inl (Errorf ''ViewRepo - RecordView - Incr'' err), w)
                 | Inr newViews \<Rightarrow>
                     (case Now E w of (now, w) \<Rightarrow>
                      case redis_do E (ZIncrBy_Expire (trendingKey now) videoID trendingKeyTTL) w of (_, w) \<Rightarrow>
                        (Inr (True, newViews), w))))))"

definition ViewRepo_GetTrendingVideoIDs :: "env \<Rightarrow> int \<Rightarrow> int \<Rightarrow> world \<Rightarrow> string list res \<times> world" where
  "ViewRepo_GetTrendingVideoIDs E days limit w =
     (if \<not> has_redis E \<or> days \<le> 0 \<or> limit \<le> 0 then (Inr [], w)
      else case Now E w of (now, w) \<Rightarrow>
        let keys = map (\<lambda>i. trendingKey (now - int i * 86400000000)) [0..<nat days] in
        if length keys > 1 then
          let rankKey = ''trending:union:'' @ itoa (1000 * now) in
          (case redis_do E (ZUnionStore rankKey keys) w of (r, w) \<Rightarrow>
             (case as_unit r of
                Inl err \<Rightarrow> (Inl (Errorf ''ViewRepo - GetTrendingVideoIDs - ZUnionStore'' err), w)
              | Inr _ \<Rightarrow>
                  (case redis_do E (ZRevRange rankKey 0 (limit - 1)) w of (r, w) \<Rightarrow>
                   case redis_do E (Del rankKey) w of (_, w) \<Rightarrow>
                     (case as_list r of
                        Inl err \<Rightarrow> (Inl (Errorf ''ViewRepo - GetTrendingVideoIDs - ZRevRange'' err), w)
                      | Inr ids \<Rightarrow> (Inr ids, w)))))
        else
          (case redis_do E (ZRevRange (hd keys) 0 (limit - 1)) w of (r, w) \<Rightarrow>
             (case as_list r of
                Inl err \<Rightarrow> (Inl (Errorf ''ViewRepo - GetTrendingVideoIDs - ZRevRange'' err), w)
              | Inr ids \<Rightarrow> (Inr ids, w))))"

definition ViewRepo_GetPendingViewsForVideo :: "env \<Rightarrow> string \<Rightarrow> world \<Rightarrow> int \<times> world" where
  "ViewRepo_GetPendingViewsForVideo E videoID w =
     (if \<not> has_redis E then (0, w)
      else case redis_do E (Get (view_key videoID)) w of (r, w) \<Rightarrow>
        (case as_str r of Inl _ \<Rightarrow> (0, w) | Inr s \<Rightarrow> (ParseInt_value s, w)))"

text \<open>The inner loop of \<^verbatim>\<open>GetPendingViews\<close>; the result map is an association list, newest first.\<close>

fun pending_of_keys :: "env \<Rightarrow> string list \<Rightarrow> (string \<times> int) list \<Rightarrow> world \<Rightarrow> (string \<times> int) list \<times> world" where
  "pending_of_keys E [] acc w = (acc, w)"
| "pending_of_keys E (k # ks) acc w =
     (let videoID = (if HasPrefix k ''video_views:'' then drop 12 k else k) in
      case redis_do E (Get k) w of (r, w) \<Rightarrow>
        (case as_str r of
           Inl _ \<Rightarrow> pending_of_keys E ks acc w
         | Inr s \<Rightarrow>
             (case ParseInt s of
                NumOk n \<Rightarrow> if n > 0 then pending_of_keys E ks ((videoID, n) # filter (\<lambda>p. fst p \<noteq> videoID) acc) w
                           else pending_of_keys E ks acc w
              | _ \<Rightarrow> pending_of_keys E ks acc w)))"

text \<open>The outer loop runs until the server answers cursor 0; \<^const>\<open>None\<close> is a run that never ends.\<close>

partial_function (option) pending_scan ::
  "env \<Rightarrow> nat \<Rightarrow> (string \<times> int) list \<Rightarrow> world \<Rightarrow> ((string \<times> int) list res \<times> world) option" where
  "pending_scan E cursor acc w =
     (case redis_do E (Scan cursor ''video_views:*'' 100) w of (r, w) \<Rightarrow>
        (case as_scan r of
           Inl err \<Rightarrow> Some (Inl (Errorf ''ViewRepo - GetPendingViews - Scan'' err), w)
         | Inr (keys, cursor) \<Rightarrow>
             (case pending_of_keys E keys acc w of (acc, w) \<Rightarrow>
                if cursor = 0 then Some (Inr acc, w) else pending_scan E cursor acc w)))"

definition ViewRepo_GetPendingViews :: "env \<Rightarrow> world \<Rightarrow> ((string \<times> int) list res \<times> world) option" where
  "ViewRepo_GetPendingViews E w = (if \<not> has_redis E then Some (Inr [], w) else pending_scan E 0 [] w)"

text \<open>\<^verbatim>\<open>SyncBatchViewsToPostgres\<close>: the argument lists the map in its iteration order.\<close>

fun sync_views :: "env \<Rightarrow> (string \<times> int) list \<Rightarrow> world \<Rightarrow> unit res \<times> world" where
  "sync_views E [] w = (Inr (), w)"
| "sync_views E ((videoID, viewIncrement) # ps) w =
     (case Exec E (add_views videoID viewIncrement) w of
        (Inl err, w) \<Rightarrow> (Inl (Errorf ''ViewRepo - SyncBatchViewsToPostgres - Exec'' err), w)
      | (Inr _, w) \<Rightarrow>
          if has_redis E
          then (case redis_do E (DecrBy (view_key videoID) viewIncrement) w of (_, w) \<Rightarrow> sync_views E ps w)
          else sync_views E ps w)"

definition ViewRepo_SyncBatchViewsToPostgres :: "env \<Rightarrow> (string \<times> int) list \<Rightarrow> world \<Rightarrow> unit res \<times> world" where
  "ViewRepo_SyncBatchViewsToPostgres E pendingViews w =
     (if pendingViews = [] then (Inr (), w)
      else case Begin E w of
        (Inl err, w) \<Rightarrow> (Inl (Errorf ''ViewRepo - SyncBatchViewsToPostgres - Begin'' err), w)
      | (Inr _, w) \<Rightarrow>
          let d0 = db w in
          (case sync_views E pendingViews w of
             (Inl err, w) \<Rightarrow> (Inl err, Rollback d0 w)
           | (Inr _, w) \<Rightarrow>
               (case Commit E w of
                  (Inl err, w) \<Rightarrow> (Inl (Errorf ''ViewRepo - SyncBatchViewsToPostgres - Commit'' err), Rollback d0 w)
                | (Inr _, w) \<Rightarrow> (Inr (), w))))"

section \<open>Effects\<close>

text \<open>Operations that talk to Redis and the database leave the hubs, the goroutines, the jobs and the
  livestream timers alone.\<close>

definition data_only :: "world \<Rightarrow> world \<Rightarrow> bool" where
  "data_only w w' \<longleftrightarrow> w' = w\<lparr>tick := tick w', db := db w', rlog := rlog w'\<rparr>"

lemma data_only_refl [simp]: "data_only w w"
  by (simp add: data_only_def)

lemma data_only_trans: "data_only w w1 \<Longrightarrow> data_only w1 w2 \<Longrightarrow> data_only w w2"
  by (cases w; cases w1; cases w2) (auto simp: data_only_def)

lemma data_only_bump [simp]: "data_only w (bump w') \<longleftrightarrow> data_only w w'" "data_only (bump w) w' \<longleftrightarrow> data_only w w'"
  by (cases w; cases w'; auto simp: data_only_def bump_def)+

lemma only_db_data: "only_db w w' \<Longrightarrow> data_only w w'"
  by (cases w; cases w') (auto simp: data_only_def only_db_def)

lemma redis_do_data: "redis_do E c w = (r, w') \<Longrightarrow> data_only w w' \<and> db w' = db w"
  by (cases w) (auto simp: redis_do_def data_only_def bump_def)

lemma ViewRepo_RecordView_effect:
  assumes "ViewRepo_RecordView E v ip dev w = (r, w')"
  shows "data_only w w' \<and> runs video_stmts (db w) (db w')"
proof (cases "has_redis E")
  case True
  then have "data_only w w' \<and> db w' = db w"
    using assms
    by (auto simp: ViewRepo_RecordView_def Now_def redis_do_def data_only_def bump_def
        split: prod.splits sum.splits bool.splits)
  then show ?thesis by simp
next
  case False
  then have "recordViewFallback E v w = (r, w')" using assms by (simp add: ViewRepo_RecordView_def)
  then have "effect video_stmts w w'"
    by (auto simp: recordViewFallback_def split: prod.splits sum.splits intro: Exec_effect)
  then show ?thesis by (simp add: effect_def only_db_data)
qed

lemma ViewRepo_GetTrendingVideoIDs_data:
  "ViewRepo_GetTrendingVideoIDs E days l w = (r, w') \<Longrightarrow> data_only w w' \<and> db w' = db w"
  by (auto simp: ViewRepo_GetTrendingVideoIDs_def Now_def redis_do_def data_only_def bump_def Let_def
      split: prod.splits sum.splits if_splits)

lemma ViewRepo_GetPendingViewsForVideo_data:
  "ViewRepo_GetPendingViewsForVideo E v w = (r, w') \<Longrightarrow> data_only w w' \<and> db w' = db w"
  by (auto simp: ViewRepo_GetPendingViewsForVideo_def redis_do_def data_only_def bump_def split: sum.splits if_splits)

section \<open>What the code relies on of Redis\<close>

text \<open>
  A \<^verbatim>\<open>SETNX\<close> with an expiry that succeeded keeps later ones on its key from succeeding until the expiry,
  unless the key is deleted.
\<close>

definition redis_setnx_law :: "env \<Rightarrow> bool" where
  "redis_setnx_law E \<longleftrightarrow>
     (\<forall>lg1 t0 k v ttl lg2 t v' ttl'.
        redis E lg1 t0 (SetNX k v ttl) = RBool True \<and> (\<forall>(t1, c) \<in> set lg2. t1 \<le> t \<and> c \<noteq> Del k) \<and> t < t0 + ttl \<longrightarrow>
        redis E (lg1 @ (t0, SetNX k v ttl) # lg2) t (SetNX k v' ttl') = RBool False)"

definition writes :: "string \<Rightarrow> redis_cmd \<Rightarrow> bool" where
  "writes k c \<longleftrightarrow> (case c of SetNX k' _ _ \<Rightarrow> k' = k | Incr k' \<Rightarrow> k' = k | Decr k' \<Rightarrow> k' = k
     | DecrBy k' _ \<Rightarrow> k' = k | Del k' \<Rightarrow> k' = k | _ \<Rightarrow> False)"

text \<open>The value of a counter that carries no expiry is what the last \<^verbatim>\<open>INCR\<close> answered.\<close>

definition redis_counter_law :: "env \<Rightarrow> bool" where
  "redis_counter_law E \<longleftrightarrow>
     (\<forall>lg1 t0 k n lg2 t.
        redis E lg1 t0 (Incr k) = RInt n \<and> (\<forall>(t1, c) \<in> set lg1. \<forall>v ttl. c \<noteq> SetNX k v ttl) \<and>
        (\<forall>(t1, c) \<in> set lg2. \<not> writes k c) \<longrightarrow>
        redis E (lg1 @ (t0, Incr k) # lg2) t (Get k) = RStr (itoa n))"

text \<open>The reference server has both properties.\<close>

definition holds_until :: "time \<Rightarrow> string \<Rightarrow> redis_state \<Rightarrow> bool" where
  "holds_until D k s \<longleftrightarrow>
     (\<exists>v dl. map_of (rs_val s) k = Some (v, dl) \<and> (case dl of None \<Rightarrow> True | Some D' \<Rightarrow> D \<le> D'))"

lemma map_of_filter_key: "map_of (filter (\<lambda>x. fst x \<noteq> k') xs) k = (if k = k' then None else map_of xs k)"
  by (induction xs) auto

lemma holds_until_live: "holds_until D k s \<Longrightarrow> t < D \<Longrightarrow> live t s k \<noteq> None"
  by (auto simp: holds_until_def live_def split: option.splits)

lemma holds_until_set_val: "holds_until D k s \<Longrightarrow> k' \<noteq> k \<or> dl = None \<Longrightarrow> holds_until D k (set_val k' v dl s)"
  by (auto simp: holds_until_def set_val_def map_of_filter_key)

lemma holds_until_zput [simp]: "holds_until D k (zput z m s) = holds_until D k s"
  by (simp add: holds_until_def zput_def)

lemma holds_until_exec:
  assumes "holds_until D k s" "t < D" "c \<noteq> Del k"
  shows "holds_until D k (snd (redis_exec t c s))"
proof (cases c)
  case (SetNX k' v ttl)
  then show ?thesis
    using assms holds_until_live [OF assms(1,2)]
    by (cases "k' = k") (auto simp: redis_exec_def holds_until_set_val split: option.splits)
next
  case (Del k')
  then show ?thesis using assms by (auto simp: redis_exec_def holds_until_def map_of_filter_key)
qed (use assms in \<open>auto simp: redis_exec_def Let_def holds_until_set_val\<close>)

lemma holds_until_fold:
  "holds_until D k s \<Longrightarrow> (\<forall>(t1, c) \<in> set lg. t1 < D \<and> c \<noteq> Del k) \<Longrightarrow>
   holds_until D k (fold (\<lambda>(t, c) s. snd (redis_exec t c s)) lg s)"
  by (induction lg arbitrary: s) (auto simp: holds_until_exec)

lemma test_env_setnx: "redis_setnx_law test_env"
  unfolding redis_setnx_law_def
proof (intro allI impI)
  fix lg1 :: redis_log and t0 k v ttl and lg2 :: redis_log and t v' ttl'
  let ?step = "\<lambda>(t, c) s. snd (redis_exec t c s)"
  assume a: "redis test_env lg1 t0 (SetNX k v ttl) = RBool True \<and>
    (\<forall>(t1, c) \<in> set lg2. t1 \<le> t \<and> c \<noteq> Del k) \<and> t < t0 + ttl"
  let ?s = "redis_replay lg1"
  have "live t0 ?s k = None" using a by (auto simp: test_env_def redis_ref_def redis_exec_def split: option.splits)
  then have "holds_until (t0 + ttl) k (snd (redis_exec t0 (SetNX k v ttl) ?s))"
    by (simp add: redis_exec_def holds_until_def set_val_def)
  from holds_until_fold [OF this, of lg2] a
  have "holds_until (t0 + ttl) k (redis_replay (lg1 @ (t0, SetNX k v ttl) # lg2))"
    by (force simp: redis_replay_def)
  from holds_until_live [OF this, of t] a
  show "redis test_env (lg1 @ (t0, SetNX k v ttl) # lg2) t (SetNX k v' ttl') = RBool False"
    by (auto simp: test_env_def redis_ref_def redis_exec_def split: option.splits)
qed

lemma exec_not_writes:
  "\<not> writes k c \<Longrightarrow> map_of (rs_val (snd (redis_exec t c s))) k = map_of (rs_val s) k"
  by (auto simp: writes_def redis_exec_def Let_def set_val_def zput_def map_of_filter_key
      split: redis_cmd.splits option.splits)

lemma fold_not_writes:
  "(\<forall>(t1, c) \<in> set lg. \<not> writes k c) \<Longrightarrow>
   map_of (rs_val (fold (\<lambda>(t, c) s. snd (redis_exec t c s)) lg s)) k = map_of (rs_val s) k"
  by (induction lg arbitrary: s) (auto simp: exec_not_writes)

lemma test_env_counter: "redis_counter_law test_env"
  unfolding redis_counter_law_def
proof (intro allI impI)
  fix lg1 :: redis_log and t0 k n and lg2 :: redis_log and t
  assume a: "redis test_env lg1 t0 (Incr k) = RInt n \<and> (\<forall>(t1, c) \<in> set lg1. \<forall>v ttl. c \<noteq> SetNX k v ttl) \<and>
    (\<forall>(t1, c) \<in> set lg2. \<not> writes k c)"
  let ?s = "snd (redis_exec t0 (Incr k) (redis_replay lg1))"
  have "map_of (rs_val (redis_replay (lg1 @ (t0, Incr k) # lg2))) k = map_of (rs_val ?s) k"
    using fold_not_writes [of lg2 k ?s] a by (simp add: redis_replay_def)
  moreover have "map_of (rs_val ?s) k = Some (itoa n, None)"
    using a by (simp add: test_env_def redis_ref_def redis_exec_def Let_def set_val_def)
  ultimately show "redis test_env (lg1 @ (t0, Incr k) # lg2) t (Get k) = RStr (itoa n)"
    by (simp add: test_env_def redis_ref_def redis_exec_def live_def)
qed

section \<open>Properties\<close>

lemma RecordView_new_log:
  assumes "has_redis E" "ViewRepo_RecordView E v ip dev w = (Inr (True, n), w1)"
  shows "rlog w1 = rlog w @
     [(clock E (tick w), SetNX (dedup_key E v ip dev) ''1'' 60000000),
      (clock E (tick w + 1), Incr (view_key v)),
      (clock E (tick w + 3), ZIncrBy_Expire (trendingKey (clock E (tick w + 2))) v trendingKeyTTL)] \<and>
     redis E (rlog w) (clock E (tick w)) (SetNX (dedup_key E v ip dev) ''1'' 60000000) = RBool True \<and>
     redis E (rlog w @ [(clock E (tick w), SetNX (dedup_key E v ip dev) ''1'' 60000000)])
       (clock E (tick w + 1)) (Incr (view_key v)) = RInt n"
  using assms
  by (auto simp: ViewRepo_RecordView_def redis_do_def Now_def as_bool_def as_int_def eval_nat_numeral
      split: sum.splits bool.splits redis_reply.splits)

lemma dedup_not_view: "dedup_key E v ip dev \<noteq> view_key x"
  by (simp add: dedup_key_def view_key_def)



lemma add_views_row_at:
  assumes "add_views i k d = Inr (n, d')"
  shows "row_at vd_id j (videos d') =
     (if j = i then map_option (\<lambda>r. r\<lparr>vd_views := vd_views r + k\<rparr>) (row_at vd_id j (videos d)) else row_at vd_id j (videos d))"
  unfolding add_views_Inr(1) [OF assms]
  by (subst row_at_update) (auto split: option.splits dest: row_at_Some)

definition views_added :: "(string \<times> int) list \<Rightarrow> video_row option \<Rightarrow> string \<Rightarrow> video_row option" where
  "views_added ps x j =
     map_option (\<lambda>r. r\<lparr>vd_views := vd_views r + (case map_of ps j of None \<Rightarrow> 0 | Some k \<Rightarrow> k)\<rparr>) x"

lemma sync_views_rows:
  assumes "sync_views E ps w = (Inr x, w')" "distinct (map fst ps)"
  shows "row_at vd_id j (videos (db w')) = views_added ps (row_at vd_id j (videos (db w))) j"
  using assms
proof (induction E ps w rule: sync_views.induct)
  case (1 E w)
  then show ?case by (cases "row_at vd_id j (videos (db w))") (auto simp: views_added_def)
next
  case (2 E i k ps w)
  from 2(3) obtain n w1 where ex: "Exec E (add_views i k) w = (Inr n, w1)"
    by (auto split: prod.splits sum.splits)
  then obtain d where d: "add_views i k (db w) = Inr (n, d)" "db w1 = d" by (auto elim!: Exec_cases)
  have "row_at vd_id j (videos (db w')) = views_added ps (row_at vd_id j (videos (db w1))) j"
    using 2 ex by (auto simp: redis_do_def split: if_splits)
  moreover have "j = i \<Longrightarrow> map_of ps j = None" using 2(4) by (simp add: map_of_eq_None_iff)
  ultimately show ?case
    using add_views_row_at [OF d(1), of j] d(2)
    by (cases "row_at vd_id j (videos (db w))") (auto simp: views_added_def)
qed

text \<open>C30: moving the pending views to the database is all or nothing, whatever fails: an error
  leaves the database as it was, and a success adds to every video exactly its pending number.\<close>

theorem sync_views_all_or_nothing:
  "(\<forall>e w'. ViewRepo_SyncBatchViewsToPostgres E ps w = (Inl e, w') \<longrightarrow> db w' = db w) \<and>
   (\<forall>w' j. distinct (map fst ps) \<and> ViewRepo_SyncBatchViewsToPostgres E ps w = (Inr (), w') \<longrightarrow>
      row_at vd_id j (videos (db w')) = views_added ps (row_at vd_id j (videos (db w))) j)"
proof (intro conjI allI impI)
  have begin_db: "Begin E w = (r, w1) \<Longrightarrow> db w1 = db w" for r w w1
    by (auto simp: Begin_def split: option.splits)
  fix e w'
  assume "ViewRepo_SyncBatchViewsToPostgres E ps w = (Inl e, w')"
  then show "db w' = db w"
    by (auto simp: ViewRepo_SyncBatchViewsToPostgres_def Rollback_def Let_def
        split: if_splits prod.splits sum.splits dest!: begin_db)
next
  have begin_db: "Begin E w = (r, w1) \<Longrightarrow> db w1 = db w" for r w w1
    by (auto simp: Begin_def split: option.splits)
  fix w' j
  assume a: "distinct (map fst ps) \<and> ViewRepo_SyncBatchViewsToPostgres E ps w = (Inr (), w')"
  show "row_at vd_id j (videos (db w')) = views_added ps (row_at vd_id j (videos (db w))) j"
  proof (cases "ps = []")
    case True
    then show ?thesis using a
      by (cases "row_at vd_id j (videos (db w))") (auto simp: ViewRepo_SyncBatchViewsToPostgres_def views_added_def)
  next
    case False
    then obtain w1 w2 where "Begin E w = (Inr (), w1)" "sync_views E ps w1 = (Inr (), w2)" "Commit E w2 = (Inr (), w')"
      using a by (auto simp: ViewRepo_SyncBatchViewsToPostgres_def Let_def split: prod.splits sum.splits)
    then show ?thesis
      using sync_views_rows [of E ps w1 "()" w2 j] a by (auto simp: Commit_def dest!: begin_db)
  qed
qed

definition clip :: video_row where
  "clip = \<lparr>vd_id = ''v'', vd_user_id = ''u-ann'', vd_title = ''T'', vd_description = [], vd_category = ''General'',
     vd_status = VideoStatusComplete, vd_visibility = VideoVisibilityPublic, vd_raw_s3_key = ''k'', vd_hls_url = ''h'',
     vd_thumbnail_url = [], vd_duration = ''00:10'', vd_is_reel = False, vd_views = 7, vd_created_at = 0, vd_updated_at = 0\<rparr>"

definition clip_world :: world where
  "clip_world = ann_world\<lparr>db := empty_db\<lparr>users := [ann], videos := [clip]\<rparr>\<rparr>"

theorem sync_views_all_or_nothing_witness:
  "\<exists>w'. ViewRepo_SyncBatchViewsToPostgres test_env [(''v'', 5)] clip_world = (Inr (), w') \<and>
     row_at vd_id ''v'' (videos (db w')) = Some (clip\<lparr>vd_views := 12\<rparr>)"
proof -
  let ?r = "ViewRepo_SyncBatchViewsToPostgres test_env [(''v'', 5)] clip_world"
  have "fst ?r = Inr ()" by code_simp
  then obtain w' where r: "?r = (Inr (), w')" by (cases ?r) simp
  with sync_views_all_or_nothing [of test_env "[(''v'', 5)]" clip_world]
  have "row_at vd_id ''v'' (videos (db w')) = views_added [(''v'', 5)] (row_at vd_id ''v'' (videos (db clip_world))) ''v''"
    by simp
  then show ?thesis using r by (simp add: views_added_def clip_world_def clip_def)
qed

text \<open>The pending counts in Redis are taken down before the commit: when it fails, the views are gone
  from Redis and were never added to the database.\<close>

lemma sync_failure_loses_views:
  "let E = test_env\<lparr>pg_fail := \<lambda>n. if n = 3 then Some ''commit'' else None\<rparr>;
       r = ViewRepo_SyncBatchViewsToPostgres E [(''v'', 5)] clip_world
   in isl (fst r) \<and> videos (db (snd r)) = videos (db clip_world) \<and>
      map snd (rlog (snd r)) = [DecrBy (view_key ''v'') 5]"
  by code_simp

end
