(* ===== verification/Likes.thy ===== *)
theory Likes
  imports Marks Views
begin

text \<open>
  Likes of videos and hearts of livestreams: \<^verbatim>\<open>internal/repo/persistent/like\<close> and
  \<^verbatim>\<open>internal/mapper/like.go\<close>.  Unlike the other toggles this repository ignores the outcome of its
  insertion and of its deletion, and answers a counter kept in Redis.
\<close>

section \<open>Table likes\<close>

definition insert_like :: "mark_row \<Rightarrow> stmt" where
  "insert_like m d = map_sum id (\<lambda>ms. (1, d\<lparr>likes := ms\<rparr>)) (add_mark m (likes d))"

definition delete_like :: "string \<Rightarrow> stmt" where
  "delete_like i d =
     Inr (length (filter (\<lambda>m. mk_id m = i) (likes d)), d\<lparr>likes := sql_delete (\<lambda>m. mk_id m = i) (likes d)\<rparr>)"

definition like_stmts :: "stmt set" where
  "like_stmts = range insert_like \<union> range delete_like"

lemma like_stmtsI [simp, intro]: "insert_like m \<in> like_stmts" "delete_like i \<in> like_stmts"
  by (simp_all add: like_stmts_def)

lemma insert_like_Inr:
  "insert_like m d = Inr (n, d') \<longleftrightarrow> n = 1 \<and> (\<exists>ms. add_mark m (likes d) = Inr ms \<and> d' = d\<lparr>likes := ms\<rparr>)"
  by (cases "add_mark m (likes d)") (auto simp: insert_like_def)

lemma like_stmts_ok: "s \<in> like_stmts \<Longrightarrow> marks_ok (likes d) \<Longrightarrow> s d = Inr (n, d') \<Longrightarrow> marks_ok (likes d')"
  by (auto simp: like_stmts_def insert_like_Inr delete_like_def add_mark_ok del_mark_ok)

lemma like_stmts_frame: "s \<in> like_stmts \<Longrightarrow> s d = Inr (n, d') \<Longrightarrow> d' = d\<lparr>likes := likes d'\<rparr>"
  by (auto simp: like_stmts_def insert_like_Inr delete_like_def)

section \<open>Repository and mapper\<close>

definition ToLikeEntity :: "string \<Rightarrow> string \<Rightarrow> VideoLike" where
  "ToLikeEntity userID videoID =
     \<lparr>vl_ID = userID @ '':'' @ videoID, vl_VideoID = videoID, vl_UserID = userID, vl_CreatedAt = 0\<rparr>"

definition ToLikeResponse :: "string \<Rightarrow> bool \<Rightarrow> int \<Rightarrow> LikeToggleResponse" where
  "ToLikeResponse videoID liked totalLikes = \<lparr>lt_ID = videoID, lt_Liked = liked, lt_TotalLikes = totalLikes\<rparr>"

definition ToHeartResponse :: "string \<Rightarrow> int \<Rightarrow> HeartResponse" where
  "ToHeartResponse streamID totalHearts = \<lparr>ht_StreamID = streamID, ht_TotalHearts = totalHearts\<rparr>"

text \<open>The value of \<^verbatim>\<open>n, _ := ...\<close> when the call fails is 0.\<close>

definition or_zero :: "int res \<Rightarrow> int" where
  "or_zero r = (case r of Inl _ \<Rightarrow> 0 | Inr n \<Rightarrow> n)"

definition LikeRepo_ToggleLike :: "env \<Rightarrow> VideoLike \<Rightarrow> world \<Rightarrow> (bool \<times> int) res \<times> world" where
  "LikeRepo_ToggleLike E l w =
     (case (case QueryRow E (\<lambda>d. Inr (map_option mk_id (mark_find (vl_UserID l) (vl_VideoID l) (likes d)))) w of
              (Inl _, w) \<Rightarrow>
                (case Now E w of (now, w) \<Rightarrow>
                   (True, snd (Exec E (insert_like \<lparr>mk_id = vl_ID l, mk_target_id = vl_VideoID l,
                                        mk_user_id = vl_UserID l, mk_created_at = now\<rparr>) w)))
            | (Inr existingID, w) \<Rightarrow> (False, snd (Exec E (delete_like existingID) w))) of (liked, w) \<Rightarrow>
        (case (if has_redis E
               then (case redis_do E (if liked then Incr (''video_likes:'' @ vl_VideoID l)
                                      else Decr (''video_likes:'' @ vl_VideoID l)) w of (r, w) \<Rightarrow> (or_zero (as_int r), w))
               else (case QueryRow E (\<lambda>d. Inr (Some (mark_count (vl_VideoID l) (likes d)))) w of (r, w) \<Rightarrow> (or_zero r, w))) of
           (totalLikes, w) \<Rightarrow> (Inr (liked, if totalLikes < 0 then 0 else totalLikes), w)))"

definition LikeRepo_IncrementHeart :: "env \<Rightarrow> string \<Rightarrow> world \<Rightarrow> int res \<times> world" where
  "LikeRepo_IncrementHeart E streamID w =
     (if has_redis E
      then (case redis_do E (Incr (''stream_hearts:'' @ streamID)) w of (r, w) \<Rightarrow> (as_int r, w))
      else (Inr 1, w))"

definition LikeRepo_GetLikeCount :: "env \<Rightarrow> string \<Rightarrow> world \<Rightarrow> int res \<times> world" where
  "LikeRepo_GetLikeCount E videoID w =
     (case QueryRow E (\<lambda>d. Inr (Some (mark_count videoID (likes d)))) w of
        (Inl err, w) \<Rightarrow> (Inl (Errorf ''LikeRepo - GetLikeCount - QueryRow'' err), w)
      | (Inr n, w) \<Rightarrow> (Inr n, w))"

definition LikeRepo_IsLikedByUser :: "env \<Rightarrow> string \<Rightarrow> string \<Rightarrow> world \<Rightarrow> bool res \<times> world" where
  "LikeRepo_IsLikedByUser E videoID userID w =
     (if userID = [] then (Inr False, w)
      else case QueryRow E (\<lambda>d. Inr (mark_find userID videoID (likes d))) w of
             (Inl err, w) \<Rightarrow>
               if errors_Is err ErrNoRows then (Inr False, w)
               else (Inl (Errorf ''LikeRepo - IsLikedByUser - QueryRow'' err), w)
           | (Inr _, w) \<Rightarrow> (Inr True, w))"

section \<open>Use case (likes)\<close>

definition Like_ToggleLikeVideo :: "env \<Rightarrow> string \<Rightarrow> string \<Rightarrow> world \<Rightarrow> LikeToggleResponse res \<times> world" where
  "Like_ToggleLikeVideo E userID videoID w =
     (case LikeRepo_ToggleLike E (ToLikeEntity userID videoID) w of
        (Inl err, w) \<Rightarrow> (Inl (Errorf ''LikeUseCase - ToggleLikeVideo'' err), w)
      | (Inr (liked, totalLikes), w) \<Rightarrow> (Inr (ToLikeResponse videoID liked totalLikes), w))"

section \<open>Effects\<close>

lemma LikeRepo_reads_quiet:
  "LikeRepo_GetLikeCount E v w = (r1, w') \<Longrightarrow> quiet w w'"
  "LikeRepo_IsLikedByUser E v u w = (r2, w') \<Longrightarrow> quiet w w'"
  by (auto simp: LikeRepo_GetLikeCount_def LikeRepo_IsLikedByUser_def
      split: prod.splits sum.splits if_splits dest!: driver_bump)

lemma Exec_snd_effect: "s \<in> S \<Longrightarrow> effect S w (snd (Exec E s w))"
  by (cases "Exec E s w") (auto intro: Exec_effect)

text \<open>The part of a toggle that writes the table, and the world it leaves.\<close>

lemma LikeRepo_ToggleLike_data:
  assumes "LikeRepo_ToggleLike E l w = (r, w')"
  shows "data_only w w' \<and> runs like_stmts (db w) (db w')"
proof -
  let ?p = "case QueryRow E (\<lambda>d. Inr (map_option mk_id (mark_find (vl_UserID l) (vl_VideoID l) (likes d)))) w of
              (Inl _, w) \<Rightarrow>
                (case Now E w of (now, w) \<Rightarrow>
                   (True, snd (Exec E (insert_like \<lparr>mk_id = vl_ID l, mk_target_id = vl_VideoID l,
                                        mk_user_id = vl_UserID l, mk_created_at = now\<rparr>) w)))
            | (Inr existingID, w) \<Rightarrow> (False, snd (Exec E (delete_like existingID) w))"
  have "effect like_stmts w (snd ?p)"
    by (auto simp: Now_def split: prod.splits sum.splits dest!: driver_bump)
      (use Exec_snd_effect [of _ like_stmts "bump w"] Exec_snd_effect [of _ like_stmts "bump (bump w)"] in auto)
  then have e: "data_only w (snd ?p)" "runs like_stmts (db w) (db (snd ?p))"
    by (simp_all add: effect_def only_db_data)
  obtain liked w1 where p: "?p = (liked, w1)" by (cases ?p)
  have "data_only w1 w' \<and> db w' = db w1"
    using assms unfolding LikeRepo_ToggleLike_def p
    by (auto split: prod.splits if_splits dest!: redis_do_data driver_bump)
  then show ?thesis using e p data_only_trans by auto
qed

section \<open>Properties\<close>

text \<open>C37: the row of a video like is keyed by \<^verbatim>\<open>userID:videoID\<close> in a column of 64 characters.  When
  user and video together are longer than 63 (two UUIDs are 72), liking a video that the user has not
  liked answers ``liked'' but stores nothing, so every further toggle answers ``liked'' again.\<close>

theorem long_video_likes_are_lost:
  assumes "mark_find userID videoID (likes (db w)) = None" "rune_count userID + rune_count videoID > 63"
  shows "\<exists>r w'. Like_ToggleLikeVideo E userID videoID w = (Inr r, w') \<and> lt_Liked r \<and> db w' = db w"
proof -
  have v: "\<not> mark_varchar \<lparr>mk_id = userID @ '':'' @ videoID, mk_target_id = videoID, mk_user_id = userID, mk_created_at = t\<rparr>" for t
    using assms(2) by (simp add: mark_varchar_def varchar_ok_def rune_count_append) (simp add: rune_count_def)
  have ins: "db (snd (Exec E (insert_like \<lparr>mk_id = userID @ '':'' @ videoID, mk_target_id = videoID, mk_user_id = userID, mk_created_at = t\<rparr>) x)) = db x" for t x
    using v by (simp add: Exec_def insert_like_def add_mark_def split: option.splits)
  obtain e where q: "QueryRow E (\<lambda>d. Inr (map_option mk_id (mark_find userID videoID (likes d)))) w = (Inl e, bump w)"
    using assms(1) by (cases "pg_fail E (tick w)") (auto simp: QueryRow_def)
  obtain r w' where t: "LikeRepo_ToggleLike E (ToLikeEntity userID videoID) w = (r, w')" by force
  then have "\<exists>n. r = Inr (True, n)" "db w' = db w"
    unfolding LikeRepo_ToggleLike_def ToLikeEntity_def
    by (auto simp: q Now_def ins split: prod.splits if_splits dest!: redis_do_data driver_bump simp del: append_Cons)
  with t show ?thesis by (auto simp: Like_ToggleLikeVideo_def ToLikeResponse_def)
qed

theorem long_video_likes_are_lost_witness:
  "\<exists>r w'. Like_ToggleLikeVideo test_env (test_uuid 1) (test_uuid 2) init_world = (Inr r, w') \<and> lt_Liked r \<and>
     db w' = db init_world"
proof -
  have "rune_count (test_uuid 1) + rune_count (test_uuid 2) > 63" by code_simp
  then show ?thesis
    by (intro long_video_likes_are_lost) (simp_all add: init_world_def empty_db_def mark_find_def)
qed

end
