(* ===== verification/VideoUse.thy ===== *)
theory VideoUse
  imports Likes
begin

text \<open>
  The video use case (\<^verbatim>\<open>internal/usecase/video\<close>): upload, transcode life cycle, publication, listing,
  trending and reels; with the job publisher (\<^verbatim>\<open>pkg/nats/publisher.go\<close>) it queues work on.
\<close>

section \<open>Jobs and goroutines\<close>

definition PublishTranscodeJob :: "env \<Rightarrow> string \<Rightarrow> string \<Rightarrow> string \<Rightarrow> world \<Rightarrow> unit res \<times> world" where
  "PublishTranscodeJob E videoID rawObjectKey userID w =
     (case nats_publish E (tick w) of
        Some m \<Rightarrow> (Inl (ExtErr m), bump w)
      | None \<Rightarrow> (Inr (), bump (w\<lparr>jobs := jobs w @ [\<lparr>tj_VideoID = videoID, tj_RawObjectKey = rawObjectKey, tj_UserID = userID\<rparr>]\<rparr>)))"

text \<open>\<^verbatim>\<open>go func() { _ = u.notifUc.NotifyFollowers(...) }()\<close>\<close>

definition go_notify :: "notify_call \<Rightarrow> world \<Rightarrow> world" where
  "go_notify c w = w\<lparr>spawned := spawned w @ [c]\<rparr>"

definition new_video_call :: "Video \<Rightarrow> notify_call" where
  "new_video_call v =
     \<lparr>nc_sender_id = v_UserID v, nc_sender_name = v_UserName v, nc_sender_avatar = v_UserAvatar v,
      nc_type = NotificationTypeNewVideo, nc_title = v_UserName v @ '' posted a new video'', nc_message = v_Title v,
      nc_target_url = ''/watch/'' @ v_ID v\<rparr>"

section \<open>Use case\<close>

definition Video_RecordView :: "env \<Rightarrow> string \<Rightarrow> string \<Rightarrow> string \<Rightarrow> world \<Rightarrow> (bool \<times> int) res \<times> world" where
  "Video_RecordView E videoID clientIP deviceID w =
     (if \<not> has_viewRepo E then (Inr (False, 0), w) else ViewRepo_RecordView E videoID clientIP deviceID w)"

definition Video_CreateUpload :: "env \<Rightarrow> string \<Rightarrow> CreateVideoUpload \<Rightarrow> world \<Rightarrow> UploadUrlResponse res \<times> world" where
  "Video_CreateUpload E userID req w =
     (let ext = ToLower (Ext (cvu_FileName req));
          ext = (if ext = [] then ''.mp4'' else ext)
      in if ext \<notin> set AllowedVideoExtensions then (Inl ErrUnsupportedVideoFormat, w)
         else case NewUUID E w of (videoID, w) \<Rightarrow>
           let s3Key = ''raw-uploads/'' @ videoID @ ''/raw'' @ ext in
           case Now E w of (t1, w) \<Rightarrow> case Now E w of (t2, w) \<Rightarrow>
           let v = (ToVideoEntity userID req videoID s3Key)\<lparr>v_CreatedAt := t1, v_UpdatedAt := t2\<rparr> in
           (case VideoRepo_Store E v w of
              (Inl err, w) \<Rightarrow> (Inl (Errorf ''VideoUseCase - CreateUpload - Store'' err), w)
            | (Inr _, w) \<Rightarrow>
                (Inr \<lparr>up_VideoID = videoID, up_UploadUrl = ''http://localhost:9000/raw-videos/'' @ s3Key,
                      up_RawS3Key = s3Key\<rparr>, w)))"

definition Video_ConfirmUpload :: "env \<Rightarrow> string \<Rightarrow> string \<Rightarrow> world \<Rightarrow> VideoResponse res \<times> world" where
  "Video_ConfirmUpload E userID videoID w =
     (case VideoRepo_GetByID E videoID w of
        (Inl err, w) \<Rightarrow> (Inl err, w)
      | (Inr v, w) \<Rightarrow>
          (case Now E w of (now, w) \<Rightarrow>
           let v = v\<lparr>v_Status := VideoStatusProcessing, v_UpdatedAt := now\<rparr> in
           case VideoRepo_Update E v w of
             (Inl err, w) \<Rightarrow> (Inl (Errorf ''VideoUseCase - ConfirmUpload - Update'' err), w)
           | (Inr _, w) \<Rightarrow>
               let w = (if has_nats E then snd (PublishTranscodeJob E (v_ID v) (v_RawS3Key v) userID w) else w)
               in (Inr (ToVideoResponse v), w)))"

definition Video_GetByID :: "env \<Rightarrow> string \<Rightarrow> string \<Rightarrow> world \<Rightarrow> VideoResponse res \<times> world" where
  "Video_GetByID E i userID w =
     (case VideoRepo_GetByID E i w of
        (Inl err, w) \<Rightarrow> (Inl err, w)
      | (Inr v, w) \<Rightarrow>
          (case (if has_viewRepo E
                 then (case ViewRepo_GetPendingViewsForVideo E i w of (n, w) \<Rightarrow> (v\<lparr>v_Views := wrap64 (v_Views v + n)\<rparr>, w))
                 else (v, w)) of (v, w) \<Rightarrow>
           let res = ToVideoResponse v in
           (case (if has_likeRepo E
                  then (case LikeRepo_GetLikeCount E i w of (c, w) \<Rightarrow>
                        let res = (case c of Inl _ \<Rightarrow> res | Inr n \<Rightarrow> res\<lparr>vr_LikesCount := n\<rparr>) in
                        case LikeRepo_IsLikedByUser E i userID w of (l, w) \<Rightarrow>
                          (case l of Inl _ \<Rightarrow> res | Inr b \<Rightarrow> res\<lparr>vr_IsLiked := b\<rparr>, w))
                  else (res, w)) of (res, w) \<Rightarrow>
            (case (if has_savedRepo E
                   then (case SavedVideoRepo_IsSavedByUser E i userID w of (s, w) \<Rightarrow>
                          (case s of Inl _ \<Rightarrow> res | Inr b \<Rightarrow> res\<lparr>vr_IsSaved := b\<rparr>, w))
                   else (res, w)) of (res, w) \<Rightarrow> (Inr res, w)))))"

definition trendingScanLimit :: int where
  "trendingScanLimit = 100"

definition Video_ListPublicVideos ::
  "env \<Rightarrow> string \<Rightarrow> string \<Rightarrow> string \<Rightarrow> int \<Rightarrow> int \<Rightarrow> world \<Rightarrow> VideoResponse PageResponse res \<times> world" where
  "Video_ListPublicVideos E userID category query page limit w =
     (let offset = page_offset page limit;
          f = no_filter\<lparr>vf_UserID := userID, vf_Category := category, vf_Query := query,
                vf_Status := Some VideoStatusComplete, vf_Visibility := Some VideoVisibilityPublic,
                vf_Limit := to_uint64 limit, vf_Offset := to_uint64 offset\<rparr>
      in case VideoRepo_List E f w of
           (Inl err, w) \<Rightarrow> (Inl err, w)
         | (Inr (vs, n), w) \<Rightarrow> (Inr (ToVideoPageResponse vs n page limit), w))"

definition Video_ListStudioVideos ::
  "env \<Rightarrow> string \<Rightarrow> string \<Rightarrow> int \<Rightarrow> int \<Rightarrow> world \<Rightarrow> VideoResponse PageResponse res \<times> world" where
  "Video_ListStudioVideos E userID query page limit w =
     (let offset = page_offset page limit;
          f = no_filter\<lparr>vf_UserID := userID, vf_Query := query,
                vf_Limit := to_uint64 limit, vf_Offset := to_uint64 offset\<rparr>
      in case VideoRepo_List E f w of
           (Inl err, w) \<Rightarrow> (Inl err, w)
         | (Inr (vs, n), w) \<Rightarrow> (Inr (ToVideoPageResponse vs n page limit), w))"

definition listReelsByRecency :: "env \<Rightarrow> int \<Rightarrow> int \<Rightarrow> world \<Rightarrow> VideoResponse PageResponse res \<times> world" where
  "listReelsByRecency E page limit w =
     (let offset = page_offset page limit;
          f = no_filter\<lparr>vf_Status := Some VideoStatusComplete, vf_Visibility := Some VideoVisibilityPublic,
                vf_IsReel := Some True, vf_Limit := to_uint64 limit, vf_Offset := to_uint64 offset\<rparr>
      in case VideoRepo_List E f w of
           (Inl err, w) \<Rightarrow> (Inl (Errorf ''VideoUseCase - listReelsByRecency - List'' err), w)
         | (Inr (vs, n), w) \<Rightarrow> (Inr (ToVideoPageResponse vs n page limit), w))"

text \<open>The map \<^verbatim>\<open>byID\<close> and the loop that puts the videos into the order of the ranking.\<close>

definition by_id :: "Video list \<Rightarrow> string \<Rightarrow> Video option" where
  "by_id vs = fold (\<lambda>v m. m(v_ID v \<mapsto> v)) vs Map.empty"

definition rank_videos :: "string list \<Rightarrow> (string \<Rightarrow> Video option) \<Rightarrow> Video list" where
  "rank_videos ids m = List.map_filter m ids"

text \<open>The paging of a ranked list in memory; \<^const>\<open>None\<close> is the panic of the slice expression.\<close>

definition ranked_page :: "Video list \<Rightarrow> int \<Rightarrow> int \<Rightarrow> VideoResponse PageResponse option" where
  "ranked_page ranked page limit =
     (let n = int (length ranked); offset = page_offset page limit in
      if offset \<ge> n then Some (ToVideoPageResponse [] n page limit)
      else let e = wrap64 (offset + limit); e = (if e > n then n else e) in
        map_option (\<lambda>vs. ToVideoPageResponse vs n page limit) (go_slice ranked offset e))"

definition Video_GetTrending ::
  "env \<Rightarrow> string \<Rightarrow> string \<Rightarrow> int \<Rightarrow> int \<Rightarrow> world \<Rightarrow> (VideoResponse PageResponse res \<times> world) option" where
  "Video_GetTrending E window userID page limit w =
     (let days = (if window = ''7d'' then 7 else 1) in
      case (if has_viewRepo E then ViewRepo_GetTrendingVideoIDs E days trendingScanLimit w else (Inr [], w)) of (r, w) \<Rightarrow>
      let rankedIDs = (case r of Inl _ \<Rightarrow> [] | Inr ids \<Rightarrow> ids) in
      if rankedIDs = [] then Some (Video_ListPublicVideos E userID [] [] page limit w)
      else case VideoRepo_GetByIDs E rankedIDs w of
        (Inl err, w) \<Rightarrow> Some (Inl (Errorf ''VideoUseCase - GetTrending - GetByIDs'' err), w)
      | (Inr vs, w) \<Rightarrow>
          map_option (\<lambda>p. (Inr p, w)) (ranked_page (rank_videos rankedIDs (by_id vs)) page limit))"

definition Video_GetReelsFeed ::
  "env \<Rightarrow> string \<Rightarrow> string \<Rightarrow> int \<Rightarrow> int \<Rightarrow> world \<Rightarrow> (VideoResponse PageResponse res \<times> world) option" where
  "Video_GetReelsFeed E userID window page limit w =
     (let days = (if window = ''7d'' then 7 else 1) in
      case (if has_viewRepo E then ViewRepo_GetTrendingVideoIDs E days trendingScanLimit w else (Inr [], w)) of (r, w) \<Rightarrow>
      let rankedIDs = (case r of Inl _ \<Rightarrow> [] | Inr ids \<Rightarrow> ids) in
      case (if rankedIDs = [] then ([], w)
            else case VideoRepo_GetByIDs E rankedIDs w of
                   (Inl _, w) \<Rightarrow> ([], w)
                 | (Inr vs, w) \<Rightarrow> (filter (\<lambda>i. by_id (filter v_IsReel vs) i \<noteq> None) rankedIDs, w)) of (reelIDs, w) \<Rightarrow>
      if reelIDs = [] then Some (listReelsByRecency E page limit w)
      else case VideoRepo_GetByIDs E reelIDs w of
        (Inl err, w) \<Rightarrow> Some (Inl (Errorf ''VideoUseCase - GetReelsFeed - GetByIDs'' err), w)
      | (Inr vs, w) \<Rightarrow>
          map_option (\<lambda>p. (Inr p, w)) (ranked_page (rank_videos reelIDs (by_id vs)) page limit))"

definition Video_PublishVideo :: "env \<Rightarrow> string \<Rightarrow> string \<Rightarrow> world \<Rightarrow> VideoResponse res \<times> world" where
  "Video_PublishVideo E userID videoID w =
     (case VideoRepo_GetByID E videoID w of
        (Inl err, w) \<Rightarrow> (Inl err, w)
      | (Inr v, w) \<Rightarrow>
          if v_UserID v \<noteq> userID then (Inl ErrVideoForbidden, w)
          else
            let wasAlreadyPublic = (v_Visibility v = VideoVisibilityPublic) in
            (case Now E w of (now, w) \<Rightarrow>
             let v = v\<lparr>v_Visibility := VideoVisibilityPublic, v_UpdatedAt := now\<rparr> in
             case VideoRepo_Update E v w of
               (Inl err, w) \<Rightarrow> (Inl (Errorf ''VideoUseCase - PublishVideo - Update'' err), w)
             | (Inr _, w) \<Rightarrow>
                 let w = (if has_notifUc E \<and> \<not> wasAlreadyPublic then go_notify (new_video_call v) w else w)
                 in (Inr (ToVideoResponse v), w)))"

definition Video_UpdateVideo :: "env \<Rightarrow> string \<Rightarrow> string \<Rightarrow> UpdateVideoReq \<Rightarrow> world \<Rightarrow> VideoResponse res \<times> world" where
  "Video_UpdateVideo E userID videoID req w =
     (case VideoRepo_GetByID E videoID w of
        (Inl err, w) \<Rightarrow> (Inl err, w)
      | (Inr v, w) \<Rightarrow>
          if v_UserID v \<noteq> userID then (Inl ErrVideoForbidden, w)
          else
            let v = ApplyVideoUpdate req v in
            (case Now E w of (now, w) \<Rightarrow>
             let v = v\<lparr>v_UpdatedAt := now\<rparr> in
             case VideoRepo_Update E v w of
               (Inl err, w) \<Rightarrow> (Inl (Errorf ''VideoUseCase - UpdateVideo - Update'' err), w)
             | (Inr _, w) \<Rightarrow> (Inr (ToVideoResponse v), w)))"

definition Video_UpdateThumbnail :: "env \<Rightarrow> string \<Rightarrow> string \<Rightarrow> string \<Rightarrow> world \<Rightarrow> VideoResponse res \<times> world" where
  "Video_UpdateThumbnail E userID videoID thumbnailURL w =
     (case VideoRepo_GetByID E videoID w of
        (Inl err, w) \<Rightarrow> (Inl err, w)
      | (Inr v, w) \<Rightarrow>
          if v_UserID v \<noteq> userID then (Inl ErrVideoForbidden, w)
          else
            let v = ApplyThumbnailUpdate thumbnailURL v in
            (case Now E w of (now, w) \<Rightarrow>
             let v = v\<lparr>v_UpdatedAt := now\<rparr> in
             case VideoRepo_Update E v w of
               (Inl err, w) \<Rightarrow> (Inl (Errorf ''VideoUseCase - UpdateThumbnail - Update'' err), w)
             | (Inr _, w) \<Rightarrow> (Inr (ToVideoResponse v), w)))"

definition Video_RetryTranscode :: "env \<Rightarrow> string \<Rightarrow> string \<Rightarrow> world \<Rightarrow> VideoResponse res \<times> world" where
  "Video_RetryTranscode E userID videoID w =
     (case VideoRepo_GetByID E videoID w of
        (Inl err, w) \<Rightarrow> (Inl err, w)
      | (Inr v, w) \<Rightarrow>
          if v_UserID v \<noteq> userID then (Inl ErrVideoForbidden, w)
          else if v_Status v \<noteq> VideoStatusFailed then (Inl ErrVideoNotFailed, w)
          else
            (case Now E w of (now, w) \<Rightarrow>
             let v = v\<lparr>v_Status := VideoStatusProcessing, v_UpdatedAt := now\<rparr> in
             case VideoRepo_Update E v w of
               (Inl err, w) \<Rightarrow> (Inl (Errorf ''VideoUseCase - RetryTranscode - Update'' err), w)
             | (Inr _, w) \<Rightarrow>
                 if has_nats E
                 then (case PublishTranscodeJob E (v_ID v) (v_RawS3Key v) userID w of
                         (Inl err, w) \<Rightarrow> (Inl (Errorf ''VideoUseCase - RetryTranscode - PublishTranscodeJob'' err), w)
                       | (Inr _, w) \<Rightarrow> (Inr (ToVideoResponse v), w))
                 else (Inr (ToVideoResponse v), w)))"

definition Video_DeleteVideo :: "env \<Rightarrow> string \<Rightarrow> string \<Rightarrow> world \<Rightarrow> unit res \<times> world" where
  "Video_DeleteVideo E userID videoID w =
     (case VideoRepo_GetByID E videoID w of
        (Inl err, w) \<Rightarrow> (Inl err, w)
      | (Inr v, w) \<Rightarrow>
          if v_UserID v \<noteq> userID then (Inl ErrVideoForbidden, w)
          else VideoRepo_Delete E videoID w)"

definition Video_HandleTranscodeCallback :: "env \<Rightarrow> string \<Rightarrow> string \<Rightarrow> string \<Rightarrow> world \<Rightarrow> unit res \<times> world" where
  "Video_HandleTranscodeCallback E videoID status hlsMasterURL w =
     (case VideoRepo_GetByID E videoID w of
        (Inl err, w) \<Rightarrow> (Inl (Errorf ''VideoUseCase - HandleTranscodeCallback - GetByID'' err), w)
      | (Inr v, w) \<Rightarrow>
          let wasComplete = (v_Status v = VideoStatusComplete);
              v = (if status = ''complete''
                   then (let v = v\<lparr>v_Status := VideoStatusComplete\<rparr>
                         in if hlsMasterURL \<noteq> [] then v\<lparr>v_HLSUrl := hlsMasterURL\<rparr> else v)
                   else if status = ''failed'' then v\<lparr>v_Status := VideoStatusFailed\<rparr>
                   else v)
          in case Now E w of (now, w) \<Rightarrow>
             let v = v\<lparr>v_UpdatedAt := now\<rparr> in
             (case VideoRepo_Update E v w of
                (Inl err, w) \<Rightarrow> (Inl err, w)
              | (Inr _, w) \<Rightarrow>
                  let w = (if has_notifUc E \<and> status = ''complete'' \<and> \<not> wasComplete \<and> v_Visibility v = VideoVisibilityPublic
                           then go_notify (new_video_call v) w else w)
                  in (Inr (), w)))"

section \<open>Reading and editing a video\<close>

lemma video_of_row_simps [simp]:
  "v_ID (video_of_row d r) = vd_id r" "v_UserID (video_of_row d r) = vd_user_id r"
  "v_Status (video_of_row d r) = vd_status r" "v_Visibility (video_of_row d r) = vd_visibility r"
  "v_RawS3Key (video_of_row d r) = vd_raw_s3_key r" "v_Title (video_of_row d r) = vd_title r"
  by (simp_all add: video_of_row_def)

text \<open>Every editing use case reads the video, changes the struct and writes it back.\<close>

lemma video_edit:
  assumes g: "VideoRepo_GetByID E i w = (Inr v, w1)"
    and u: "VideoRepo_Update E v' w2 = (Inr x, w3)" "db w2 = db w1" "v_ID v' = v_ID v"
  shows "\<exists>r. row_at vd_id i (videos (db w)) = Some r \<and> v = video_of_row (db w) r \<and>
     (\<forall>k. row_at vd_id k (videos (db w3)) =
        (if k = i then Some (video_merge (row_of_video v') r) else row_at vd_id k (videos (db w))))"
proof -
  from VideoRepo_GetByID_Inr [OF g] obtain r where
    r: "row_at vd_id i (videos (db w)) = Some r" "v = video_of_row (db w) r" by blast
  have "db w1 = db w" using VideoRepo_GetByID_quiet [OF g] quietD(1) by blast
  with VideoRepo_Update_Inr [OF u(1)] u(2) obtain n where
    "update_video (row_of_video v') (db w) = Inr (n, db w3)" by auto
  note upd = video_table.row_at_upd [OF this]
  have "vd_id (row_of_video v') = i" using u(3) r row_at_Some by (fastforce simp: row_of_video_def)
  then show ?thesis using upd r by auto
qed

lemma PublishTranscodeJob_db [simp]: "db (snd (PublishTranscodeJob E v k u w)) = db w"
  by (simp add: PublishTranscodeJob_def split: option.splits)

lemma go_notify_db [simp]: "db (go_notify c w) = db w"
  by (simp add: go_notify_def)

lemma PublishTranscodeJob_Inr:
  "PublishTranscodeJob E v k u w = (Inr x, w') \<Longrightarrow>
   db w' = db w \<and> spawned w' = spawned w \<and> jobs w' = jobs w @ [\<lparr>tj_VideoID = v, tj_RawObjectKey = k, tj_UserID = u\<rparr>]"
  by (auto simp: PublishTranscodeJob_def split: option.splits)

lemma Update_keeps: "VideoRepo_Update E v w = (r, w') \<Longrightarrow> spawned w' = spawned w \<and> jobs w' = jobs w"
  using VideoRepo_Update_runs only_dbD unfolding effect_def by metis

lemma Get_keeps: "VideoRepo_GetByID E i w = (r, w') \<Longrightarrow> spawned w' = spawned w \<and> jobs w' = jobs w \<and> db w' = db w"
  using VideoRepo_GetByID_quiet quietD by metis

section \<open>Statements run by the use case\<close>

lemma Video_writes_run:
  "Video_CreateUpload E u req w = (r1, w') \<Longrightarrow> runs video_stmts (db w) (db w')"
  "Video_ConfirmUpload E u i w = (r2, w') \<Longrightarrow> runs video_stmts (db w) (db w')"
  "Video_PublishVideo E u i w = (r3, w') \<Longrightarrow> runs video_stmts (db w) (db w')"
  "Video_UpdateVideo E u i ureq w = (r4, w') \<Longrightarrow> runs video_stmts (db w) (db w')"
  "Video_UpdateThumbnail E u i th w = (r5, w') \<Longrightarrow> runs video_stmts (db w) (db w')"
  "Video_RetryTranscode E u i w = (r6, w') \<Longrightarrow> runs video_stmts (db w) (db w')"
  "Video_DeleteVideo E u i w = (r7, w') \<Longrightarrow> runs video_stmts (db w) (db w')"
  "Video_HandleTranscodeCallback E i st url w = (r8, w') \<Longrightarrow> runs video_stmts (db w) (db w')"
  "Video_RecordView E i ip dev w = (r9, w') \<Longrightarrow> runs video_stmts (db w) (db w')"
proof -
  show "Video_CreateUpload E u req w = (r1, w') \<Longrightarrow> runs video_stmts (db w) (db w')"
    by (auto simp: Video_CreateUpload_def NewUUID_def Now_def Let_def effect_def
        split: if_splits prod.splits sum.splits dest!: VideoRepo_Store_runs)
  show "Video_ConfirmUpload E u i w = (r2, w') \<Longrightarrow> runs video_stmts (db w) (db w')"
    by (auto simp: Video_ConfirmUpload_def Now_def Let_def effect_def
        split: if_splits prod.splits sum.splits dest!: VideoRepo_Update_runs dest: Get_keeps)
  show "Video_PublishVideo E u i w = (r3, w') \<Longrightarrow> runs video_stmts (db w) (db w')"
    by (auto simp: Video_PublishVideo_def Now_def Let_def effect_def
        split: if_splits prod.splits sum.splits dest!: VideoRepo_Update_runs dest: Get_keeps)
  show "Video_UpdateVideo E u i ureq w = (r4, w') \<Longrightarrow> runs video_stmts (db w) (db w')"
    by (auto simp: Video_UpdateVideo_def Now_def Let_def effect_def
        split: if_splits prod.splits sum.splits dest!: VideoRepo_Update_runs dest: Get_keeps)
  show "Video_UpdateThumbnail E u i th w = (r5, w') \<Longrightarrow> runs video_stmts (db w) (db w')"
    by (auto simp: Video_UpdateThumbnail_def Now_def Let_def effect_def
        split: if_splits prod.splits sum.splits dest!: VideoRepo_Update_runs dest: Get_keeps)
  show "Video_RetryTranscode E u i w = (r6, w') \<Longrightarrow> runs video_stmts (db w) (db w')"
    by (auto simp: Video_RetryTranscode_def Now_def Let_def effect_def PublishTranscodeJob_def
        split: if_splits prod.splits sum.splits option.splits dest!: VideoRepo_Update_runs dest: Get_keeps)
  show "Video_DeleteVideo E u i w = (r7, w') \<Longrightarrow> runs video_stmts (db w) (db w')"
    by (auto simp: Video_DeleteVideo_def effect_def
        split: if_splits prod.splits sum.splits dest!: VideoRepo_Delete_runs dest: Get_keeps)
  show "Video_HandleTranscodeCallback E i st url w = (r8, w') \<Longrightarrow> runs video_stmts (db w) (db w')"
    by (auto simp: Video_HandleTranscodeCallback_def Now_def Let_def effect_def
        split: if_splits prod.splits sum.splits dest!: VideoRepo_Update_runs dest: Get_keeps)
  show "Video_RecordView E i ip dev w = (r9, w') \<Longrightarrow> runs video_stmts (db w) (db w')"
    by (auto simp: Video_RecordView_def split: if_splits dest: ViewRepo_RecordView_effect)
qed

section \<open>Properties\<close>

text \<open>C20: only the owner can change a video.  Publishing, editing, replacing the thumbnail, retrying
  the transcode and deleting, asked for by anybody else, fail and change nothing at all; when the
  database answers, the error is ``forbidden''.\<close>

theorem non_owner_changes_nothing:
  assumes "row_at vd_id videoID (videos (db w)) = Some r" "vd_user_id r \<noteq> userID"
  shows "\<forall>res \<in> {map_prod (map_sum id (\<lambda>_. ())) id (Video_PublishVideo E userID videoID w),
               map_prod (map_sum id (\<lambda>_. ())) id (Video_UpdateVideo E userID videoID req w),
               map_prod (map_sum id (\<lambda>_. ())) id (Video_UpdateThumbnail E userID videoID url w),
               map_prod (map_sum id (\<lambda>_. ())) id (Video_RetryTranscode E userID videoID w),
               Video_DeleteVideo E userID videoID w}.
     isl (fst res) \<and> quiet w (snd res) \<and> (healthy E \<longrightarrow> fst res = Inl ErrVideoForbidden)"
proof -
  obtain x w1 where g: "VideoRepo_GetByID E videoID w = (x, w1)" by force
  note q = VideoRepo_GetByID_quiet [OF g]
  have h: "healthy E \<Longrightarrow> x = Inr (video_of_row (db w) r)" using g assms(1) by (simp add: VideoRepo_GetByID_healthy)
  consider e where "x = Inl e" | v where "x = Inr v" "v_UserID v \<noteq> userID"
    using VideoRepo_GetByID_Inr [of E videoID w _ w1] g assms by (cases x) (fastforce simp: video_of_row_def)+
  then show ?thesis
  proof cases
    case 1
    then show ?thesis
      using g q h by (auto simp: Video_PublishVideo_def Video_UpdateVideo_def Video_UpdateThumbnail_def
          Video_RetryTranscode_def Video_DeleteVideo_def)
  next
    case 2
    then show ?thesis
      using g q by (simp add: Video_PublishVideo_def Video_UpdateVideo_def Video_UpdateThumbnail_def
          Video_RetryTranscode_def Video_DeleteVideo_def)
  qed
qed

theorem non_owner_changes_nothing_witness:
  "Video_DeleteVideo test_env ''u-bob'' ''v'' clip_world = (Inl ErrVideoForbidden, bump clip_world)"
proof -
  have r: "row_at vd_id ''v'' (videos (db clip_world)) = Some clip" "vd_user_id clip \<noteq> ''u-bob''"
    by (simp_all add: clip_world_def clip_def)
  have "fst (Video_DeleteVideo test_env ''u-bob'' ''v'' clip_world) = Inl ErrVideoForbidden"
    using non_owner_changes_nothing [OF r, of test_env undefined undefined] by simp
  moreover have "snd (Video_DeleteVideo test_env ''u-bob'' ''v'' clip_world) = bump clip_world"
    using r by (simp add: Video_DeleteVideo_def VideoRepo_GetByID_healthy)
  ultimately show ?thesis by (metis prod.collapse)
qed



text \<open>A transcode is retried only for the owner of a video whose transcode failed: the status
  goes from failed to processing and the job for its raw upload is queued; for any other status the
  answer is ``not failed'' and nothing changes.\<close>

theorem retry_only_failed:
  assumes "row_at vd_id videoID (videos (db w)) = Some r" "vd_user_id r = userID" "has_nats E"
  shows "(vd_status r \<noteq> VideoStatusFailed \<longrightarrow>
            (\<exists>e w'. Video_RetryTranscode E userID videoID w = (Inl e, w') \<and> quiet w w' \<and>
               (healthy E \<longrightarrow> e = ErrVideoNotFailed))) \<and>
         (\<forall>res w'. Video_RetryTranscode E userID videoID w = (Inr res, w') \<longrightarrow>
            vd_status r = VideoStatusFailed \<and>
            (\<exists>now. row_at vd_id videoID (videos (db w')) = Some (r\<lparr>vd_status := VideoStatusProcessing, vd_updated_at := now\<rparr>)) \<and>
            jobs w' = jobs w @ [\<lparr>tj_VideoID = videoID, tj_RawObjectKey = vd_raw_s3_key r, tj_UserID = userID\<rparr>])"
proof (intro conjI impI allI)
  obtain x w1 where g: "VideoRepo_GetByID E videoID w = (x, w1)" by force
  have x: "x = Inr v \<Longrightarrow> v = video_of_row (db w) r" for v
    using VideoRepo_GetByID_Inr [of E videoID w v w1] g assms(1) by auto
  have h: "healthy E \<Longrightarrow> x = Inr (video_of_row (db w) r)" using g assms(1) by (simp add: VideoRepo_GetByID_healthy)
  { assume s: "vd_status r \<noteq> VideoStatusFailed"
    show "\<exists>e w'. Video_RetryTranscode E userID videoID w = (Inl e, w') \<and> quiet w w' \<and> (healthy E \<longrightarrow> e = ErrVideoNotFailed)"
    proof (cases x)
      case (Inl e)
      then show ?thesis using g h VideoRepo_GetByID_quiet [OF g] by (auto simp: Video_RetryTranscode_def)
    next
      case (Inr v)
      then show ?thesis using g x [OF Inr] s assms(2) VideoRepo_GetByID_quiet [OF g] by (auto simp: Video_RetryTranscode_def)
    qed }
  fix res w'
  assume a: "Video_RetryTranscode E userID videoID w = (Inr res, w')"
  then obtain v where v: "x = Inr v" using g by (cases x) (auto simp: Video_RetryTranscode_def)
  note vr = x [OF v]
  show "vd_status r = VideoStatusFailed" using a g v vr assms(2) by (auto simp: Video_RetryTranscode_def split: if_splits)
  let ?v = "v\<lparr>v_Status := VideoStatusProcessing, v_UpdatedAt := clock E (tick w1)\<rparr>"
  from a g v vr assms(2,3) obtain y w3 z where u: "VideoRepo_Update E ?v (bump w1) = (Inr y, w3)"
    and p: "PublishTranscodeJob E (v_ID ?v) (v_RawS3Key ?v) userID w3 = (Inr z, w')"
    by (auto simp: Video_RetryTranscode_def Now_def Let_def split: prod.splits sum.splits if_splits)
  have i: "v_ID v = videoID" using vr assms(1) row_at_Some by fastforce
  show "jobs w' = jobs w @ [\<lparr>tj_VideoID = videoID, tj_RawObjectKey = vd_raw_s3_key r, tj_UserID = userID\<rparr>]"
    using PublishTranscodeJob_Inr [OF p] Update_keeps [OF u] Get_keeps [OF g] vr i by simp
  have "row_at vd_id videoID (videos (db w3)) = Some (video_merge (row_of_video ?v) r)"
    using video_edit [of E videoID w v w1, OF _ u] g v assms(1) by auto
  moreover have "video_merge (row_of_video ?v) r = r\<lparr>vd_status := VideoStatusProcessing, vd_updated_at := clock E (tick w1)\<rparr>"
    by (simp add: vr row_of_video_def video_merge_def video_of_row_def)
  ultimately show "\<exists>now. row_at vd_id videoID (videos (db w')) = Some (r\<lparr>vd_status := VideoStatusProcessing, vd_updated_at := now\<rparr>)"
    using PublishTranscodeJob_Inr [OF p] by auto
qed

theorem retry_only_failed_witness:
  "\<exists>e w'. Video_RetryTranscode test_env ''u-ann'' ''v'' clip_world = (Inl e, w') \<and> quiet clip_world w' \<and> e = ErrVideoNotFailed"
proof -
  have r: "row_at vd_id ''v'' (videos (db clip_world)) = Some clip" "vd_user_id clip = ''u-ann''" "has_nats test_env"
    by (simp_all add: clip_world_def clip_def test_env_def)
  have "vd_status clip \<noteq> VideoStatusFailed" by (simp add: clip_def)
  with retry_only_failed [OF r] show ?thesis by auto
qed

text \<open>The row that a transcode callback leaves.\<close>

definition transcoded :: "string \<Rightarrow> string \<Rightarrow> video_row \<Rightarrow> video_row" where
  "transcoded status url r =
     (if status = ''complete'' then r\<lparr>vd_status := VideoStatusComplete, vd_hls_url := (if url = [] then vd_hls_url r else url)\<rparr>
      else if status = ''failed'' then r\<lparr>vd_status := VideoStatusFailed\<rparr> else r)"

text \<open>C21: a transcode callback that succeeds moves its video to complete (with the new playlist) or
  failed, ignores any other status word, touches no other video, and notifies followers exactly when a
  public video becomes complete that was not complete before.\<close>

theorem transcode_callback_exact:
  assumes "Video_HandleTranscodeCallback E videoID status url w = (Inr x, w')" "has_notifUc E"
  shows "\<exists>r now. row_at vd_id videoID (videos (db w)) = Some r \<and>
     (\<forall>k. row_at vd_id k (videos (db w')) =
        (if k = videoID then Some ((transcoded status url r)\<lparr>vd_updated_at := now\<rparr>) else row_at vd_id k (videos (db w)))) \<and>
     spawned w' = spawned w @
       (if status = ''complete'' \<and> vd_status r \<noteq> VideoStatusComplete \<and> vd_visibility r = VideoVisibilityPublic
        then [new_video_call (video_of_row (db w) r)] else [])"
proof -
  from assms(1) obtain v w1 where g: "VideoRepo_GetByID E videoID w = (Inr v, w1)"
    by (auto simp: Video_HandleTranscodeCallback_def split: prod.splits sum.splits)
  let ?v = "(if status = ''complete'' then v\<lparr>v_Status := VideoStatusComplete, v_HLSUrl := (if url = [] then v_HLSUrl v else url)\<rparr>
     else if status = ''failed'' then v\<lparr>v_Status := VideoStatusFailed\<rparr> else v)\<lparr>v_UpdatedAt := clock E (tick w1)\<rparr>"
  from assms g obtain y w3 where u: "VideoRepo_Update E ?v (bump w1) = (Inr y, w3)"
    and w': "w' = (if status = ''complete'' \<and> v_Status v \<noteq> VideoStatusComplete \<and> v_Visibility v = VideoVisibilityPublic
                   then go_notify (new_video_call ?v) w3 else w3)"
    by (auto simp: Video_HandleTranscodeCallback_def Now_def Let_def split: prod.splits sum.splits if_splits)
  have "v_ID ?v = v_ID v" by simp
  from video_edit [OF g u _ this] obtain r where r: "row_at vd_id videoID (videos (db w)) = Some r" "v = video_of_row (db w) r"
    "\<And>k. row_at vd_id k (videos (db w3)) =
        (if k = videoID then Some (video_merge (row_of_video ?v) r) else row_at vd_id k (videos (db w)))" by auto
  have "video_merge (row_of_video ?v) r = (transcoded status url r)\<lparr>vd_updated_at := clock E (tick w1)\<rparr>"
    by (simp add: r(2) row_of_video_def video_merge_def video_of_row_def transcoded_def)
  moreover have "spawned w3 = spawned w" using Update_keeps [OF u] Get_keeps [OF g] by simp
  ultimately show ?thesis
    using r w' by (intro exI [of _ r] exI [of _ "clock E (tick w1)"]) (auto simp: go_notify_def new_video_call_def)
qed

theorem transcode_callback_exact_witness:
  "\<exists>x w'. Video_HandleTranscodeCallback test_env ''v'' ''failed'' [] clip_world = (Inr x, w') \<and>
     (\<exists>now. row_at vd_id ''v'' (videos (db w')) = Some (clip\<lparr>vd_status := VideoStatusFailed, vd_updated_at := now\<rparr>))"
proof -
  have "\<not> isl (fst (Video_HandleTranscodeCallback test_env ''v'' ''failed'' [] clip_world))" by code_simp
  then obtain x w' where r: "Video_HandleTranscodeCallback test_env ''v'' ''failed'' [] clip_world = (Inr x, w')"
    using Inr_result by blast
  have "has_notifUc test_env" by (simp add: test_env_def)
  moreover have "row_at vd_id ''v'' (videos (db clip_world)) = Some clip" by (simp add: clip_world_def clip_def)
  ultimately obtain now where
    "row_at vd_id ''v'' (videos (db w')) = Some (clip\<lparr>vd_status := VideoStatusFailed, vd_updated_at := now\<rparr>)"
    using transcode_callback_exact [OF r] by (auto simp: transcoded_def)
  with r show ?thesis by blast
qed

text \<open>An upload ticket.  A file name with an extension other than mp4, mov or mkv, in any case, is
  refused without effect; a ticket that is issued belongs to one new row, pending, owned by the caller,
  whose raw key is the one the ticket names, and all other rows stay.\<close>

theorem create_upload_exact:
  "(let ext = ToLower (Ext (cvu_FileName req)) in
    (ext \<noteq> [] \<and> ext \<notin> set AllowedVideoExtensions \<longrightarrow>
       Video_CreateUpload E userID req w = (Inl ErrUnsupportedVideoFormat, w)) \<and>
    (\<forall>t w'. Video_CreateUpload E userID req w = (Inr t, w') \<longrightarrow>
       (ext = [] \<or> ext \<in> set AllowedVideoExtensions) \<and>
       up_RawS3Key t = ''raw-uploads/'' @ up_VideoID t @ ''/raw'' @ (if ext = [] then ''.mp4'' else ext) \<and>
       row_at vd_id (up_VideoID t) (videos (db w)) = None \<and>
       (\<exists>r. videos (db w') = videos (db w) @ [r] \<and> vd_id r = up_VideoID t \<and> vd_user_id r = userID \<and>
          vd_status r = VideoStatusPending \<and> vd_raw_s3_key r = up_RawS3Key t \<and> vd_views r = 0 \<and>
          vd_visibility r = (if cvu_Visibility req = [] then VideoVisibilityPublic else cvu_Visibility req))))"
  unfolding Let_def
proof (intro conjI impI allI)
  let ?x = "ToLower (Ext (cvu_FileName req))"
  show "?x \<noteq> [] \<and> ?x \<notin> set AllowedVideoExtensions \<Longrightarrow> Video_CreateUpload E userID req w = (Inl ErrUnsupportedVideoFormat, w)"
    by (simp add: Video_CreateUpload_def)
  fix t w'
  assume a: "Video_CreateUpload E userID req w = (Inr t, w')"
  then show x: "?x = [] \<or> ?x \<in> set AllowedVideoExtensions"
    by (auto simp: Video_CreateUpload_def Let_def split: if_splits)
  let ?i = "uuid E (tick w)"
  let ?k = "''raw-uploads/'' @ ?i @ ''/raw'' @ (if ?x = [] then ''.mp4'' else ?x)"
  let ?v = "(ToVideoEntity userID req ?i ?k)\<lparr>v_CreatedAt := clock E (Suc (tick w)), v_UpdatedAt := clock E (Suc (Suc (tick w)))\<rparr>"
  have "(if ?x = [] then ''.mp4'' else ?x) \<in> set AllowedVideoExtensions" using x by (auto simp: AllowedVideoExtensions_def)
  with a obtain y where st: "VideoRepo_Store E ?v (bump (bump (bump w))) = (Inr y, w')"
    and t: "up_VideoID t = ?i" "up_RawS3Key t = ?k"
    by (auto simp: Video_CreateUpload_def Let_def NewUUID_def Now_def split: prod.splits sum.splits if_splits simp del: append_Cons)
  from st obtain n where ins: "insert_video (row_of_video ?v) (db w) = Inr (n, db w')"
    by (auto simp: VideoRepo_Store_def split: prod.splits sum.splits elim!: Exec_cases)
  show "up_RawS3Key t = ''raw-uploads/'' @ up_VideoID t @ ''/raw'' @ (if ?x = [] then ''.mp4'' else ?x)" using t by simp
  have id: "vd_id (row_of_video ?v) = ?i" by (simp add: row_of_video_def ToVideoEntity_def)
  show "row_at vd_id (up_VideoID t) (videos (db w)) = None"
    using ins t(1) id by (simp add: insert_video_Inr row_at_None)
  show "\<exists>r. videos (db w') = videos (db w) @ [r] \<and> vd_id r = up_VideoID t \<and> vd_user_id r = userID \<and>
          vd_status r = VideoStatusPending \<and> vd_raw_s3_key r = up_RawS3Key t \<and> vd_views r = 0 \<and>
          vd_visibility r = (if cvu_Visibility req = [] then VideoVisibilityPublic else cvu_Visibility req)"
    using ins t by (intro exI [of _ "row_of_video ?v"]) (auto simp: insert_video_Inr row_of_video_def ToVideoEntity_def)
qed

definition sample_upload :: CreateVideoUpload where
  "sample_upload = \<lparr>cvu_Title = ''T'', cvu_Description = [], cvu_Category = ''Music'', cvu_FileName = ''a.MKV'',
     cvu_Visibility = [], cvu_ThumbnailURL = [], cvu_Duration = ''00:10'', cvu_IsReel = False\<rparr>"

theorem create_upload_exact_witness:
  "Video_CreateUpload test_env ''u-ann'' (sample_upload\<lparr>cvu_FileName := ''a.avi''\<rparr>) ann_world =
     (Inl ErrUnsupportedVideoFormat, ann_world) \<and>
   (\<exists>t w'. Video_CreateUpload test_env ''u-ann'' sample_upload ann_world = (Inr t, w') \<and> length (videos (db w')) = 1)"
proof
  have "ToLower (Ext ''a.avi'') = ''.avi''" by code_simp
  then show "Video_CreateUpload test_env ''u-ann'' (sample_upload\<lparr>cvu_FileName := ''a.avi''\<rparr>) ann_world =
     (Inl ErrUnsupportedVideoFormat, ann_world)"
    using create_upload_exact [of "sample_upload\<lparr>cvu_FileName := ''a.avi''\<rparr>" test_env "''u-ann''" ann_world]
    by (simp add: AllowedVideoExtensions_def Let_def)
  have "\<not> isl (fst (Video_CreateUpload test_env ''u-ann'' sample_upload ann_world))" by code_simp
  then obtain t w' where r: "Video_CreateUpload test_env ''u-ann'' sample_upload ann_world = (Inr t, w')"
    using Inr_result by blast
  then have "\<exists>x. videos (db w') = videos (db ann_world) @ [x]"
    using create_upload_exact [of sample_upload test_env "''u-ann''" ann_world] by (metis (no_types, lifting))
  then show "\<exists>t w'. Video_CreateUpload test_env ''u-ann'' sample_upload ann_world = (Inr t, w') \<and> length (videos (db w')) = 1"
    using r by (auto simp: ann_world_def empty_db_def)
qed

text \<open>The rows a public listing shows, newest first.\<close>

definition public_videos :: "env \<Rightarrow> string \<Rightarrow> string \<Rightarrow> string \<Rightarrow> db \<Rightarrow> video_row list" where
  "public_videos E userID category query d =
     order_desc vd_created_at (filter (video_matches E (no_filter\<lparr>vf_UserID := userID, vf_Category := category,
       vf_Query := query, vf_Status := Some VideoStatusComplete, vf_Visibility := Some VideoVisibilityPublic\<rparr>) d) (videos d))"

text \<open>A request for the public listing: the environment, the creator, the category, the query text and the state.\<close>

type_synonym listing_query = "env \<times> string \<times> string \<times> string \<times> world"

definition public_all :: "listing_query \<Rightarrow> VideoResponse list" where
  "public_all = (\<lambda>(E, userID, category, query, w).
     ToVideoResponses (map (video_of_row (db w)) (public_videos E userID category query (db w))))"

definition public_fetch :: "listing_query \<Rightarrow> int \<Rightarrow> int \<Rightarrow> VideoResponse PageResponse res" where
  "public_fetch = (\<lambda>(E, userID, category, query, w) page limit. fst (Video_ListPublicVideos E userID category query page limit w))"

interpretation public_listing: paged_listing "\<lambda>(E, _). healthy E" public_all public_fetch Data Pagination
proof unfold_locales
  fix q :: listing_query and page limit
  assume g: "(\<lambda>(E, _). healthy E) q" and p: "1 \<le> page" "small_int page" "small_int limit"
  obtain E userID category query w where q: "q = (E, userID, category, query, w)" by (cases q)
  let ?all = "public_videos E userID category query (db w)"
  let ?f = "no_filter\<lparr>vf_UserID := userID, vf_Category := category, vf_Query := query, vf_Status := Some VideoStatusComplete,
     vf_Visibility := Some VideoVisibilityPublic, vf_Limit := nat limit, vf_Offset := nat ((page - 1) * limit)\<rparr>"
  have m: "video_matches E ?f d = video_matches E (no_filter\<lparr>vf_UserID := userID, vf_Category := category, vf_Query := query,
     vf_Status := Some VideoStatusComplete, vf_Visibility := Some VideoVisibilityPublic\<rparr>) d" for d
    by (rule ext) (simp add: video_matches_def)
  have h: "healthy E" using g q by simp
  note b = page_request_small [OF p]
  have "VideoRepo_List E ?f w = (Inr (map (video_of_row (db w)) (page_of page limit ?all), int (length ?all)), bump (bump w))"
    using VideoRepo_List_healthy [OF h, of ?f w] b(2,4) unfolding m public_videos_def page_of_def by (simp add: Let_def)
  then have "public_fetch q page limit =
      Inr (ToVideoPageResponse (map (video_of_row (db w)) (page_of page limit ?all)) (int (length ?all)) page limit)"
    by (simp add: q public_fetch_def Video_ListPublicVideos_def Let_def b(1,3))
  then show "\<exists>p. public_fetch q page limit = Inr p \<and> Data p = page_of page limit (public_all q) \<and>
      Pagination p = page_meta (int (length (public_all q))) page limit"
    by (simp add: q ToVideoPageResponse_def public_all_def ToVideoResponses_def page_of_map)
qed

text \<open>C28: the public listing shows only complete, public videos that match the request, newest first; and
  its pages from the first to the last, one after the other, are exactly the whole list, their number being
  the ceiling of the number of matches over the limit.\<close>

theorem public_pages_cover:
  assumes "healthy E" "small_int limit" "0 < limit" "small_int (int (length (videos (db w))))"
  shows "let all = public_videos E userID category query (db w) in
     (\<forall>r \<in> set all. r \<in> set (videos (db w)) \<and> vd_status r = VideoStatusComplete \<and> vd_visibility r = VideoVisibilityPublic \<and>
        (userID \<noteq> [] \<longrightarrow> vd_user_id r = userID) \<and> (category \<noteq> [] \<longrightarrow> vd_category r = category)) \<and>
     sorted_wrt (\<lambda>a b. vd_created_at a \<ge> vd_created_at b) all \<and>
     covers (\<lambda>page. fst (Video_ListPublicVideos E userID category query page limit w)) Data Pagination limit
       (ToVideoResponses (map (video_of_row (db w)) all))"
proof -
  let ?all = "public_videos E userID category query (db w)"
  have "length ?all \<le> length (videos (db w))" by (simp add: public_videos_def)
  then have "covers (\<lambda>page. fst (Video_ListPublicVideos E userID category query page limit w)) Data Pagination limit
       (ToVideoResponses (map (video_of_row (db w)) ?all))"
    using public_listing.pages_cover_all [of "(E, userID, category, query, w)" limit] assms
    by (simp add: public_fetch_def public_all_def ToVideoResponses_def small_int_def)
  moreover have "\<forall>r \<in> set ?all. r \<in> set (videos (db w)) \<and> vd_status r = VideoStatusComplete \<and> vd_visibility r = VideoVisibilityPublic \<and>
      (userID \<noteq> [] \<longrightarrow> vd_user_id r = userID) \<and> (category \<noteq> [] \<longrightarrow> vd_category r = category)"
    by (auto simp: public_videos_def video_matches_def)
  moreover have "sorted_wrt (\<lambda>a b. vd_created_at a \<ge> vd_created_at b) ?all"
    unfolding public_videos_def by (rule order_desc_sorted)
  ultimately show ?thesis unfolding Let_def by blast
qed

theorem public_pages_cover_witness:
  "covers (\<lambda>page. fst (Video_ListPublicVideos test_env [] [] [] page 10 clip_world)) Data Pagination 10
     (ToVideoResponses (map (video_of_row (db clip_world)) (public_videos test_env [] [] [] (db clip_world))))"
proof -
  have "small_int (10 :: int)" "(0 :: int) < 10" "small_int (int (length (videos (db clip_world))))"
    by (simp_all add: small_int_def clip_world_def)
  from public_pages_cover [OF test_env_healthy this, of "[]" "[]" "[]"] show ?thesis by (simp add: Let_def)
qed

end
