(* ===== verification/History.thy ===== *)
theory History
  imports VideoUse Marks
begin

text \<open>
  What the service remembers of its viewers: the watch history (\<^verbatim>\<open>internal/repo/persistent/history\<close>,
  \<^verbatim>\<open>internal/usecase/history\<close>) and the preferred categories (\<^verbatim>\<open>internal/repo/persistent/userpreference\<close>,
  \<^verbatim>\<open>internal/usecase/userpreference\<close>).
\<close>

section \<open>Watch history\<close>

text \<open>\<^verbatim>\<open>CURRENT_TIMESTAMP\<close> is the instant of the statement; \<^verbatim>\<open>watch_seconds\<close> is a 32-bit \<^verbatim>\<open>INT\<close>, into
  which the driver refuses to encode a larger number.\<close>

definition in_int4 :: "int \<Rightarrow> bool" where
  "in_int4 x \<longleftrightarrow> - (2 ^ 31) \<le> x \<and> x < 2 ^ 31"

definition watch_key :: "WatchHistoryEntry \<Rightarrow> string \<times> string" where
  "watch_key h = (wh_UserID h, wh_VideoID h)"

definition upsert_watch :: "string \<Rightarrow> string \<Rightarrow> int \<Rightarrow> time \<Rightarrow> stmt" where
  "upsert_watch u v s now d =
     check (in_int4 s) ''22003''
      (check (varchar_ok [(64, u), (64, v)]) ''22001''
        (case row_at watch_key (u, v) (watch_history d) of
           None \<Rightarrow> Inr (1, d\<lparr>watch_history := watch_history d @
                     [\<lparr>wh_UserID = u, wh_VideoID = v, wh_WatchSeconds = s, wh_LastWatchedAt = now\<rparr>]\<rparr>)
         | Some _ \<Rightarrow> Inr (1, d\<lparr>watch_history := sql_update (\<lambda>h. watch_key h = (u, v))
                     (\<lambda>h. h\<lparr>wh_WatchSeconds := max (wh_WatchSeconds h) s, wh_LastWatchedAt := now\<rparr>) (watch_history d)\<rparr>)))"

definition WatchHistoryRepo_Upsert :: "env \<Rightarrow> string \<Rightarrow> string \<Rightarrow> int \<Rightarrow> world \<Rightarrow> unit res \<times> world" where
  "WatchHistoryRepo_Upsert E userID videoID watchSeconds w =
     (case Exec E (upsert_watch userID videoID watchSeconds (clock E (tick w))) w of
        (Inl err, w) \<Rightarrow> (Inl (Errorf ''WatchHistoryRepo - Upsert - Exec'' err), w)
      | (Inr _, w) \<Rightarrow> (Inr (), w))"

text \<open>The column \<^verbatim>\<open>is_reel\<close> is not selected; the \<^verbatim>\<open>JOIN\<close> drops the entries of deleted videos, the count
  keeps them.\<close>

definition watched_entries :: "string \<Rightarrow> db \<Rightarrow> WatchHistoryEntry list" where
  "watched_entries u d = order_desc wh_LastWatchedAt (filter (\<lambda>h. wh_UserID h = u) (watch_history d))"

definition watched_videos :: "string \<Rightarrow> db \<Rightarrow> Video list" where
  "watched_videos u d = concat (map (\<lambda>h. joined_video d (wh_VideoID h)) (watched_entries u d))"

definition WatchHistoryRepo_ListByUser :: "env \<Rightarrow> string \<Rightarrow> int \<Rightarrow> int \<Rightarrow> world \<Rightarrow> (Video list \<times> int) res \<times> world" where
  "WatchHistoryRepo_ListByUser E userID limit offset w =
     (case QueryRow E (\<lambda>d. Inr (Some (sql_count (\<lambda>h. wh_UserID h = userID) (watch_history d)))) w of
        (Inl err, w) \<Rightarrow> (Inl (Errorf ''WatchHistoryRepo - ListByUser - count query'' err), w)
      | (Inr n, w) \<Rightarrow>
          (case Query E (\<lambda>d. sql_page (to_uint64 limit) (to_uint64 offset) (watched_videos userID d)) w of
             (Inl err, w) \<Rightarrow> (Inl (Errorf ''WatchHistoryRepo - ListByUser - Query'' err), w)
           | (Inr vs, w) \<Rightarrow> (Inr (vs, n), w)))"

definition History_RecordWatch :: "env \<Rightarrow> string \<Rightarrow> string \<Rightarrow> int \<Rightarrow> world \<Rightarrow> unit res \<times> world" where
  "History_RecordWatch E userID videoID watchSeconds w =
     (if userID = [] \<or> videoID = [] then (Inr (), w)
      else case WatchHistoryRepo_Upsert E userID videoID watchSeconds w of
        (Inl err, w) \<Rightarrow> (Inl (Errorf ''HistoryUseCase - RecordWatch - Upsert'' err), w)
      | (Inr _, w) \<Rightarrow> (Inr (), w))"

definition History_ListHistory :: "env \<Rightarrow> string \<Rightarrow> int \<Rightarrow> int \<Rightarrow> world \<Rightarrow> VideoResponse PageResponse res \<times> world" where
  "History_ListHistory E userID page limit w =
     (let offset = page_offset page limit in
      case WatchHistoryRepo_ListByUser E userID limit offset w of
        (Inl err, w) \<Rightarrow> (Inl (Errorf ''HistoryUseCase - ListHistory'' err), w)
      | (Inr (vs, n), w) \<Rightarrow> (Inr (ToVideoPageResponse vs n page limit), w))"

definition history_stmts :: "stmt set" where
  "history_stmts = {s. \<exists>u v k t. s = upsert_watch u v k t}"

definition history_ok :: "db \<Rightarrow> bool" where
  "history_ok d \<longleftrightarrow> distinct (map watch_key (watch_history d)) \<and>
     (\<forall>h \<in> set (watch_history d). in_int4 (wh_WatchSeconds h) \<and> varchar_ok [(64, wh_UserID h), (64, wh_VideoID h)])"

lemma history_stmtsI [simp, intro]: "upsert_watch u v k t \<in> history_stmts"
  by (auto simp: history_stmts_def)

lemma upsert_watch_at:
  assumes "upsert_watch u v s now d = Inr (n, d')"
  shows "d' = d\<lparr>watch_history := watch_history d'\<rparr>"
    and "row_at watch_key k (watch_history d') =
      (if k = (u, v) then Some (case row_at watch_key (u, v) (watch_history d) of
           None \<Rightarrow> \<lparr>wh_UserID = u, wh_VideoID = v, wh_WatchSeconds = s, wh_LastWatchedAt = now\<rparr>
         | Some h \<Rightarrow> h\<lparr>wh_WatchSeconds := max (wh_WatchSeconds h) s, wh_LastWatchedAt := now\<rparr>)
       else row_at watch_key k (watch_history d))"
proof -
  show "d' = d\<lparr>watch_history := watch_history d'\<rparr>"
    using assms by (auto simp: upsert_watch_def split: option.splits)
  have key: "watch_key (h\<lparr>wh_WatchSeconds := a, wh_LastWatchedAt := b\<rparr>) = watch_key h" for h a b
    by (simp add: watch_key_def)
  have new: "watch_key \<lparr>wh_UserID = u, wh_VideoID = v, wh_WatchSeconds = s, wh_LastWatchedAt = now\<rparr> = (u, v)"
    by (simp add: watch_key_def)
  show "row_at watch_key k (watch_history d') =
      (if k = (u, v) then Some (case row_at watch_key (u, v) (watch_history d) of
           None \<Rightarrow> \<lparr>wh_UserID = u, wh_VideoID = v, wh_WatchSeconds = s, wh_LastWatchedAt = now\<rparr>
         | Some h \<Rightarrow> h\<lparr>wh_WatchSeconds := max (wh_WatchSeconds h) s, wh_LastWatchedAt := now\<rparr>)
       else row_at watch_key k (watch_history d))"
  proof (cases "row_at watch_key (u, v) (watch_history d)")
    case None
    then show ?thesis using assms by (auto simp: upsert_watch_def row_at_append new split: option.splits)
  next
    case (Some h)
    then have "watch_history d' = sql_update (\<lambda>h. watch_key h = (u, v))
        (\<lambda>h. h\<lparr>wh_WatchSeconds := max (wh_WatchSeconds h) s, wh_LastWatchedAt := now\<rparr>) (watch_history d)"
      using assms by (auto simp: upsert_watch_def)
    then show ?thesis using Some row_at_Some [OF Some]
      by (simp add: row_at_update key split: option.splits) (auto dest: row_at_Some)
  qed
qed

lemma history_stmts_frame: "s \<in> history_stmts \<Longrightarrow> s d = Inr (n, d') \<Longrightarrow> d' = d\<lparr>watch_history := watch_history d'\<rparr>"
  using upsert_watch_at(1) by (auto simp: history_stmts_def)

lemma history_stmts_ok: "s \<in> history_stmts \<Longrightarrow> history_ok d \<Longrightarrow> s d = Inr (n, d') \<Longrightarrow> history_ok d'"
proof -
  assume "s \<in> history_stmts" and ok: "history_ok d" and r: "s d = Inr (n, d')"
  then obtain u v k t where s: "s = upsert_watch u v k t" by (auto simp: history_stmts_def)
  then have c: "in_int4 k" "varchar_ok [(64, u), (64, v)]" using r by (simp_all add: upsert_watch_def)
  show ?thesis
  proof (cases "row_at watch_key (u, v) (watch_history d)")
    case None
    then have "watch_history d' = watch_history d @ [\<lparr>wh_UserID = u, wh_VideoID = v, wh_WatchSeconds = k, wh_LastWatchedAt = t\<rparr>]"
      using r s c by (auto simp: upsert_watch_def)
    moreover have "(u, v) \<notin> watch_key ` set (watch_history d)" using None by (simp add: row_at_None)
    ultimately show ?thesis using c ok by (simp add: history_ok_def watch_key_def)
  next
    case (Some h)
    let ?f = "\<lambda>h. h\<lparr>wh_WatchSeconds := max (wh_WatchSeconds h) k, wh_LastWatchedAt := t\<rparr>"
    have rows: "watch_history d' = sql_update (\<lambda>h. watch_key h = (u, v)) ?f (watch_history d)"
      using r s c Some by (auto simp: upsert_watch_def)
    have "map watch_key (watch_history d') = map watch_key (watch_history d)"
      unfolding rows by (rule map_key_sql_update) (simp add: watch_key_def)
    moreover have "in_int4 (wh_WatchSeconds x) \<and> varchar_ok [(64, wh_UserID x), (64, wh_VideoID x)]" if "x \<in> set (watch_history d')" for x
      using that c ok unfolding rows set_sql_update history_ok_def by (auto simp: in_int4_def)
    ultimately show ?thesis using ok by (simp add: history_ok_def)
  qed
qed

lemma RecordWatch_runs: "History_RecordWatch E u v s w = (r, w') \<Longrightarrow> effect history_stmts w w'"
  by (auto simp: History_RecordWatch_def WatchHistoryRepo_Upsert_def split: if_splits prod.splits sum.splits intro: Exec_effect)

lemma ListHistory_quiet: "History_ListHistory E u p l w = (r, w') \<Longrightarrow> quiet w w'"
  by (auto simp: History_ListHistory_def WatchHistoryRepo_ListByUser_def Let_def split: prod.splits sum.splits dest!: driver_bump)

text \<open>C33: watching is remembered per user and video: a report that succeeds keeps the largest number of seconds seen
  and the time of the last report in the one entry of the pair, and no other entry changes; the video
  is then the first in the list of the user if the clock has not gone back.\<close>

theorem record_watch_exact:
  assumes "History_RecordWatch E u v s w = (Inr x, w')" "u \<noteq> []" "v \<noteq> []" "history_ok (db w)"
    "\<forall>h \<in> set (watch_history (db w)). wh_LastWatchedAt h < clock E (tick w)"
  shows "(\<forall>k. row_at watch_key k (watch_history (db w')) =
      (if k = (u, v) then Some \<lparr>wh_UserID = u, wh_VideoID = v,
           wh_WatchSeconds = (case row_at watch_key k (watch_history (db w)) of None \<Rightarrow> s | Some h \<Rightarrow> max (wh_WatchSeconds h) s),
           wh_LastWatchedAt = clock E (tick w)\<rparr>
       else row_at watch_key k (watch_history (db w)))) \<and>
    wh_VideoID (hd (watched_entries u (db w'))) = v"
proof -
  obtain n where n: "upsert_watch u v s (clock E (tick w)) (db w) = Inr (n, db w')"
    using assms(1-3) by (auto simp: History_RecordWatch_def WatchHistoryRepo_Upsert_def split: prod.splits sum.splits elim!: Exec_cases)
  note at = upsert_watch_at(2) [OF n]
  have rows: "row_at watch_key k (watch_history (db w')) =
      (if k = (u, v) then Some \<lparr>wh_UserID = u, wh_VideoID = v,
           wh_WatchSeconds = (case row_at watch_key k (watch_history (db w)) of None \<Rightarrow> s | Some h \<Rightarrow> max (wh_WatchSeconds h) s),
           wh_LastWatchedAt = clock E (tick w)\<rparr>
       else row_at watch_key k (watch_history (db w)))" for k
    unfolding at by (auto simp: watch_key_def dest!: row_at_Some split: option.splits)
  let ?l = "watched_entries u (db w')"
  have "history_ok (db w')" using history_stmts_ok [OF history_stmtsI assms(4) n] .
  then have d: "distinct (map watch_key (watch_history (db w')))" by (simp add: history_ok_def)
  have late: "wh_LastWatchedAt h < clock E (tick w)" if "h \<in> set (watch_history (db w'))" "watch_key h \<noteq> (u, v)" for h
    using row_at_unique [OF d that(1)] rows [of "watch_key h"] that(2) assms(5) by (auto dest!: row_at_Some)
  obtain h where h: "h \<in> set (watch_history (db w'))" "watch_key h = (u, v)" "wh_LastWatchedAt h = clock E (tick w)"
    using rows [of "(u, v)"] by (auto dest!: row_at_Some)
  then have "h \<in> set ?l" by (simp add: watched_entries_def watch_key_def)
  then obtain y ys where l: "?l = y # ys" by (cases ?l) auto
  then have "y \<in> set ?l" by simp
  then have y: "y \<in> set (watch_history (db w'))" by (simp add: watched_entries_def)
  have "sorted_wrt (\<lambda>a b. wh_LastWatchedAt a \<ge> wh_LastWatchedAt b) ?l"
    unfolding watched_entries_def by (rule order_desc_sorted)
  then have "wh_LastWatchedAt h \<le> wh_LastWatchedAt y" using \<open>h \<in> set ?l\<close> l by auto
  then have "watch_key y = (u, v)" using late [OF y] h(3) by fastforce
  then show ?thesis using rows l by (simp add: watch_key_def)
qed

theorem record_watch_exact_witness:
  "\<exists>w'. History_RecordWatch test_env ''u'' ''v'' 30 clip_world = (Inr (), w') \<and>
     row_at watch_key (''u'', ''v'') (watch_history (db w')) =
       Some \<lparr>wh_UserID = ''u'', wh_VideoID = ''v'', wh_WatchSeconds = 30, wh_LastWatchedAt = clock test_env (tick clip_world)\<rparr>"
proof -
  have e: "watch_history (db clip_world) = []" by (simp add: clip_world_def empty_db_def)
  have "\<not> isl (fst (History_RecordWatch test_env ''u'' ''v'' 30 clip_world))"
    by (simp add: History_RecordWatch_def WatchHistoryRepo_Upsert_def Exec_healthy upsert_watch_def in_int4_def varchar_ok_def rune_count_def e)
  then obtain x :: unit and w' where r: "History_RecordWatch test_env ''u'' ''v'' 30 clip_world = (Inr x, w')"
    using Inr_result by blast
  have "history_ok (db clip_world)" by (simp add: history_ok_def e)
  from record_watch_exact [OF r _ _ this] e show ?thesis using r by auto
qed

section \<open>Preferred categories\<close>

definition delete_prefs :: "string \<Rightarrow> stmt" where
  "delete_prefs u d = Inr (length (filter (\<lambda>p. fst p = u) (category_preferences d)),
     d\<lparr>category_preferences := sql_delete (\<lambda>p. fst p = u) (category_preferences d)\<rparr>)"

definition insert_pref :: "string \<Rightarrow> string \<Rightarrow> stmt" where
  "insert_pref u c d =
     check (varchar_ok [(64, u), (64, c)]) ''22001''
      (check ((u, c) \<notin> set (category_preferences d)) ''23505''
        (Inr (1, d\<lparr>category_preferences := category_preferences d @ [(u, c)]\<rparr>)))"

fun insert_prefs :: "env \<Rightarrow> string \<Rightarrow> string list \<Rightarrow> world \<Rightarrow> unit res \<times> world" where
  "insert_prefs E userID [] w = (Inr (), w)"
| "insert_prefs E userID (category # cs) w =
     (case Exec E (insert_pref userID category) w of
        (Inl err, w) \<Rightarrow> (Inl (Errorf ''UserPreferenceRepo - SetCategories - insert Exec'' err), w)
      | (Inr _, w) \<Rightarrow> insert_prefs E userID cs w)"

definition UserPreferenceRepo_SetCategories :: "env \<Rightarrow> string \<Rightarrow> string list \<Rightarrow> world \<Rightarrow> unit res \<times> world" where
  "UserPreferenceRepo_SetCategories E userID cs w =
     (case Begin E w of
        (Inl err, w) \<Rightarrow> (Inl (Errorf ''UserPreferenceRepo - SetCategories - Begin'' err), w)
      | (Inr _, w) \<Rightarrow>
          let d0 = db w in
          (case Exec E (delete_prefs userID) w of
             (Inl err, w) \<Rightarrow> (Inl (Errorf ''UserPreferenceRepo - SetCategories - delete Exec'' err), Rollback d0 w)
           | (Inr _, w) \<Rightarrow>
               (case insert_prefs E userID cs w of
                  (Inl err, w) \<Rightarrow> (Inl err, Rollback d0 w)
                | (Inr _, w) \<Rightarrow>
                    (case Commit E w of
                       (Inl err, w) \<Rightarrow> (Inl (Errorf ''UserPreferenceRepo - SetCategories - Commit'' err), Rollback d0 w)
                     | (Inr _, w) \<Rightarrow> (Inr (), w)))))"

definition UserPreferenceRepo_GetCategories :: "env \<Rightarrow> string \<Rightarrow> world \<Rightarrow> string list res \<times> world" where
  "UserPreferenceRepo_GetCategories E userID w =
     (case Query E (\<lambda>d. Inr (map snd (filter (\<lambda>p. fst p = userID) (category_preferences d)))) w of
        (Inl err, w) \<Rightarrow> (Inl (Errorf ''UserPreferenceRepo - GetCategories - Query'' err), w)
      | (Inr cs, w) \<Rightarrow> (Inr cs, w))"

definition Preference_SetPreferredCategories :: "env \<Rightarrow> string \<Rightarrow> string list \<Rightarrow> world \<Rightarrow> unit res \<times> world" where
  "Preference_SetPreferredCategories E userID cs w =
     (case UserPreferenceRepo_SetCategories E userID cs w of
        (Inl err, w) \<Rightarrow> (Inl (Errorf ''UserPreferenceUseCase - SetPreferredCategories'' err), w)
      | (Inr _, w) \<Rightarrow> (Inr (), w))"

definition Preference_GetPreferredCategories :: "env \<Rightarrow> string \<Rightarrow> world \<Rightarrow> string list res \<times> world" where
  "Preference_GetPreferredCategories E userID w =
     (case UserPreferenceRepo_GetCategories E userID w of
        (Inl err, w) \<Rightarrow> (Inl (Errorf ''UserPreferenceUseCase - GetPreferredCategories'' err), w)
      | (Inr cs, w) \<Rightarrow> (Inr cs, w))"

definition pref_stmts :: "stmt set" where
  "pref_stmts = range delete_prefs \<union> {s. \<exists>u c. s = insert_pref u c}"

definition prefs_ok :: "db \<Rightarrow> bool" where
  "prefs_ok d \<longleftrightarrow> distinct (category_preferences d) \<and> (\<forall>p \<in> set (category_preferences d). varchar_ok [(64, fst p), (64, snd p)])"

lemma pref_stmtsI [simp, intro]: "delete_prefs u \<in> pref_stmts" "insert_pref u c \<in> pref_stmts"
  by (auto simp: pref_stmts_def)

lemma pref_stmts_ok: "s \<in> pref_stmts \<Longrightarrow> prefs_ok d \<Longrightarrow> s d = Inr (n, d') \<Longrightarrow> prefs_ok d'"
proof -
  assume s: "s \<in> pref_stmts" and ok: "prefs_ok d" and r: "s d = Inr (n, d')"
  consider u where "s = delete_prefs u" | u c where "s = insert_pref u c" using s by (auto simp: pref_stmts_def)
  then show ?thesis
  proof cases
    case (1 u)
    then have "category_preferences d' = filter (\<lambda>p. fst p \<noteq> u) (category_preferences d)"
      using r by (auto simp: delete_prefs_def sql_delete_def)
    then show ?thesis using ok unfolding prefs_ok_def by (metis distinct_filter filter_is_subset subsetD)
  next
    case (2 u c)
    then show ?thesis using r ok by (force simp: insert_pref_def prefs_ok_def)
  qed
qed

lemma pref_stmts_frame: "s \<in> pref_stmts \<Longrightarrow> s d = Inr (n, d') \<Longrightarrow> d' = d\<lparr>category_preferences := category_preferences d'\<rparr>"
  by (auto simp: pref_stmts_def delete_prefs_def insert_pref_def)

lemma insert_prefs_spec:
  assumes "insert_prefs E u cs w = (r, w')"
  shows "effect pref_stmts w w' \<and> (r = Inr () \<longrightarrow>
     db w' = (db w)\<lparr>category_preferences := category_preferences (db w) @ map (Pair u) cs\<rparr> \<and>
     distinct cs \<and> (\<forall>c \<in> set cs. (u, c) \<notin> set (category_preferences (db w))))"
  using assms
proof (induction cs arbitrary: w)
  case (Cons c cs)
  obtain r1 w1 where x: "Exec E (insert_pref u c) w = (r1, w1)" by fastforce
  have e: "effect pref_stmts w w1" by (rule Exec_effect [OF x]) simp
  show ?case
  proof (cases r1)
    case (Inl err)
    then show ?thesis using Cons.prems x e by auto
  next
    case (Inr n)
    then have d: "db w1 = (db w)\<lparr>category_preferences := category_preferences (db w) @ [(u, c)]\<rparr>" "(u, c) \<notin> set (category_preferences (db w))"
      using x by (auto simp: insert_pref_def elim!: Exec_cases)
    have "insert_prefs E u cs w1 = (r, w')" using Cons.prems x Inr by simp
    note ih = Cons.IH [OF this]
    then have "effect pref_stmts w w'" using effect_trans [OF e] by blast
    moreover have "db w' = (db w)\<lparr>category_preferences := category_preferences (db w) @ map (Pair u) (c # cs)\<rparr> \<and>
       distinct (c # cs) \<and> (\<forall>x \<in> set (c # cs). (u, x) \<notin> set (category_preferences (db w)))" if "r = Inr ()"
      using ih that d by auto
    ultimately show ?thesis by blast
  qed
qed simp

lemma SetCategories_spec:
  assumes "UserPreferenceRepo_SetCategories E u cs w = (r, w')"
  shows "effect pref_stmts w w' \<and>
    (case r of Inl _ \<Rightarrow> db w' = db w
     | Inr _ \<Rightarrow> distinct cs \<and>
         db w' = (db w)\<lparr>category_preferences := filter (\<lambda>p. fst p \<noteq> u) (category_preferences (db w)) @ map (Pair u) cs\<rparr>)"
proof (cases "pg_fail E (tick w)")
  case (Some m)
  then show ?thesis using assms by (auto simp: UserPreferenceRepo_SetCategories_def Begin_def)
next
  case None
  have rb: "effect pref_stmts w (Rollback (db w) w2) \<and> db (Rollback (db w) w2) = db w" if "only_db w w2" for w2
    using that by (cases w; cases w2) (auto simp: effect_def only_db_def Rollback_def)
  obtain r1 w1 where x: "Exec E (delete_prefs u) (bump w) = (r1, w1)" by fastforce
  then have e1: "effect pref_stmts w w1" using Exec_effect by fastforce
  show ?thesis
  proof (cases r1)
    case (Inl err)
    then show ?thesis using assms None x rb e1 by (auto simp: UserPreferenceRepo_SetCategories_def Begin_def Let_def effect_def)
  next
    case (Inr n)
    then have d1: "db w1 = (db w)\<lparr>category_preferences := filter (\<lambda>p. fst p \<noteq> u) (category_preferences (db w))\<rparr>"
      using x by (auto simp: delete_prefs_def sql_delete_def elim!: Exec_cases)
    obtain r2 w2 where l: "insert_prefs E u cs w1 = (r2, w2)" by fastforce
    note sp = insert_prefs_spec [OF l]
    have e2: "effect pref_stmts w w2" using effect_trans [OF e1] sp by blast
    then have rb2: "effect pref_stmts w (Rollback (db w) w2) \<and> db (Rollback (db w) w2) = db w"
      "effect pref_stmts w (Rollback (db w) (bump w2)) \<and> db (Rollback (db w) (bump w2)) = db w"
      using rb [of w2] rb [of "bump w2"] by (simp_all add: effect_def)
    have run: "UserPreferenceRepo_SetCategories E u cs w =
        (case r2 of Inl err \<Rightarrow> (Inl err, Rollback (db w) w2)
         | Inr _ \<Rightarrow> (case Commit E w2 of
             (Inl err, w3) \<Rightarrow> (Inl (Errorf ''UserPreferenceRepo - SetCategories - Commit'' err), Rollback (db w) w3)
           | (Inr _, w3) \<Rightarrow> (Inr (), w3)))"
      using None x Inr l by (simp add: UserPreferenceRepo_SetCategories_def Begin_def Let_def split: sum.split prod.split)
    note res = assms[unfolded run]
    show ?thesis
    proof (cases "isl r2 \<or> pg_fail E (tick w2) \<noteq> None")
      case True
      then have "isl r \<and> (w' = Rollback (db w) w2 \<or> w' = Rollback (db w) (bump w2))"
        using res by (cases r2) (auto simp: Commit_def Begin_def)
      then show ?thesis using rb2 by (cases r) auto
    next
      case False
      then obtain x where "r2 = Inr x" "pg_fail E (tick w2) = None" by (cases r2) auto
      then have "r = Inr ()" "w' = bump w2" using res by (simp_all add: Commit_def Begin_def)
      then show ?thesis using sp d1 e2 \<open>r2 = Inr x\<close> by (simp add: effect_def)
    qed
  qed
qed

text \<open>Setting the preferred categories replaces the set of the user as a whole: it then consists of the given
  categories and the other users keep theirs; a failure at any point, a category that is given twice among
  them, leaves the preferences as they were.\<close>

theorem set_categories_exact:
  "case Preference_SetPreferredCategories E u cs w of
     (Inr _, w') \<Rightarrow> distinct cs \<and> only_db w w' \<and>
        (healthy E \<longrightarrow> fst (Preference_GetPreferredCategories E u w') = Inr cs) \<and>
        (\<forall>u'. u' \<noteq> u \<longrightarrow> filter (\<lambda>p. fst p = u') (category_preferences (db w')) = filter (\<lambda>p. fst p = u') (category_preferences (db w)))
   | (Inl _, w') \<Rightarrow> db w' = db w"
proof -
  obtain r w' where s: "UserPreferenceRepo_SetCategories E u cs w = (r, w')" by fastforce
  note sp = SetCategories_spec [OF s]
  have g: "map snd (filter (\<lambda>p. fst p = u) (filter (\<lambda>p. fst p \<noteq> u) ps @ map (Pair u) cs)) = cs" for ps :: "(string \<times> string) list"
    by (simp add: filter_map comp_def)
  have o: "filter (\<lambda>p. fst p = u') (filter (\<lambda>p. fst p \<noteq> u) ps @ map (Pair u) cs) = filter (\<lambda>p. fst p = u') ps"
    if "u' \<noteq> u" for u' and ps :: "(string \<times> string) list"
    using that by (auto simp: filter_map comp_def intro: filter_cong)
  show ?thesis
    using s sp
    by (cases r) (auto simp: Preference_SetPreferredCategories_def Preference_GetPreferredCategories_def effect_def
        UserPreferenceRepo_GetCategories_def Query_healthy g o simp del: filter_append)
qed

theorem set_categories_exact_witness:
  "\<exists>w'. Preference_SetPreferredCategories test_env ''u'' [''Gaming'', ''Music''] clip_world = (Inr (), w') \<and>
     fst (Preference_GetPreferredCategories test_env ''u'' w') = Inr [''Gaming'', ''Music'']"
proof -
  have e: "category_preferences (db clip_world) = []" by (simp add: clip_world_def empty_db_def)
  have "\<not> isl (fst (Preference_SetPreferredCategories test_env ''u'' [''Gaming'', ''Music''] clip_world))"
    by (simp add: Preference_SetPreferredCategories_def UserPreferenceRepo_SetCategories_def driver_healthy delete_prefs_def insert_pref_def
        sql_delete_def varchar_ok_def rune_count_def e)
  then obtain x :: unit and w' where r: "Preference_SetPreferredCategories test_env ''u'' [''Gaming'', ''Music''] clip_world = (Inr x, w')"
    using Inr_result by blast
  show ?thesis using set_categories_exact [where E = test_env and u = "''u''" and cs = "[''Gaming'', ''Music'']" and w = clip_world] r by auto
qed

lemma SetPreferredCategories_runs: "Preference_SetPreferredCategories E u cs w = (r, w') \<Longrightarrow> effect pref_stmts w w'"
  using SetCategories_spec by (fastforce simp: Preference_SetPreferredCategories_def split: prod.splits sum.splits)

lemma GetPreferredCategories_quiet: "Preference_GetPreferredCategories E u w = (r, w') \<Longrightarrow> quiet w w'"
  by (auto simp: Preference_GetPreferredCategories_def UserPreferenceRepo_GetCategories_def split: prod.splits sum.splits dest!: driver_bump)

end
