(* ===== verification/Comments.thy ===== *)
theory Comments
  imports Marks
begin

text \<open>
  Comments: the repository \<^verbatim>\<open>internal/repo/persistent/comment\<close>, the use case
  \<^verbatim>\<open>internal/usecase/comment\<close> and \<^verbatim>\<open>internal/mapper/comment.go\<close>.  A comment may reply to another one; the
  replies of a video form a forest, which the table keeps as a parent column.
\<close>

section \<open>Table comments\<close>

definition comment_varchar :: "comment_row \<Rightarrow> bool" where
  "comment_varchar c \<longleftrightarrow> varchar_ok [(64, cm_id c), (64, cm_video_id c), (64, cm_user_id c), (128, cm_user_name c),
     (512, cm_user_avatar c), (64, case cm_parent_id c of None \<Rightarrow> [] | Some p \<Rightarrow> p)]"

text \<open>\<^verbatim>\<open>parent_id\<close> references \<^verbatim>\<open>comments(id)\<close>; no statement of the program deletes a comment.\<close>

definition insert_comment :: "comment_row \<Rightarrow> stmt" where
  "insert_comment c d =
     check (comment_varchar c) ''22001''
      (check (cm_id c \<notin> cm_id ` set (comments d)) ''23505''
        (check (case cm_parent_id c of None \<Rightarrow> True | Some p \<Rightarrow> p \<in> insert (cm_id c) (cm_id ` set (comments d))) ''23503''
          (Inr (1, d\<lparr>comments := comments d @ [c]\<rparr>))))"

definition comment_stmts :: "stmt set" where
  "comment_stmts = range insert_comment"

lemma comment_stmtsI [simp, intro]: "insert_comment c \<in> comment_stmts"
  by (simp add: comment_stmts_def)

lemma insert_comment_Inr:
  "insert_comment c d = Inr (n, d') \<longleftrightarrow>
     comment_varchar c \<and> cm_id c \<notin> cm_id ` set (comments d) \<and>
     (\<forall>p. cm_parent_id c = Some p \<longrightarrow> p \<in> insert (cm_id c) (cm_id ` set (comments d))) \<and>
     n = 1 \<and> d' = d\<lparr>comments := comments d @ [c]\<rparr>"
  by (auto simp: insert_comment_def split: option.splits)

interpretation comment_table: keyed_table comments cm_id "\<lambda>c. c" insert_comment
  by unfold_locales (auto simp: insert_comment_Inr)

definition comments_ok :: "db \<Rightarrow> bool" where
  "comments_ok d \<longleftrightarrow> distinct (map cm_id (comments d)) \<and> (\<forall>c \<in> set (comments d). comment_varchar c)"

lemma comment_stmts_ok: "s \<in> comment_stmts \<Longrightarrow> comments_ok d \<Longrightarrow> s d = Inr (n, d') \<Longrightarrow> comments_ok d'"
  by (auto simp: comment_stmts_def comments_ok_def insert_comment_Inr)

lemma comment_stmts_frame: "s \<in> comment_stmts \<Longrightarrow> s d = Inr (n, d') \<Longrightarrow> d' = d\<lparr>comments := comments d'\<rparr>"
  by (auto simp: comment_stmts_def insert_comment_Inr)

section \<open>Repository\<close>

definition comment_of_row :: "comment_row \<Rightarrow> Comment" where
  "comment_of_row c = \<lparr>c_ID = cm_id c, c_VideoID = cm_video_id c, c_UserID = cm_user_id c, c_UserName = cm_user_name c,
     c_UserAvatar = cm_user_avatar c, c_Content = cm_content c, c_ParentID = cm_parent_id c, c_ReplyCount = 0,
     c_CreatedAt = cm_created_at c\<rparr>"

definition CommentRepo_Store :: "env \<Rightarrow> Comment \<Rightarrow> world \<Rightarrow> unit res \<times> world" where
  "CommentRepo_Store E c w =
     (case Now E w of (now, w) \<Rightarrow>
      case Exec E (insert_comment \<lparr>cm_id = c_ID c, cm_video_id = c_VideoID c, cm_user_id = c_UserID c,
                     cm_user_name = c_UserName c, cm_user_avatar = c_UserAvatar c, cm_content = c_Content c,
                     cm_parent_id = c_ParentID c, cm_created_at = now\<rparr>) w of
        (Inl err, w) \<Rightarrow> (Inl (Errorf ''CommentRepo - Store - Exec'' err), w)
      | (Inr _, w) \<Rightarrow> (Inr (), w))"

definition CommentRepo_GetByID :: "env \<Rightarrow> string \<Rightarrow> world \<Rightarrow> Comment res \<times> world" where
  "CommentRepo_GetByID E i w =
     (case QueryRow E (\<lambda>d. Inr (map_option comment_of_row (row_at cm_id i (comments d)))) w of
        (Inl err, w) \<Rightarrow>
          if errors_Is err ErrNoRows then (Inl ErrCommentNotFound, w)
          else (Inl (Errorf ''CommentRepo - GetByID - Scan'' err), w)
      | (Inr c, w) \<Rightarrow> (Inr c, w))"

definition reply_count :: "db \<Rightarrow> string \<Rightarrow> int" where
  "reply_count d i = sql_count (\<lambda>r. cm_parent_id r = Some i) (comments d)"

text \<open>The top-level comments of a video, newest first, and the replies to a comment, oldest first.\<close>

definition top_comments :: "string \<Rightarrow> db \<Rightarrow> Comment list" where
  "top_comments videoID d =
     map (\<lambda>c. (comment_of_row c)\<lparr>c_ReplyCount := reply_count d (cm_id c)\<rparr>)
       (order_desc cm_created_at (filter (\<lambda>c. cm_video_id c = videoID \<and> cm_parent_id c = None) (comments d)))"

definition replies_to :: "string \<Rightarrow> db \<Rightarrow> Comment list" where
  "replies_to parentID d =
     map comment_of_row (order_asc cm_created_at (filter (\<lambda>c. cm_parent_id c = Some parentID) (comments d)))"

definition CommentRepo_ListByVideoID :: "env \<Rightarrow> string \<Rightarrow> nat \<Rightarrow> nat \<Rightarrow> world \<Rightarrow> (Comment list \<times> int) res \<times> world" where
  "CommentRepo_ListByVideoID E videoID limit offset w =
     (case QueryRow E (\<lambda>d. Inr (Some (sql_count (\<lambda>c. cm_video_id c = videoID \<and> cm_parent_id c = None) (comments d)))) w of
        (Inl err, w) \<Rightarrow> (Inl (Errorf ''CommentRepo - ListByVideoID - countQuery'' err), w)
      | (Inr n, w) \<Rightarrow>
          (case Query E (\<lambda>d. sql_page limit offset (top_comments videoID d)) w of
             (Inl err, w) \<Rightarrow> (Inl (Errorf ''CommentRepo - ListByVideoID - Query'' err), w)
           | (Inr cs, w) \<Rightarrow> (Inr (cs, n), w)))"

definition CommentRepo_CountAllByVideoID :: "env \<Rightarrow> string \<Rightarrow> world \<Rightarrow> int res \<times> world" where
  "CommentRepo_CountAllByVideoID E videoID w =
     (case QueryRow E (\<lambda>d. Inr (Some (sql_count (\<lambda>c. cm_video_id c = videoID) (comments d)))) w of
        (Inl err, w) \<Rightarrow> (Inl (Errorf ''CommentRepo - CountAllByVideoID - QueryRow'' err), w)
      | (Inr n, w) \<Rightarrow> (Inr n, w))"

definition CommentRepo_ListRepliesByParentID :: "env \<Rightarrow> string \<Rightarrow> nat \<Rightarrow> nat \<Rightarrow> world \<Rightarrow> (Comment list \<times> int) res \<times> world" where
  "CommentRepo_ListRepliesByParentID E parentID limit offset w =
     (case QueryRow E (\<lambda>d. Inr (Some (sql_count (\<lambda>c. cm_parent_id c = Some parentID) (comments d)))) w of
        (Inl err, w) \<Rightarrow> (Inl (Errorf ''CommentRepo - ListRepliesByParentID - countQuery'' err), w)
      | (Inr n, w) \<Rightarrow>
          (case Query E (\<lambda>d. sql_page limit offset (replies_to parentID d)) w of
             (Inl err, w) \<Rightarrow> (Inl (Errorf ''CommentRepo - ListRepliesByParentID - Query'' err), w)
           | (Inr cs, w) \<Rightarrow> (Inr (cs, n), w)))"

section \<open>Mapper\<close>

definition ToCommentEntity :: "string \<Rightarrow> string \<Rightarrow> string \<Rightarrow> string \<Rightarrow> CreateCommentRequest \<Rightarrow> string \<Rightarrow> Comment" where
  "ToCommentEntity videoID userID userName userAvatar req i =
     \<lparr>c_ID = i, c_VideoID = videoID, c_UserID = userID, c_UserName = userName, c_UserAvatar = userAvatar,
      c_Content = ccr_Content req, c_ParentID = ccr_ParentID req, c_ReplyCount = 0, c_CreatedAt = 0\<rparr>"

definition ToCommentResponse :: "Comment \<Rightarrow> CommentResponse" where
  "ToCommentResponse c =
     \<lparr>cre_ID = c_ID c, cre_VideoID = c_VideoID c,
      cre_User = \<lparr>cr_ID = c_UserID c, cr_Name = c_UserName c, cr_Avatar = c_UserAvatar c\<rparr>,
      cre_Content = c_Content c, cre_ParentID = c_ParentID c, cre_ReplyCount = c_ReplyCount c,
      cre_LikeCount = 0, cre_IsLiked = False, cre_CreatedAt = c_CreatedAt c\<rparr>"

definition ToCommentResponses :: "Comment list \<Rightarrow> CommentResponse list" where
  "ToCommentResponses cs = map ToCommentResponse cs"

definition ToCommentPageResponse :: "Comment list \<Rightarrow> int \<Rightarrow> int \<Rightarrow> int \<Rightarrow> CommentResponse PageResponse" where
  "ToCommentPageResponse cs totalItems page limit = page_response (ToCommentResponses cs) totalItems page limit"

definition ToCommentPageResponseWithTotal :: "Comment list \<Rightarrow> int \<Rightarrow> int \<Rightarrow> int \<Rightarrow> int \<Rightarrow> CommentPageResponse" where
  "ToCommentPageResponseWithTotal cs totalItems totalAllCount page limit =
     (let base = ToCommentPageResponse cs totalItems page limit in
      \<lparr>cp_Success = Success base, cp_Data = Data base, cp_Pagination = Pagination base, cp_TotalAllCount = totalAllCount\<rparr>)"

section \<open>Use case\<close>

text \<open>One round of the loop of \<^verbatim>\<open>withLikeInfo\<close>, and the loop.\<close>

definition like_info :: "env \<Rightarrow> string \<Rightarrow> CommentResponse \<Rightarrow> world \<Rightarrow> CommentResponse \<times> world" where
  "like_info E userID c w =
     (case CommentLikeRepo_GetLikeCount E (cre_ID c) w of (n, w) \<Rightarrow>
      let c = (case n of Inl _ \<Rightarrow> c | Inr n \<Rightarrow> c\<lparr>cre_LikeCount := n\<rparr>) in
      case CommentLikeRepo_IsLikedByUser E (cre_ID c) userID w of (l, w) \<Rightarrow>
        (case l of Inl _ \<Rightarrow> c | Inr b \<Rightarrow> c\<lparr>cre_IsLiked := b\<rparr>, w))"

fun withLikeInfo_loop :: "env \<Rightarrow> string \<Rightarrow> CommentResponse list \<Rightarrow> world \<Rightarrow> CommentResponse list \<times> world" where
  "withLikeInfo_loop E userID [] w = ([], w)"
| "withLikeInfo_loop E userID (c # cs) w =
     (case like_info E userID c w of (c, w) \<Rightarrow>
      case withLikeInfo_loop E userID cs w of (cs, w) \<Rightarrow> (c # cs, w))"

definition withLikeInfo :: "env \<Rightarrow> CommentResponse list \<Rightarrow> string \<Rightarrow> world \<Rightarrow> CommentResponse list \<times> world" where
  "withLikeInfo E cs userID w =
     (if \<not> has_commentLikeRepo E then (cs, w) else withLikeInfo_loop E userID cs w)"

text \<open>The server always passes a comment-like repository, so \<^verbatim>\<open>ToggleLikeComment\<close> has no \<^verbatim>\<open>nil\<close> check.\<close>

definition Comment_ToggleLikeComment :: "env \<Rightarrow> string \<Rightarrow> string \<Rightarrow> world \<Rightarrow> LikeToggleResponse res \<times> world" where
  "Comment_ToggleLikeComment E commentID userID w =
     (case CommentLikeRepo_ToggleLike E commentID userID w of
        (Inl err, w) \<Rightarrow> (Inl (Errorf ''CommentUseCase - ToggleLikeComment'' err), w)
      | (Inr (liked, n), w) \<Rightarrow> (Inr \<lparr>lt_ID = commentID, lt_Liked = liked, lt_TotalLikes = n\<rparr>, w))"

definition Comment_CreateComment ::
  "env \<Rightarrow> string \<Rightarrow> string \<Rightarrow> string \<Rightarrow> string \<Rightarrow> CreateCommentRequest \<Rightarrow> world \<Rightarrow> CommentResponse res \<times> world" where
  "Comment_CreateComment E videoID userID userName userAvatar req w =
     (case (case ccr_ParentID req of
              None \<Rightarrow> (True, w)
            | Some p \<Rightarrow> (case CommentRepo_GetByID E p w of
                           (Inl _, w) \<Rightarrow> (False, w)
                         | (Inr parent, w) \<Rightarrow> (c_VideoID parent = videoID, w))) of
        (False, w) \<Rightarrow> (Inl ErrInvalidParentID, w)
      | (True, w) \<Rightarrow>
          (case NewUUID E w of (commentID, w) \<Rightarrow>
           let c = ToCommentEntity videoID userID userName userAvatar req commentID in
           case Now E w of (now, w) \<Rightarrow>
           let c = c\<lparr>c_CreatedAt := now\<rparr> in
           (case CommentRepo_Store E c w of
              (Inl err, w) \<Rightarrow> (Inl (Errorf ''CommentUseCase - CreateComment - Store'' err), w)
            | (Inr _, w) \<Rightarrow> (Inr (ToCommentResponse c), w))))"

definition Comment_ListVideoComments :: "env \<Rightarrow> string \<Rightarrow> string \<Rightarrow> int \<Rightarrow> int \<Rightarrow> world \<Rightarrow> CommentPageResponse res \<times> world" where
  "Comment_ListVideoComments E videoID userID page limit w =
     (let offset = to_uint64 (page_offset page limit) in
      case CommentRepo_ListByVideoID E videoID (to_uint64 limit) offset w of
        (Inl err, w) \<Rightarrow> (Inl (Errorf ''CommentUseCase - ListVideoComments'' err), w)
      | (Inr (cs, n), w) \<Rightarrow>
          (case CommentRepo_CountAllByVideoID E videoID w of
             (Inl err, w) \<Rightarrow> (Inl (Errorf ''CommentUseCase - ListVideoComments - CountAllByVideoID'' err), w)
           | (Inr totalAll, w) \<Rightarrow>
               let pageRes = ToCommentPageResponseWithTotal cs n totalAll page limit in
               (case withLikeInfo E (cp_Data pageRes) userID w of (cs, w) \<Rightarrow> (Inr (pageRes\<lparr>cp_Data := cs\<rparr>), w))))"

definition Comment_ListReplies :: "env \<Rightarrow> string \<Rightarrow> string \<Rightarrow> int \<Rightarrow> int \<Rightarrow> world \<Rightarrow> CommentResponse PageResponse res \<times> world" where
  "Comment_ListReplies E parentID userID page limit w =
     (let offset = to_uint64 (page_offset page limit) in
      case CommentRepo_ListRepliesByParentID E parentID (to_uint64 limit) offset w of
        (Inl err, w) \<Rightarrow> (Inl (Errorf ''CommentUseCase - ListReplies'' err), w)
      | (Inr (cs, n), w) \<Rightarrow>
          let pageRes = ToCommentPageResponse cs n page limit in
          (case withLikeInfo E (Data pageRes) userID w of (cs, w) \<Rightarrow> (Inr (pageRes\<lparr>Data := cs\<rparr>), w)))"

section \<open>Effects\<close>

lemma CommentRepo_reads_quiet:
  "CommentRepo_GetByID E i w = (r1, w') \<Longrightarrow> quiet w w'"
  "CommentRepo_ListByVideoID E v l k w = (r2, w') \<Longrightarrow> quiet w w'"
  "CommentRepo_CountAllByVideoID E v w = (r3, w') \<Longrightarrow> quiet w w'"
  "CommentRepo_ListRepliesByParentID E p l k w = (r2, w') \<Longrightarrow> quiet w w'"
  by (auto simp: CommentRepo_GetByID_def CommentRepo_ListByVideoID_def CommentRepo_CountAllByVideoID_def
      CommentRepo_ListRepliesByParentID_def split: prod.splits sum.splits if_splits dest!: driver_bump)

lemma CommentRepo_Store_runs: "CommentRepo_Store E c w = (r, w') \<Longrightarrow> effect comment_stmts w w'"
  by (auto simp: CommentRepo_Store_def Now_def split: prod.splits sum.splits dest!: Exec_effect [where S = comment_stmts])

lemma Comment_CreateComment_runs:
  assumes "Comment_CreateComment E v u n a req w = (r, w')"
  shows "effect comment_stmts w w'"
  using assms
  by (auto simp: Comment_CreateComment_def NewUUID_def Now_def Let_def
      split: prod.splits sum.splits bool.splits option.splits
      dest!: CommentRepo_Store_runs CommentRepo_reads_quiet(1) intro: quiet_then quiet_effect)

lemma like_info_quiet: "like_info E u c w = (c', w') \<Longrightarrow> quiet w w'"
  by (auto simp: like_info_def CommentLikeRepo_GetLikeCount_def CommentLikeRepo_IsLikedByUser_def Let_def
      split: prod.splits sum.splits if_splits dest!: driver_bump)

lemma withLikeInfo_quiet: "withLikeInfo E cs u w = (cs', w') \<Longrightarrow> quiet w w'"
proof -
  have "withLikeInfo_loop E u cs w = (cs', w') \<Longrightarrow> quiet w w'" for cs' w'
    by (induction cs arbitrary: w cs' w') (auto split: prod.splits dest!: like_info_quiet intro: quiet_trans)
  then show "withLikeInfo E cs u w = (cs', w') \<Longrightarrow> quiet w w'"
    by (auto simp: withLikeInfo_def split: if_splits)
qed

lemma Comment_lists_quiet:
  "Comment_ListVideoComments E v u p l w = (r1, w') \<Longrightarrow> quiet w w'"
  "Comment_ListReplies E c u p l w = (r2, w') \<Longrightarrow> quiet w w'"
  by (auto simp: Comment_ListVideoComments_def Comment_ListReplies_def Let_def
      split: prod.splits sum.splits dest!: CommentRepo_reads_quiet withLikeInfo_quiet intro: quiet_trans)

section \<open>Creating a comment\<close>

lemma CommentRepo_GetByID_Inr:
  "CommentRepo_GetByID E i w = (Inr c, w') \<Longrightarrow>
   \<exists>x. row_at cm_id i (comments (db w)) = Some x \<and> c = comment_of_row x"
  by (auto simp: CommentRepo_GetByID_def split: prod.splits sum.splits if_splits dest!: QueryRow_InrD)

text \<open>What a successful creation did.\<close>

lemma CreateComment_Inr:
  assumes "Comment_CreateComment E v u n a req w = (Inr res, w')"
  shows "\<exists>c. comments (db w') = comments (db w) @ [c] \<and> db w' = (db w)\<lparr>comments := comments (db w')\<rparr> \<and>
     cm_id c = cre_ID res \<and> cm_id c \<notin> cm_id ` set (comments (db w)) \<and>
     cm_video_id c = v \<and> cm_user_id c = u \<and> cm_user_name c = n \<and> cm_user_avatar c = a \<and>
     cm_content c = ccr_Content req \<and> cm_parent_id c = ccr_ParentID req \<and>
     (\<forall>p. ccr_ParentID req = Some p \<longrightarrow> (\<exists>x \<in> set (comments (db w)). cm_id x = p \<and> cm_video_id x = v))"
proof -
  have step: "\<exists>c. comments (db w') = comments (db w1) @ [c] \<and> db w' = (db w1)\<lparr>comments := comments (db w')\<rparr> \<and>
     cm_id c = cre_ID res \<and> cm_id c \<notin> cm_id ` set (comments (db w1)) \<and>
     cm_video_id c = v \<and> cm_user_id c = u \<and> cm_user_name c = n \<and> cm_user_avatar c = a \<and>
     cm_content c = ccr_Content req \<and> cm_parent_id c = ccr_ParentID req"
    if "CommentRepo_Store E ((ToCommentEntity v u n a req (uuid E (tick w1)))\<lparr>c_CreatedAt := t\<rparr>) w2 = (Inr y, w')"
      "db w2 = db w1" "res = ToCommentResponse ((ToCommentEntity v u n a req (uuid E (tick w1)))\<lparr>c_CreatedAt := t\<rparr>)"
    for w1 w2 t y
    using that
    by (auto simp: CommentRepo_Store_def Now_def ToCommentEntity_def ToCommentResponse_def insert_comment_Inr
        split: prod.splits sum.splits elim!: Exec_cases)
  show ?thesis
  proof (cases "ccr_ParentID req")
    case None
    with assms show ?thesis
      by (auto simp: Comment_CreateComment_def NewUUID_def Now_def Let_def split: prod.splits sum.splits dest!: step)
  next
    case (Some p)
    with assms obtain parent w1 where g: "CommentRepo_GetByID E p w = (Inr parent, w1)" "c_VideoID parent = v"
      by (auto simp: Comment_CreateComment_def split: prod.splits sum.splits bool.splits)
    then obtain x where x: "row_at cm_id p (comments (db w)) = Some x" "parent = comment_of_row x"
      using CommentRepo_GetByID_Inr by blast
    have d: "db w1 = db w" using CommentRepo_reads_quiet(1) [OF g(1)] quietD(1) by blast
    have "\<exists>x \<in> set (comments (db w)). cm_id x = p \<and> cm_video_id x = v"
      using x g(2) row_at_Some by (fastforce simp: comment_of_row_def)
    moreover from assms Some g have
      "CommentRepo_Store E ((ToCommentEntity v u n a req (uuid E (tick w1)))\<lparr>c_CreatedAt := clock E (Suc (tick w1))\<rparr>) (bump (bump w1)) = (Inr (), w')"
      "res = ToCommentResponse ((ToCommentEntity v u n a req (uuid E (tick w1)))\<lparr>c_CreatedAt := clock E (Suc (tick w1))\<rparr>)"
      by (auto simp: Comment_CreateComment_def NewUUID_def Now_def Let_def split: prod.splits sum.splits)
    ultimately show ?thesis using step Some d by fastforce
  qed
qed

text \<open>The forest of replies: every reply comes after its parent, which is a comment on the same video.\<close>

definition threaded :: "comment_row list \<Rightarrow> bool" where
  "threaded cs \<longleftrightarrow> (\<forall>i < length cs. \<forall>p. cm_parent_id (cs ! i) = Some p \<longrightarrow>
     (\<exists>j < i. cm_id (cs ! j) = p \<and> cm_video_id (cs ! j) = cm_video_id (cs ! i)))"

lemma threaded_Nil [simp]: "threaded []"
  by (simp add: threaded_def)

lemma threaded_snoc:
  assumes "threaded cs" "\<And>p. cm_parent_id c = Some p \<Longrightarrow> \<exists>x \<in> set cs. cm_id x = p \<and> cm_video_id x = cm_video_id c"
  shows "threaded (cs @ [c])"
  unfolding threaded_def
proof (intro allI impI)
  fix i p
  assume i: "i < length (cs @ [c])" and p: "cm_parent_id ((cs @ [c]) ! i) = Some p"
  show "\<exists>j < i. cm_id ((cs @ [c]) ! j) = p \<and> cm_video_id ((cs @ [c]) ! j) = cm_video_id ((cs @ [c]) ! i)"
  proof (cases "i < length cs")
    case True
    then have "cm_parent_id (cs ! i) = Some p" using p by (simp add: nth_append)
    with assms(1) True obtain j where "j < i" "cm_id (cs ! j) = p" "cm_video_id (cs ! j) = cm_video_id (cs ! i)"
      unfolding threaded_def by blast
    then show ?thesis using True by (intro exI [of _ j]) (simp add: nth_append)
  next
    case False
    then have e: "i = length cs" using i by simp
    then have "cm_parent_id c = Some p" using p by (simp add: nth_append)
    from assms(2) [OF this] obtain j where "j < length cs" "cm_id (cs ! j) = p" "cm_video_id (cs ! j) = cm_video_id c"
      by (auto simp: in_set_conv_nth)
    then show ?thesis using e by (intro exI [of _ j]) (simp add: nth_append)
  qed
qed

lemma CreateComment_threaded:
  assumes "threaded (comments (db w))" "Comment_CreateComment E v u n a req w = (r, w')"
  shows "threaded (comments (db w'))"
proof (cases r)
  case (Inr res)
  with assms(2) CreateComment_Inr obtain c where
    c: "comments (db w') = comments (db w) @ [c]" "cm_video_id c = v" "cm_parent_id c = ccr_ParentID req"
      "\<forall>p. ccr_ParentID req = Some p \<longrightarrow> (\<exists>x \<in> set (comments (db w)). cm_id x = p \<and> cm_video_id x = v)"
    by metis
  show ?thesis unfolding c(1) by (rule threaded_snoc [OF assms(1)]) (use c in auto)
next
  case (Inl e)
  have "db w' = db w"
    using assms(2) Inl
    by (auto simp: Comment_CreateComment_def CommentRepo_Store_def NewUUID_def Now_def Let_def quietD
        split: prod.splits sum.splits bool.splits option.splits dest!: CommentRepo_reads_quiet(1) elim!: Exec_cases)
  then show ?thesis using assms(1) by simp
qed


definition first_comment :: comment_row where
  "first_comment = \<lparr>cm_id = ''c1'', cm_video_id = ''v'', cm_user_id = ''u-ann'', cm_user_name = ''ann'', cm_user_avatar = [],
     cm_content = ''hello'', cm_parent_id = None, cm_created_at = 5\<rparr>"

definition talk_world :: world where
  "talk_world = ann_world\<lparr>db := empty_db\<lparr>users := [ann], comments := [first_comment]\<rparr>\<rparr>"


section \<open>Listing comments\<close>

text \<open>A comment as the viewer sees it: with the number of its likes and whether the viewer likes it.\<close>

definition comment_view :: "db \<Rightarrow> string \<Rightarrow> Comment \<Rightarrow> CommentResponse" where
  "comment_view d userID c = (ToCommentResponse c)\<lparr>cre_LikeCount := mark_count (c_ID c) (comment_likes d),
     cre_IsLiked := (userID \<noteq> [] \<and> mark_find userID (c_ID c) (comment_likes d) \<noteq> None)\<rparr>"

lemma like_info_healthy:
  assumes "healthy E"
  shows "\<exists>w'. like_info E u (ToCommentResponse c) w = (comment_view (db w) u c, w') \<and> db w' = db w"
  using assms
  by (auto simp: like_info_def CommentLikeRepo_GetLikeCount_def CommentLikeRepo_IsLikedByUser_def driver_healthy
      comment_view_def ToCommentResponse_def Let_def split: option.splits)

lemma withLikeInfo_healthy:
  assumes "healthy E" "has_commentLikeRepo E"
  shows "\<exists>w'. withLikeInfo E (ToCommentResponses cs) u w = (map (comment_view (db w) u) cs, w') \<and> db w' = db w"
proof -
  have "\<exists>w'. withLikeInfo_loop E u (map ToCommentResponse cs) w = (map (comment_view (db w) u) cs, w') \<and> db w' = db w"
  proof (induction cs arbitrary: w)
    case (Cons c cs)
    obtain w1 where w1: "like_info E u (ToCommentResponse c) w = (comment_view (db w) u c, w1)" "db w1 = db w"
      using like_info_healthy [OF assms(1)] by blast
    then show ?case using Cons.IH [of w1] by auto
  qed simp
  then show ?thesis using assms(2) by (simp add: withLikeInfo_def ToCommentResponses_def)
qed

type_synonym comment_query = "env \<times> string \<times> string \<times> world"

definition comments_all :: "comment_query \<Rightarrow> CommentResponse list" where
  "comments_all = (\<lambda>(E, videoID, userID, w). map (comment_view (db w) userID) (top_comments videoID (db w)))"

definition replies_all :: "comment_query \<Rightarrow> CommentResponse list" where
  "replies_all = (\<lambda>(E, parentID, userID, w). map (comment_view (db w) userID) (replies_to parentID (db w)))"

lemma ListVideoComments_page:
  assumes "healthy E" "has_commentLikeRepo E" "1 \<le> page" "small_int page" "small_int limit"
  shows "\<exists>w'. Comment_ListVideoComments E videoID userID page limit w =
     (Inr \<lparr>cp_Success = True, cp_Data = page_of page limit (comments_all (E, videoID, userID, w)),
           cp_Pagination = page_meta (int (length (comments_all (E, videoID, userID, w)))) page limit,
           cp_TotalAllCount = sql_count (\<lambda>c. cm_video_id c = videoID) (comments (db w))\<rparr>, w')"
proof -
  let ?cs = "page_of page limit (top_comments videoID (db w))"
  obtain w1 where l: "withLikeInfo E (ToCommentResponses ?cs) userID (bump (bump (bump w))) =
      (map (comment_view (db w) userID) ?cs, w1)"
    using withLikeInfo_healthy [OF assms(1,2), of ?cs userID "bump (bump (bump w))"] by auto
  have n: "sql_count (\<lambda>c. cm_video_id c = videoID \<and> cm_parent_id c = None) (comments (db w)) = int (length (top_comments videoID (db w)))"
    by (simp add: sql_count_def top_comments_def)
  show ?thesis
    using l n assms(1)
    by (auto simp: sql_page_request [OF assms(3-5)] Comment_ListVideoComments_def CommentRepo_ListByVideoID_def CommentRepo_CountAllByVideoID_def
        driver_healthy Let_def ToCommentPageResponseWithTotal_def ToCommentPageResponse_def comments_all_def page_of_map)
qed

lemma ListReplies_page:
  assumes "healthy E" "has_commentLikeRepo E" "1 \<le> page" "small_int page" "small_int limit"
  shows "\<exists>w'. Comment_ListReplies E parentID userID page limit w =
     (Inr (page_response (page_of page limit (replies_all (E, parentID, userID, w)))
        (int (length (replies_all (E, parentID, userID, w)))) page limit), w')"
proof -
  let ?cs = "page_of page limit (replies_to parentID (db w))"
  obtain w1 where l: "withLikeInfo E (ToCommentResponses ?cs) userID (bump (bump w)) =
      (map (comment_view (db w) userID) ?cs, w1)"
    using withLikeInfo_healthy [OF assms(1,2), of ?cs userID "bump (bump w)"] by auto
  have n: "sql_count (\<lambda>c. cm_parent_id c = Some parentID) (comments (db w)) = int (length (replies_to parentID (db w)))"
    by (simp add: sql_count_def replies_to_def order_asc_def)
  show ?thesis
    using l n assms(1)
    by (auto simp: sql_page_request [OF assms(3-5)] Comment_ListReplies_def CommentRepo_ListRepliesByParentID_def
        driver_healthy Let_def ToCommentPageResponse_def replies_all_def page_of_map page_response_def)
qed

interpretation comment_listing: paged_listing "\<lambda>(E, _). healthy E \<and> has_commentLikeRepo E" comments_all
  "\<lambda>(E, videoID, userID, w) page limit. fst (Comment_ListVideoComments E videoID userID page limit w)" cp_Data cp_Pagination
proof (unfold_locales, clarify)
  fix E videoID userID w page limit
  assume "healthy E" "has_commentLikeRepo E" "1 \<le> page" "small_int page" "small_int limit"
  from ListVideoComments_page [OF this, of videoID userID w]
  show "\<exists>p. fst (Comment_ListVideoComments E videoID userID page limit w) = Inr p \<and>
     cp_Data p = page_of page limit (comments_all (E, videoID, userID, w)) \<and>
     cp_Pagination p = page_meta (int (length (comments_all (E, videoID, userID, w)))) page limit" by auto
qed

interpretation reply_listing: paged_listing "\<lambda>(E, _). healthy E \<and> has_commentLikeRepo E" replies_all
  "\<lambda>(E, parentID, userID, w) page limit. fst (Comment_ListReplies E parentID userID page limit w)" Data Pagination
proof (unfold_locales, clarify)
  fix E parentID userID w page limit
  assume "healthy E" "has_commentLikeRepo E" "1 \<le> page" "small_int page" "small_int limit"
  from ListReplies_page [OF this, of parentID userID w]
  show "\<exists>p. fst (Comment_ListReplies E parentID userID page limit w) = Inr p \<and>
     Data p = page_of page limit (replies_all (E, parentID, userID, w)) \<and>
     Pagination p = page_meta (int (length (replies_all (E, parentID, userID, w)))) page limit" by auto
qed

lemma order_asc_sorted: "sorted_wrt (\<lambda>a b. k a \<le> k b) (order_asc k rows)"
  using sorted_sort_key [of k rows] by (simp add: order_asc_def sorted_map)

lemma sorted_wrt_map_iff: "sorted_wrt R (map f xs) = sorted_wrt (\<lambda>a b. R (f a) (f b)) xs"
  by (induction xs) auto

lemma comment_lists_sorted:
  "sorted_wrt (\<lambda>a b. c_CreatedAt a \<ge> c_CreatedAt b) (top_comments v d)"
  "sorted_wrt (\<lambda>a b. c_CreatedAt a \<le> c_CreatedAt b) (replies_to p d)"
  using order_desc_sorted [of cm_created_at] order_asc_sorted [of cm_created_at]
  by (simp_all add: top_comments_def replies_to_def sorted_wrt_map_iff comment_of_row_def)

lemma length_filter_split: "length (filter p xs) = length (filter (\<lambda>x. p x \<and> q x) xs) + length (filter (\<lambda>x. p x \<and> \<not> q x) xs)"
  by (induction xs) auto

text \<open>The pages of the comments of a video, one after the other, are its top-level comments, newest first,
  each with the number of its replies and its likes; those of the replies to a comment are all its replies,
  oldest first; and the count in the header is that of top-level comments and replies together.\<close>

theorem comment_pages_cover:
  assumes "healthy E" "has_commentLikeRepo E" "small_int limit" "0 < limit" "small_int (int (length (comments (db w))))"
  shows "covers (\<lambda>page. fst (Comment_ListVideoComments E videoID userID page limit w)) cp_Data cp_Pagination limit
           (map (comment_view (db w) userID) (top_comments videoID (db w))) \<and>
     covers (\<lambda>page. fst (Comment_ListReplies E parentID userID page limit w)) Data Pagination limit
           (map (comment_view (db w) userID) (replies_to parentID (db w))) \<and>
     sorted_wrt (\<lambda>a b. c_CreatedAt a \<ge> c_CreatedAt b) (top_comments videoID (db w)) \<and>
     sorted_wrt (\<lambda>a b. c_CreatedAt a \<le> c_CreatedAt b) (replies_to parentID (db w)) \<and>
     (\<exists>p. fst (Comment_ListVideoComments E videoID userID 1 limit w) = Inr p \<and>
           cp_TotalAllCount p = TotalItems (cp_Pagination p) +
             sql_count (\<lambda>c. cm_video_id c = videoID \<and> cm_parent_id c \<noteq> None) (comments (db w)))"
proof (intro conjI)
  have "length (top_comments videoID (db w)) \<le> length (comments (db w))"
    "length (replies_to parentID (db w)) \<le> length (comments (db w))"
    by (simp_all add: top_comments_def replies_to_def order_asc_def)
  then show "covers (\<lambda>page. fst (Comment_ListVideoComments E videoID userID page limit w)) cp_Data cp_Pagination limit
           (map (comment_view (db w) userID) (top_comments videoID (db w)))"
    "covers (\<lambda>page. fst (Comment_ListReplies E parentID userID page limit w)) Data Pagination limit
           (map (comment_view (db w) userID) (replies_to parentID (db w)))"
    using comment_listing.pages_cover_all [of "(E, videoID, userID, w)" limit]
      reply_listing.pages_cover_all [of "(E, parentID, userID, w)" limit] assms
    by (simp_all add: comments_all_def replies_all_def small_int_def)
  have "small_int 1" by (simp add: small_int_def)
  from ListVideoComments_page [OF assms(1,2) _ this assms(3), of videoID userID w]
  show "\<exists>p. fst (Comment_ListVideoComments E videoID userID 1 limit w) = Inr p \<and>
           cp_TotalAllCount p = TotalItems (cp_Pagination p) +
             sql_count (\<lambda>c. cm_video_id c = videoID \<and> cm_parent_id c \<noteq> None) (comments (db w))"
    using length_filter_split [of "\<lambda>c. cm_video_id c = videoID" "comments (db w)" "\<lambda>c. cm_parent_id c = None"]
    by (auto simp: comments_all_def top_comments_def sql_count_def)
qed (rule comment_lists_sorted)+

theorem comment_pages_cover_witness:
  "covers (\<lambda>page. fst (Comment_ListVideoComments test_env ''v'' [] page 20 talk_world)) cp_Data cp_Pagination 20
     (map (comment_view (db talk_world) []) (top_comments ''v'' (db talk_world)))"
  using comment_pages_cover [of test_env 20 talk_world "''v''" "[]" "''c1''"]
  by (simp add: test_env_def small_int_def talk_world_def healthy_def)

end
