(* ===== verification/Recommend.thy ===== *)
theory Recommend
  imports Floats VideoUse History Comments Likes
begin

text \<open>
  The recommendation component: \<^verbatim>\<open>internal/repo/persistent/recommendation\<close>,
  \<^verbatim>\<open>internal/usecase/recommendation\<close> and \<^verbatim>\<open>internal/mapper/recommendation.go\<close>.  The trained
  vectors live in the memory of the process, not in the database; they are a value
  (\<^verbatim>\<open>recmodel\<close>) that a training pass replaces and a feed reads.  A nil map is \<^const>\<open>None\<close>.
  The random source and \<^verbatim>\<open>sort.Slice\<close>, which is not stable, are parameters.
\<close>

section \<open>Data\<close>

record UserVideoInteraction =
  in_UserID :: string
  in_VideoID :: string
  in_Rating :: float64

record RecommendedVideo =
  rec_Video :: Video
  rec_PredictedScore :: float64

record RecommendedVideoItem =
  ri_Video :: VideoResponse
  ri_PredictedScore :: float64

record reclib =
  rand_Float64 :: "nat \<Rightarrow> nat \<Rightarrow> float64"
  sort_slice :: "RecommendedVideo list \<Rightarrow> RecommendedVideo list"

type_synonym vectors = "string \<Rightarrow> float64 list option"

record recmodel =
  trainedIsEmpty :: bool
  userVec :: "vectors option"
  videoVec :: "vectors option"

text \<open>The model that \<^verbatim>\<open>New\<close> starts with, and its constants.\<close>

definition New_model :: recmodel where
  "New_model = \<lparr>trainedIsEmpty = False, userVec = None, videoVec = None\<rparr>"

definition factors :: nat where "factors = 10"
definition epochs :: nat where "epochs = 50"
definition gamma :: float64 where "gamma = 0x3F847AE147AE147B"
definition lambda :: float64 where "lambda = 0x3F947AE147AE147B"
definition tenth :: float64 where "tenth = 0x3FB999999999999A"
definition categoryBoost :: float64 where "categoryBoost = f_of_int 1000000"
definition maxSGDError :: float64 where "maxSGDError = f_of_int 50"

section \<open>Interactions\<close>

text \<open>
  The union of likes, comments and watch-history entries with their weights, summed per user and
  video.  The order of the groups is unspecified in SQL.
\<close>

definition rated :: "db \<Rightarrow> ((string \<times> string) \<times> int) list" where
  "rated d =
     map (\<lambda>m. ((mk_user_id m, mk_target_id m), 2)) (likes d) @
     map (\<lambda>c. ((cm_user_id c, cm_video_id c), 3)) (comments d) @
     map (\<lambda>h. ((wh_UserID h, wh_VideoID h), 1)) (watch_history d)"

definition interactions_of :: "db \<Rightarrow> UserVideoInteraction list" where
  "interactions_of d =
     map (\<lambda>k. \<lparr>in_UserID = fst k, in_VideoID = snd k,
                in_Rating = f_of_int (sum_list (map snd (filter (\<lambda>x. fst x = k) (rated d))))\<rparr>)
       (remdups (map fst (rated d)))"

definition FetchInteractions :: "env \<Rightarrow> world \<Rightarrow> UserVideoInteraction list res \<times> world" where
  "FetchInteractions E w =
     (case Query E (\<lambda>d. Inr (interactions_of d)) w of
        (Inl err, w) \<Rightarrow> (Inl (Errorf ''RecommendationRepo - FetchInteractions'' err), w)
      | (Inr xs, w) \<Rightarrow> (Inr xs, w))"

section \<open>Training\<close>

text \<open>\<^verbatim>\<open>userMap\<close> and \<^verbatim>\<open>videoMap\<close>: an identifier that is new gets the size of the map.\<close>

definition index_add :: "string \<Rightarrow> (string \<Rightarrow> nat option) \<times> nat \<Rightarrow> (string \<Rightarrow> nat option) \<times> nat" where
  "index_add i mn = (case fst mn i of Some _ \<Rightarrow> mn | None \<Rightarrow> ((fst mn)(i \<mapsto> snd mn), Suc (snd mn)))"

definition index_map :: "string list \<Rightarrow> (string \<Rightarrow> nat option) \<times> nat" where
  "index_map ids = fold index_add ids (Map.empty, 0)"

definition clampFloat :: "float64 \<Rightarrow> float64 \<Rightarrow> float64 \<Rightarrow> float64" where
  "clampFloat v lo hi = (if f_lt v lo then lo else if f_lt hi v then hi else v)"

definition allFinite :: "float64 list list \<Rightarrow> bool" where
  "allFinite matrix = list_all (list_all (\<lambda>v. \<not> (IsNaN v \<or> IsInf v))) matrix"

definition dot :: "nat \<Rightarrow> float64 list \<Rightarrow> float64 list \<Rightarrow> float64" where
  "dot k p q = fold (\<lambda>f pred. f_add pred (f_mul (p ! f) (q ! f))) [0..<k] 0"

text \<open>One row of latent factors after a step, from the other row before it.\<close>

definition sgd_row :: "nat \<Rightarrow> float64 \<Rightarrow> float64 \<Rightarrow> float64 \<Rightarrow> float64 list \<Rightarrow> float64 list \<Rightarrow> float64 list" where
  "sgd_row k g l err own other =
     map (\<lambda>f. f_add (own ! f) (f_mul g (f_sub (f_mul err (other ! f)) (f_mul l (own ! f))))) [0..<k]"

type_synonym matrices = "float64 list list \<times> float64 list list"

definition sgd_step :: "(string \<Rightarrow> nat option) \<Rightarrow> (string \<Rightarrow> nat option) \<Rightarrow> UserVideoInteraction \<Rightarrow> matrices \<Rightarrow> matrices" where
  "sgd_step userMap videoMap x PQ =
     (let P = fst PQ; Q = snd PQ;
          uIdx = the (userMap (in_UserID x));
          vIdx = the (videoMap (in_VideoID x));
          pred = dot factors (P ! uIdx) (Q ! vIdx);
          errVal = clampFloat (f_sub (in_Rating x) pred) (f_opposite maxSGDError) maxSGDError
      in (P[uIdx := sgd_row factors gamma lambda errVal (P ! uIdx) (Q ! vIdx)],
          Q[vIdx := sgd_row factors gamma lambda errVal (Q ! vIdx) (P ! uIdx)]))"

definition sgd_epoch :: "(string \<Rightarrow> nat option) \<Rightarrow> (string \<Rightarrow> nat option) \<Rightarrow> UserVideoInteraction list \<Rightarrow> matrices \<Rightarrow> matrices" where
  "sgd_epoch userMap videoMap inters PQ = fold (sgd_step userMap videoMap) inters PQ"

definition random_matrix :: "(nat \<Rightarrow> float64) \<Rightarrow> nat \<Rightarrow> nat \<Rightarrow> float64 list list" where
  "random_matrix rnd from rows =
     map (\<lambda>i. map (\<lambda>f. f_mul (rnd (from + i * factors + f)) tenth) [0..<factors]) [0..<rows]"

text \<open>The vectors by real identifier.\<close>

definition keyed :: "(string \<Rightarrow> nat option) \<Rightarrow> float64 list list \<Rightarrow> vectors" where
  "keyed idx M = (\<lambda>i. map_option (\<lambda>n. M ! n) (idx i))"

definition train :: "env \<Rightarrow> reclib \<Rightarrow> recmodel \<Rightarrow> world \<Rightarrow> unit res \<times> recmodel \<times> world" where
  "train E L M w =
     (case FetchInteractions E w of
        (Inl err, w) \<Rightarrow> (Inl (Errorf ''RecommendationUseCase - train - FetchInteractions'' err), M, w)
      | (Inr inters, w) \<Rightarrow>
          if inters = [] then (Inr (), \<lparr>trainedIsEmpty = True, userVec = None, videoVec = None\<rparr>, w)
          else
            let (userMap, uCount) = index_map (map in_UserID inters);
                (videoMap, vCount) = index_map (map in_VideoID inters);
                rnd = rand_Float64 L (tick w);
                P0 = random_matrix rnd 0 uCount;
                Q0 = random_matrix rnd (uCount * factors) vCount;
                (P, Q) = (sgd_epoch userMap videoMap inters ^^ epochs) (P0, Q0)
            in if \<not> allFinite P \<or> \<not> allFinite Q
               then (Inl (NewErr ''RecommendationUseCase - train: model diverged (non-finite values), keeping previous cache''), M, w)
               else (Inr (), \<lparr>trainedIsEmpty = False, userVec = Some (keyed userMap P), videoVec = Some (keyed videoMap Q)\<rparr>, w))"

text \<open>The models that the process can hold: the initial one, and what a training pass leaves.\<close>

inductive model_reach :: "env \<Rightarrow> reclib \<Rightarrow> recmodel \<Rightarrow> bool" for E L where
  model_new: "model_reach E L New_model"
| model_train: "model_reach E L M \<Longrightarrow> train E L M w = (r, M', w') \<Longrightarrow> model_reach E L M'"

section \<open>The stand-alone factorisation\<close>

text \<open>
  \<^verbatim>\<open>matrix_factorization.go\<close>: the same descent keyed by identifier, without the clamp.  No other
  file of the service uses it.  \<^verbatim>\<open>initVector\<close> seeds a generator of its own from the clock; its
  numbers are the argument \<^term>\<open>rnd\<close>.
\<close>

record Feedback =
  fb_UserID :: string
  fb_VideoID :: string
  fb_Rating :: float64

record MatrixFactorization =
  mf_K :: nat
  mf_Gamma :: float64
  mf_Lambda :: float64
  UserFactors :: vectors
  ItemFactors :: vectors

definition NewMatrixFactorization :: "nat \<Rightarrow> float64 \<Rightarrow> float64 \<Rightarrow> MatrixFactorization" where
  "NewMatrixFactorization k g l =
     \<lparr>mf_K = k, mf_Gamma = g, mf_Lambda = l, UserFactors = Map.empty, ItemFactors = Map.empty\<rparr>"

definition initVector :: "(nat \<Rightarrow> float64) \<Rightarrow> MatrixFactorization \<Rightarrow> float64 list" where
  "initVector rnd mf = map (\<lambda>i. f_mul (rnd i) tenth) [0..<mf_K mf]"

definition Predict :: "MatrixFactorization \<Rightarrow> string \<Rightarrow> string \<Rightarrow> float64" where
  "Predict mf userID videoID =
     (case (UserFactors mf userID, ItemFactors mf videoID) of
        (Some p, Some q) \<Rightarrow> dot (mf_K mf) p q
      | _ \<Rightarrow> 0)"

definition ensure_vectors :: "(nat \<Rightarrow> nat \<Rightarrow> float64) \<Rightarrow> nat \<times> Feedback \<Rightarrow> MatrixFactorization \<Rightarrow> MatrixFactorization" where
  "ensure_vectors rnd nfb mf =
     (let (n, fb) = nfb;
          mf = (if UserFactors mf (fb_UserID fb) = None
                then mf\<lparr>UserFactors := (UserFactors mf)(fb_UserID fb \<mapsto> initVector (rnd (2 * n)) mf)\<rparr> else mf)
      in if ItemFactors mf (fb_VideoID fb) = None
         then mf\<lparr>ItemFactors := (ItemFactors mf)(fb_VideoID fb \<mapsto> initVector (rnd (2 * n + 1)) mf)\<rparr> else mf)"

definition mf_step :: "Feedback \<Rightarrow> MatrixFactorization \<Rightarrow> MatrixFactorization" where
  "mf_step fb mf =
     (let p = the (UserFactors mf (fb_UserID fb));
          q = the (ItemFactors mf (fb_VideoID fb));
          err = f_sub (fb_Rating fb) (dot (mf_K mf) p q)
      in mf\<lparr>UserFactors := (UserFactors mf)(fb_UserID fb \<mapsto> sgd_row (mf_K mf) (mf_Gamma mf) (mf_Lambda mf) err p q),
            ItemFactors := (ItemFactors mf)(fb_VideoID fb \<mapsto> sgd_row (mf_K mf) (mf_Gamma mf) (mf_Lambda mf) err q p)\<rparr>)"

definition MF_Train :: "(nat \<Rightarrow> nat \<Rightarrow> float64) \<Rightarrow> Feedback list \<Rightarrow> nat \<Rightarrow> MatrixFactorization \<Rightarrow> MatrixFactorization" where
  "MF_Train rnd feedbacks n mf =
     (fold mf_step feedbacks ^^ n) (fold (ensure_vectors rnd) (enumerate 0 feedbacks) mf)"

section \<open>The feed\<close>

definition ToRecommendedVideoItem :: "RecommendedVideo \<Rightarrow> RecommendedVideoItem" where
  "ToRecommendedVideoItem r = \<lparr>ri_Video = ToVideoResponse (rec_Video r), ri_PredictedScore = rec_PredictedScore r\<rparr>"

definition ToRecommendedVideoItems :: "RecommendedVideo list \<Rightarrow> RecommendedVideoItem list" where
  "ToRecommendedVideoItems recs = map ToRecommendedVideoItem recs"

definition ToPersonalizedFeedPageResponse :: "RecommendedVideo list \<Rightarrow> int \<Rightarrow> int \<Rightarrow> int \<Rightarrow> RecommendedVideoItem PageResponse" where
  "ToPersonalizedFeedPageResponse recs totalItems page limit =
     page_response (ToRecommendedVideoItems recs) totalItems page limit"

text \<open>\<^const>\<open>None\<close> is the run-time panic of the slice expression, whose bounds may have wrapped.\<close>

definition paginate :: "'a list \<Rightarrow> int \<Rightarrow> int \<Rightarrow> 'a list option" where
  "paginate recs page limit =
     (if limit \<le> 0 then Some recs
      else let page = (if page < 1 then 1 else page);
               start = page_offset page limit
           in if start \<ge> int (length recs) then Some []
              else let fin = wrap64 (start + limit);
                       fin = (if fin > int (length recs) then int (length recs) else fin)
                   in go_slice recs start fin)"

definition feed_filter :: VideoFilter where
  "feed_filter = no_filter\<lparr>vf_Status := Some VideoStatusComplete, vf_Visibility := Some VideoVisibilityPublic, vf_Limit := 50\<rparr>"

definition preferred :: "env \<Rightarrow> string \<Rightarrow> world \<Rightarrow> string set \<times> world" where
  "preferred E userID w =
     (if userID \<noteq> []
      then case UserPreferenceRepo_GetCategories E userID w of (Inl err, w) \<Rightarrow> ({}, w) | (Inr cs, w) \<Rightarrow> (set cs, w)
      else ({}, w))"

text \<open>The score of a video when no vectors are there, and the score with vectors.\<close>

definition cold_score :: "string set \<Rightarrow> Video \<Rightarrow> float64" where
  "cold_score prefs v =
     (if v_Category v \<in> prefs then f_add (f_of_int 1) categoryBoost else f_of_int 1)"

definition warm_score :: "vectors option \<Rightarrow> float64 list option \<Rightarrow> string set \<Rightarrow> Video \<Rightarrow> float64" where
  "warm_score vv userFactors prefs v =
     (let score = f_mul (f_of_int (v_Views v)) tenth in
      case userFactors of
        Some p \<Rightarrow>
          (case Option.bind vv (\<lambda>m. m (v_ID v)) of
             Some q \<Rightarrow> let pred = dot factors p q in
                       if \<not> IsNaN pred \<and> \<not> IsInf pred then f_add score pred else score
           | None \<Rightarrow> score)
      | None \<Rightarrow> if v_Category v \<in> prefs then f_add score categoryBoost else score)"

definition is_cold :: "recmodel \<Rightarrow> bool" where
  "is_cold M \<longleftrightarrow> trainedIsEmpty M \<or> userVec M = None"

definition scored :: "recmodel \<Rightarrow> string \<Rightarrow> string set \<Rightarrow> Video list \<Rightarrow> RecommendedVideo list" where
  "scored M userID prefs vs =
     map (\<lambda>v. \<lparr>rec_Video = v, rec_PredictedScore =
                (if is_cold M then cold_score prefs v
                 else warm_score (videoVec M) (the (userVec M) userID) prefs v)\<rparr>) vs"

definition GetPersonalizedFeed ::
  "env \<Rightarrow> reclib \<Rightarrow> recmodel \<Rightarrow> string \<Rightarrow> int \<Rightarrow> int \<Rightarrow> world \<Rightarrow>
   (RecommendedVideoItem PageResponse res \<times> world) option" where
  "GetPersonalizedFeed E L M userID page limit w =
     (case VideoRepo_List E feed_filter w of
        (Inl err, w) \<Rightarrow> Some (Inl (Errorf ''RecommendationUseCase - List'' err), w)
      | (Inr (allVideos, totalVideos), w) \<Rightarrow>
          case preferred E userID w of (prefs, w) \<Rightarrow>
            let recs = sort_slice L (scored M userID prefs allVideos) in
            case paginate recs page limit of
              None \<Rightarrow> None
            | Some xs \<Rightarrow>
                Some (Inr (ToPersonalizedFeedPageResponse xs
                             (if is_cold M then totalVideos else int (length recs)) page limit), w))"


section \<open>What training publishes\<close>

definition vectors_ok :: "vectors option \<Rightarrow> bool" where
  "vectors_ok v \<longleftrightarrow> (\<forall>m i p. v = Some m \<longrightarrow> m i = Some p \<longrightarrow> length p = factors \<and> list_all f_finite p)"

definition model_ok :: "recmodel \<Rightarrow> bool" where
  "model_ok M \<longleftrightarrow> vectors_ok (userVec M) \<and> vectors_ok (videoVec M) \<and>
     (userVec M = None \<longleftrightarrow> videoVec M = None) \<and> (trainedIsEmpty M \<longrightarrow> userVec M = None)"

lemma index_fold:
  assumes "\<forall>i k. fst mn i = Some k \<longrightarrow> k < snd mn"
  shows "dom (fst (fold index_add ids mn)) = dom (fst mn) \<union> set ids \<and>
    (\<forall>i k. fst (fold index_add ids mn) i = Some k \<longrightarrow> k < snd (fold index_add ids mn))"
  using assms
proof (induction ids arbitrary: mn)
  case Nil
  then show ?case by simp
next
  case (Cons x xs)
  let ?mn = "index_add x mn"
  have "\<forall>i k. fst ?mn i = Some k \<longrightarrow> k < snd ?mn"
    using Cons.prems by (auto simp: index_add_def less_Suc_eq split: option.splits)
  moreover have "dom (fst ?mn) = insert x (dom (fst mn))"
    by (auto simp: index_add_def split: option.splits)
  ultimately show ?case using Cons.IH [of ?mn] by auto
qed

lemma index_map_spec:
  assumes "index_map ids = (m, n)"
  shows "dom m = set ids" "m i = Some k \<Longrightarrow> k < n"
  using index_fold [of "(Map.empty, 0)" ids] assms by (auto simp: index_map_def)

definition shape :: "nat \<Rightarrow> float64 list list \<Rightarrow> bool" where
  "shape n P \<longleftrightarrow> length P = n \<and> (\<forall>p \<in> set P. length p = factors)"

lemma shape_update: "shape n P \<Longrightarrow> length p = factors \<Longrightarrow> shape n (P[i := p])"
  unfolding shape_def using set_update_subset_insert [of P i p] by auto

lemma sgd_step_shape:
  "shape n (fst PQ) \<Longrightarrow> shape m (snd PQ) \<Longrightarrow> shape n (fst (sgd_step um vm x PQ)) \<and> shape m (snd (sgd_step um vm x PQ))"
  by (simp add: sgd_step_def Let_def shape_update sgd_row_def)

lemma sgd_epoch_shape:
  "shape n (fst PQ) \<Longrightarrow> shape m (snd PQ) \<Longrightarrow>
   shape n (fst (sgd_epoch um vm xs PQ)) \<and> shape m (snd (sgd_epoch um vm xs PQ))"
  unfolding sgd_epoch_def
proof (induction xs arbitrary: PQ)
  case (Cons x xs)
  then show ?case using sgd_step_shape [of n PQ m um vm x] by simp
qed simp

lemma sgd_epochs_shape:
  "shape n (fst PQ) \<Longrightarrow> shape m (snd PQ) \<Longrightarrow>
   shape n (fst ((sgd_epoch um vm xs ^^ k) PQ)) \<and> shape m (snd ((sgd_epoch um vm xs ^^ k) PQ))"
proof (induction k)
  case (Suc k)
  then show ?case using sgd_epoch_shape [of n "(sgd_epoch um vm xs ^^ k) PQ" m um vm xs] by simp
qed simp

lemma random_matrix_shape: "shape n (random_matrix rnd a n)"
  by (auto simp: shape_def random_matrix_def)

lemma keyed_ok:
  assumes "index_map ids = (m, n)" "shape n P" "allFinite P"
  shows "vectors_ok (Some (keyed m P))" "dom (keyed m P) = set ids"
proof -
  have "length p = factors \<and> list_all f_finite p" if p: "keyed m P i = Some p" for i p
  proof -
    obtain k where "m i = Some k" "p = P ! k" using p by (auto simp: keyed_def)
    then have "p \<in> set P" using index_map_spec(2) [OF assms(1)] assms(2) by (simp add: shape_def)
    then show ?thesis
      using assms(2,3) by (auto simp: shape_def allFinite_def list_all_iff f_finite_def)
  qed
  then show "vectors_ok (Some (keyed m P))" by (auto simp: vectors_ok_def)
  show "dom (keyed m P) = set ids"
    using index_map_spec(1) [OF assms(1)] by (auto simp: keyed_def dom_def)
qed

text \<open>The identifiers among the interactions are those of the three tables.\<close>

lemma interactions_users: "in_UserID ` set (interactions_of d) = fst ` fst ` set (rated d)"
  and interactions_videos: "in_VideoID ` set (interactions_of d) = snd ` fst ` set (rated d)"
  by (force simp: interactions_of_def image_iff)+

lemma FetchInteractions_quiet: "FetchInteractions E w = (r, w') \<Longrightarrow> quiet w w'"
  by (auto simp: FetchInteractions_def dest: Query_bump split: prod.splits sum.splits)

lemma train_spec:
  assumes "train E L M w = (r, M', w')"
  shows "quiet w w' \<and>
    (case r of
       Inl _ \<Rightarrow> M' = M
     | Inr _ \<Rightarrow> (\<exists>xs w1. FetchInteractions E w = (Inr xs, w1) \<and> model_ok M' \<and>
         (if xs = [] then trainedIsEmpty M'
          else \<not> trainedIsEmpty M' \<and> (\<exists>P Q. userVec M' = Some P \<and> videoVec M' = Some Q \<and>
                dom P = in_UserID ` set xs \<and> dom Q = in_VideoID ` set xs))))"
proof (cases "FetchInteractions E w")
  case (Pair res w1)
  note q = FetchInteractions_quiet [OF Pair]
  show ?thesis
  proof (cases res)
    case (Inl e)
    then show ?thesis using assms Pair q by (auto simp: train_def)
  next
    case (Inr xs)
    show ?thesis
    proof (cases "xs = []")
      case True
      then show ?thesis
        using assms Pair Inr q by (auto simp: train_def model_ok_def vectors_ok_def)
    next
      case False
      obtain um n where u: "index_map (map in_UserID xs) = (um, n)" by (cases "index_map (map in_UserID xs)")
      obtain vm m where v: "index_map (map in_VideoID xs) = (vm, m)" by (cases "index_map (map in_VideoID xs)")
      let ?PQ0 = "(random_matrix (rand_Float64 L (tick w1)) 0 n, random_matrix (rand_Float64 L (tick w1)) (n * factors) m)"
      obtain P Q where pq: "(sgd_epoch um vm xs ^^ epochs) ?PQ0 = (P, Q)" by (cases "(sgd_epoch um vm xs ^^ epochs) ?PQ0")
      have s: "shape n P" "shape m Q"
        using sgd_epochs_shape [where n = n and m = m and PQ = ?PQ0 and um = um and vm = vm and xs = xs and k = epochs] pq by (simp_all add: random_matrix_shape)
      have t: "train E L M w = (if \<not> allFinite P \<or> \<not> allFinite Q
          then (Inl (NewErr ''RecommendationUseCase - train: model diverged (non-finite values), keeping previous cache''), M, w1)
          else (Inr (), \<lparr>trainedIsEmpty = False, userVec = Some (keyed um P), videoVec = Some (keyed vm Q)\<rparr>, w1))"
        using False by (simp add: train_def Pair Inr u v pq)
      then show ?thesis
        using assms Pair Inr q False keyed_ok [OF u s(1)] keyed_ok [OF v s(2)]
        by (auto simp: model_ok_def split: if_splits)
    qed
  qed
qed

lemma model_reach_ok: "model_reach E L M \<Longrightarrow> model_ok M"
proof (induction rule: model_reach.induct)
  case model_new
  then show ?case by (simp add: New_model_def model_ok_def vectors_ok_def)
next
  case (model_train M w r M' w')
  then show ?case using train_spec [OF model_train(2)] by (auto split: sum.splits)
qed


text \<open>C26: A training pass over a healthy database leaves the database alone.  When it fails, the model that was
  served before is kept.  When it succeeds, either nothing was liked, commented or watched and the
  model is cold, or exactly the users and exactly the videos of the three tables have a vector.  Every
  vector that is ever published has ten entries, all of them finite.\<close>

theorem training_exact:
  assumes "healthy E" "model_reach E L M" "train E L M w = (r, M', w')"
  shows "model_ok M' \<and> quiet w w' \<and> (isl r \<longrightarrow> M' = M) \<and>
    (\<not> isl r \<longrightarrow>
       (if likes (db w) = [] \<and> comments (db w) = [] \<and> watch_history (db w) = [] then is_cold M'
        else \<not> is_cold M' \<and>
          dom (the (userVec M')) =
            mk_user_id ` set (likes (db w)) \<union> cm_user_id ` set (comments (db w)) \<union> wh_UserID ` set (watch_history (db w)) \<and>
          dom (the (videoVec M')) =
            mk_target_id ` set (likes (db w)) \<union> cm_video_id ` set (comments (db w)) \<union> wh_VideoID ` set (watch_history (db w))))"
proof -
  have u: "fst ` fst ` set (rated (db w)) =
      mk_user_id ` set (likes (db w)) \<union> cm_user_id ` set (comments (db w)) \<union> wh_UserID ` set (watch_history (db w))"
    and v: "snd ` fst ` set (rated (db w)) =
      mk_target_id ` set (likes (db w)) \<union> cm_video_id ` set (comments (db w)) \<union> wh_VideoID ` set (watch_history (db w))"
    by (simp_all add: rated_def image_Un image_image Un_assoc)
  have f: "FetchInteractions E w = (Inr (interactions_of (db w)), bump w)"
    by (simp add: FetchInteractions_def Query_healthy [OF assms(1)])
  have e: "interactions_of (db w) = [] \<longleftrightarrow> likes (db w) = [] \<and> comments (db w) = [] \<and> watch_history (db w) = []"
    by (auto simp: interactions_of_def rated_def remdups_eq_nil_iff)
  note s = train_spec [OF assms(3)]
  show ?thesis
  proof (cases r)
    case (Inl x)
    then show ?thesis using s model_reach_ok [OF assms(2)] by simp
  next
    case (Inr x)
    then have m: "model_ok M'" and
      c: "if interactions_of (db w) = [] then trainedIsEmpty M'
          else \<not> trainedIsEmpty M' \<and> (\<exists>P Q. userVec M' = Some P \<and> videoVec M' = Some Q \<and>
                dom P = in_UserID ` set (interactions_of (db w)) \<and> dom Q = in_VideoID ` set (interactions_of (db w)))"
      using s f by auto
    show ?thesis
    proof (cases "interactions_of (db w) = []")
      case True
      then show ?thesis using c m s Inr e by (simp add: is_cold_def)
    next
      case False
      then obtain P Q where "\<not> trainedIsEmpty M'" "userVec M' = Some P" "videoVec M' = Some Q"
        "dom P = in_UserID ` set (interactions_of (db w))" "dom Q = in_VideoID ` set (interactions_of (db w))"
        using c by auto
      then show ?thesis
        using m s Inr False unfolding e interactions_users interactions_videos u v by (simp add: is_cold_def)
    qed
  qed
qed

text \<open>A reference instance of the parameters.\<close>

definition ref_lib :: reclib where
  "ref_lib = \<lparr>rand_Float64 = \<lambda>_ _. 0, sort_slice = sort_key (\<lambda>r. - f_key (rec_PredictedScore r))\<rparr>"

definition watched_world :: world where
  "watched_world = init_world\<lparr>db := empty_db\<lparr>watch_history :=
     [\<lparr>wh_UserID = ''u'', wh_VideoID = ''v'', wh_WatchSeconds = 5, wh_LastWatchedAt = 0\<rparr>]\<rparr>\<rparr>"

theorem training_exact_witness:
  "\<exists>r M' w'. train test_env ref_lib New_model watched_world = (r, M', w') \<and> model_ok M' \<and>
     (isl r \<or> dom (the (userVec M')) = {''u''} \<and> dom (the (videoVec M')) = {''v''})"
proof -
  obtain r M' w' where t: "train test_env ref_lib New_model watched_world = (r, M', w')"
    by (cases "train test_env ref_lib New_model watched_world") auto
  from training_exact [OF test_env_healthy model_new t] show ?thesis
    using t by (auto simp: watched_world_def empty_db_def)
qed

section \<open>What a feed shows\<close>

text \<open>The documented behaviour of \<^verbatim>\<open>sort.Slice\<close>: a permutation, in order when the scores are
  numbers.\<close>

definition sort_law :: "reclib \<Rightarrow> bool" where
  "sort_law L \<longleftrightarrow> (\<forall>xs. mset (sort_slice L xs) = mset xs \<and>
     ((\<forall>x \<in> set xs. \<not> IsNaN (rec_PredictedScore x)) \<longrightarrow>
      sorted_wrt (\<lambda>a b. \<not> f_lt (rec_PredictedScore a) (rec_PredictedScore b)) (sort_slice L xs)))"

lemma ref_lib_law: "sort_law ref_lib"
proof -
  have "sorted_wrt (\<lambda>a b. \<not> f_lt (rec_PredictedScore a) (rec_PredictedScore b))
      (sort_key (\<lambda>r. - f_key (rec_PredictedScore r)) xs)" for xs :: "RecommendedVideo list"
  proof -
    have "sorted_wrt (\<lambda>a b. - f_key (rec_PredictedScore a) \<le> - f_key (rec_PredictedScore b))
        (sort_key (\<lambda>r. - f_key (rec_PredictedScore r)) xs)"
      using sorted_sort_key [of "\<lambda>r. - f_key (rec_PredictedScore r)" xs] by (simp only: sorted_map)
    then show ?thesis by (rule sorted_wrt_mono_rel [rotated]) (simp add: f_lt_def)
  qed
  then show ?thesis by (simp add: sort_law_def ref_lib_def)
qed

lemma tenth_number: "f_finite tenth" "f_mant tenth \<noteq> 0"
  by (simp_all add: tenth_def f_finite_def IsNaN_def IsInf_def f_exp_def f_frac_def f_mant_def)

lemma boost_value: "categoryBoost = 0x412E848000000000"
  by (simp add: categoryBoost_def f_of_int_def f_round_def width.simps Let_def)

lemma boost_finite: "f_finite categoryBoost"
  by (simp add: boost_value f_finite_def IsNaN_def IsInf_def f_exp_def f_frac_def)

lemma cold_not_nan: "\<not> IsNaN (cold_score prefs v)"
  by (simp add: cold_score_def f_add_not_nan boost_finite)

lemma warm_not_nan: "\<not> IsNaN (warm_score vv p prefs v)"
proof -
  have "\<not> IsNaN (f_mul (f_of_int (v_Views v)) tenth)" by (simp add: f_mul_not_nan tenth_number)
  moreover have "f_finite q" if "\<not> IsNaN q" "\<not> IsInf q" for q using that by (simp add: f_finite_def)
  ultimately show ?thesis
    by (auto simp: warm_score_def Let_def f_add_not_nan boost_finite split: option.splits)
qed

lemma score_not_nan: "x \<in> set (scored M u prefs vs) \<Longrightarrow> \<not> IsNaN (rec_PredictedScore x)"
  using cold_not_nan warm_not_nan by (auto simp: scored_def split: if_splits)

lemma cold_order: "f_lt (f_of_int 1) (f_add (f_of_int 1) categoryBoost)"
proof -
  have "f_of_int 1 = 0x3FF0000000000000"
    by (simp add: f_of_int_def f_round_def width.simps Let_def)
  moreover have "f_add 0x3FF0000000000000 0x412E848000000000 = 0x412E848200000000"
    by (simp add: f_add_def f_round_def half_even_def width.simps Let_def IsNaN_def IsInf_def f_exp_def f_frac_def f_neg_def f_mant_def f_pow_def)
  ultimately show ?thesis
    by (simp add: boost_value f_lt_def IsNaN_def f_exp_def f_frac_def f_key_def f_neg_def)
qed

lemma paginate_small:
  assumes "1 \<le> page" "small_int page" "small_int limit" "0 < limit" "length recs \<le> 50"
  shows "paginate recs page limit = Some (page_of page limit recs)"
proof -
  note off = page_offset_small [OF assms(1,2,3)]
  have "wrap64 (page_offset page limit + limit) = page_offset page limit + limit"
    if "page_offset page limit < int (length recs)"
    using that off(2) assms(3,5) by (intro wrap64_id) (simp add: in_int64_def small_int_def)
  then show ?thesis
    using assms(1,4) off(2)
    by (auto simp: paginate_def Let_def page_of_def off(1) go_slice_def)
qed


definition feed_candidates :: "db \<Rightarrow> video_row list" where
  "feed_candidates d = order_desc vd_created_at
     (filter (\<lambda>r. vd_status r = VideoStatusComplete \<and> vd_visibility r = VideoVisibilityPublic) (videos d))"

definition preferred_in :: "string \<Rightarrow> db \<Rightarrow> string set" where
  "preferred_in userID d = (if userID = [] then {} else snd ` {p \<in> set (category_preferences d). fst p = userID})"

lemma feed_fetch:
  assumes "healthy E"
  shows "VideoRepo_List E feed_filter w =
    (Inr (map (video_of_row (db w)) (take 50 (feed_candidates (db w))), int (length (feed_candidates (db w)))), bump (bump w))"
proof -
  have "filter (video_matches E feed_filter (db w)) (videos (db w)) =
      filter (\<lambda>r. vd_status r = VideoStatusComplete \<and> vd_visibility r = VideoVisibilityPublic) (videos (db w))"
    by (intro filter_cong refl) (auto simp: video_matches_def feed_filter_def no_filter_def)
  then show ?thesis
    using VideoRepo_List_healthy [OF assms, of feed_filter w]
    by (simp add: Let_def feed_candidates_def) (simp add: feed_filter_def no_filter_def)
qed

lemma preferred_healthy:
  assumes "healthy E"
  shows "\<exists>w'. preferred E userID w = (preferred_in userID (db w), w') \<and> quiet w w'"
  by (auto simp: preferred_def preferred_in_def UserPreferenceRepo_GetCategories_def Query_healthy [OF assms] image_def)

text \<open>The ranking of a list of videos.\<close>

lemma ranking:
  assumes "sort_law L"
  defines "recs \<equiv> \<lambda>M u prefs vs. sort_slice L (scored M u prefs vs)"
  shows "mset (map rec_Video (recs M u prefs vs)) = mset vs"
    and "length (recs M u prefs vs) = length vs"
    and "sorted_wrt (\<lambda>a b. \<not> f_lt (rec_PredictedScore a) (rec_PredictedScore b)) (recs M u prefs vs)"
    and "list_all (\<lambda>x. \<not> IsNaN (rec_PredictedScore x)) (recs M u prefs vs)"
    and "is_cold M \<Longrightarrow> sorted_wrt (\<lambda>a b. v_Category b \<in> prefs \<longrightarrow> v_Category a \<in> prefs) (map rec_Video (recs M u prefs vs))"
proof -
  let ?sc = "scored M u prefs vs" and ?recs = "sort_slice L (scored M u prefs vs)"
  have ms: "mset ?recs = mset ?sc" using assms(1) by (simp add: sort_law_def)
  then have st: "set ?recs = set ?sc" and len: "length ?recs = length ?sc"
    using mset_eq_setD mset_eq_length by blast+
  have "mset (map rec_Video ?recs) = image_mset rec_Video (mset ?recs)" by simp
  also have "\<dots> = mset (map rec_Video ?sc)" by (simp only: ms mset_map)
  finally show "mset (map rec_Video (recs M u prefs vs)) = mset vs" by (simp add: recs_def scored_def comp_def)
  show "length (recs M u prefs vs) = length vs" unfolding recs_def len by (simp add: scored_def)
  show sd: "sorted_wrt (\<lambda>a b. \<not> f_lt (rec_PredictedScore a) (rec_PredictedScore b)) (recs M u prefs vs)"
    unfolding recs_def using assms(1) score_not_nan by (auto simp: sort_law_def)
  show "list_all (\<lambda>x. \<not> IsNaN (rec_PredictedScore x)) (recs M u prefs vs)"
    unfolding recs_def using st score_not_nan by (auto simp: list_all_iff)
  show "sorted_wrt (\<lambda>a b. v_Category b \<in> prefs \<longrightarrow> v_Category a \<in> prefs) (map rec_Video (recs M u prefs vs))" if c: "is_cold M"
  proof -
    have "rec_PredictedScore x = cold_score prefs (rec_Video x)" if "x \<in> set (recs M u prefs vs)" for x
      using that c unfolding recs_def st by (auto simp: scored_def)
    then show ?thesis
      unfolding sorted_wrt_map using cold_order
      by (intro sorted_wrt_mono_rel [OF _ sd]) (auto simp: cold_score_def split: if_splits)
  qed
qed

text \<open>C27: With any model that training can have published, a feed ranks exactly the fifty newest
  complete public videos, highest score first, and no score is NaN.  While the model is cold, the
  videos of the caller's preferred categories come first.  A page request within the bounds never
  panics and answers the slice of that ranking that the page names, with at most \<^verbatim>\<open>limit\<close> items;
  the total counts every matching video while the model is cold and only the ranked ones
  afterwards.  The slice expression panics for page numbers whose offset wraps below zero.\<close>

theorem personalized_feed_exact:
  assumes "healthy E" "model_reach E L M" "sort_law L"
  shows "let rows = feed_candidates (db w);
             vs = map (video_of_row (db w)) (take 50 rows);
             prefs = preferred_in userID (db w);
             recs = sort_slice L (scored M userID prefs vs)
         in mset (map rec_Video recs) = mset vs \<and>
            sorted_wrt (\<lambda>a b. \<not> f_lt (rec_PredictedScore a) (rec_PredictedScore b)) recs \<and>
            list_all (\<lambda>x. \<not> IsNaN (rec_PredictedScore x)) recs \<and>
            (is_cold M \<longrightarrow> sorted_wrt (\<lambda>a b. v_Category b \<in> prefs \<longrightarrow> v_Category a \<in> prefs) (map rec_Video recs)) \<and>
            (\<forall>page limit. 1 \<le> page \<and> small_int page \<and> small_int limit \<and> 0 < limit \<longrightarrow>
               (\<exists>w'. quiet w w' \<and> GetPersonalizedFeed E L M userID page limit w =
                  Some (Inr (page_response (ToRecommendedVideoItems (page_of page limit recs))
                         (int (length (if is_cold M then rows else take 50 rows))) page limit), w'))) \<and>
            (rows \<noteq> [] \<longrightarrow> GetPersonalizedFeed E L M userID 4611686018427387904 4 w = None)"
proof -
  let ?rows = "feed_candidates (db w)"
  let ?vs = "map (video_of_row (db w)) (take 50 ?rows)"
  let ?prefs = "preferred_in userID (db w)"
  let ?recs = "sort_slice L (scored M userID ?prefs ?vs)"
  note rk = ranking [OF assms(3), where M = M and u = userID and prefs = ?prefs and vs = ?vs]
  obtain w' where p: "preferred E userID (bump (bump w)) = (?prefs, w')" "quiet (bump (bump w)) w'"
    using preferred_healthy [OF assms(1), of userID "bump (bump w)"] by auto
  have run: "GetPersonalizedFeed E L M userID page limit w =
      map_option (\<lambda>xs. (Inr (ToPersonalizedFeedPageResponse xs
         (if is_cold M then int (length ?rows) else int (length ?recs)) page limit), w')) (paginate ?recs page limit)" for page limit
    by (simp add: GetPersonalizedFeed_def feed_fetch [OF assms(1)] p(1) Let_def split: option.splits)
  have l50: "length ?recs \<le> 50" "length ?recs = length (take 50 ?rows)" using rk(2) by simp_all
  have pages: "\<exists>w'. quiet w w' \<and> GetPersonalizedFeed E L M userID page limit w =
      Some (Inr (page_response (ToRecommendedVideoItems (page_of page limit ?recs))
         (int (length (if is_cold M then ?rows else take 50 ?rows))) page limit), w')"
    if "1 \<le> page" "small_int page" "small_int limit" "0 < limit" for page limit
    using p(2) l50(2) by (auto simp: run paginate_small [OF that l50(1)] ToPersonalizedFeedPageResponse_def)
  have panic: "GetPersonalizedFeed E L M userID 4611686018427387904 4 w = None" if "?rows \<noteq> []"
    by (simp add: run paginate_def Let_def page_offset_def wrap64_def go_slice_def)
  show ?thesis unfolding Let_def using rk(1,3-5) pages panic by blast
qed

theorem personalized_feed_exact_witness:
  "\<exists>w'. GetPersonalizedFeed test_env ref_lib New_model ''u'' 1 10 clip_world =
      Some (Inr (page_response (ToRecommendedVideoItems (page_of 1 10 (sort_slice ref_lib
              (scored New_model ''u'' (preferred_in ''u'' (db clip_world))
                (map (video_of_row (db clip_world)) (take 50 (feed_candidates (db clip_world))))))))
           (int (length (feed_candidates (db clip_world)))) 1 10), w')"
proof -
  note h = personalized_feed_exact [OF test_env_healthy model_new ref_lib_law, of clip_world "''u''", unfolded Let_def]
  have "small_int 1" "small_int 10" by (simp_all add: small_int_def)
  then show ?thesis
    using h [THEN conjunct2, THEN conjunct2, THEN conjunct2, THEN conjunct2, THEN conjunct1, rule_format, of 1 10]
    by (auto simp: is_cold_def New_model_def)
qed

end
