(* ===== verification/Follows.thy ===== *)
theory Follows
  imports Marks
begin

text \<open>
  Following a channel: the repository \<^verbatim>\<open>internal/repo/persistent/follow\<close> and the use case
  \<^verbatim>\<open>internal/usecase/follow\<close>.
\<close>

section \<open>Table follows\<close>

definition follow_pair :: "follow_row \<Rightarrow> string \<times> string" where
  "follow_pair f = (fl_follower_id f, fl_channel_id f)"

text \<open>\<^verbatim>\<open>ON CONFLICT (follower_id, channel_id) DO NOTHING\<close>\<close>

definition insert_follow :: "follow_row \<Rightarrow> stmt" where
  "insert_follow f d =
     check (varchar_ok [(64, fl_follower_id f), (64, fl_channel_id f)]) ''22001''
      (if follow_pair f \<in> follow_pair ` set (follows d) then Inr (0, d)
       else Inr (1, d\<lparr>follows := follows d @ [f]\<rparr>))"

definition delete_follow :: "string \<Rightarrow> string \<Rightarrow> stmt" where
  "delete_follow followerID channelID d =
     Inr (length (filter (\<lambda>f. follow_pair f = (followerID, channelID)) (follows d)),
          d\<lparr>follows := sql_delete (\<lambda>f. follow_pair f = (followerID, channelID)) (follows d)\<rparr>)"

definition follows_ok :: "db \<Rightarrow> bool" where
  "follows_ok d \<longleftrightarrow> distinct (map follow_pair (follows d)) \<and>
     (\<forall>f \<in> set (follows d). varchar_ok [(64, fl_follower_id f), (64, fl_channel_id f)])"

definition follow_stmts :: "stmt set" where
  "follow_stmts = {insert_follow f | f. fl_follower_id f \<noteq> fl_channel_id f} \<union> {delete_follow u c | u c. True}"

lemma follow_stmtsI [intro]:
  "fl_follower_id f \<noteq> fl_channel_id f \<Longrightarrow> insert_follow f \<in> follow_stmts" "delete_follow u c \<in> follow_stmts"
  by (auto simp: follow_stmts_def)

lemma insert_follow_Inr:
  "insert_follow f d = Inr (n, d') \<longleftrightarrow>
     varchar_ok [(64, fl_follower_id f), (64, fl_channel_id f)] \<and>
     (if follow_pair f \<in> follow_pair ` set (follows d) then n = 0 \<and> d' = d
      else n = 1 \<and> d' = d\<lparr>follows := follows d @ [f]\<rparr>)"
  by (auto simp: insert_follow_def)

lemma follow_stmts_ok: "s \<in> follow_stmts \<Longrightarrow> follows_ok d \<Longrightarrow> s d = Inr (n, d') \<Longrightarrow> follows_ok d'"
  by (auto simp: follow_stmts_def insert_follow_Inr delete_follow_def follows_ok_def distinct_map_delete split: if_splits)

lemma follow_stmts_frame: "s \<in> follow_stmts \<Longrightarrow> s d = Inr (n, d') \<Longrightarrow> d' = d\<lparr>follows := follows d'\<rparr>"
  by (auto simp: follow_stmts_def insert_follow_Inr delete_follow_def split: if_splits)

section \<open>Repository\<close>

definition FollowRepo_Follow :: "env \<Rightarrow> string \<Rightarrow> string \<Rightarrow> world \<Rightarrow> unit res \<times> world" where
  "FollowRepo_Follow E followerID channelID w =
     (case Exec E (insert_follow \<lparr>fl_follower_id = followerID, fl_channel_id = channelID,
                                  fl_created_at = clock E (tick w)\<rparr>) w of
        (Inl err, w) \<Rightarrow> (Inl (Errorf ''FollowRepo - Follow - Exec'' err), w)
      | (Inr _, w) \<Rightarrow> (Inr (), w))"

definition FollowRepo_Unfollow :: "env \<Rightarrow> string \<Rightarrow> string \<Rightarrow> world \<Rightarrow> unit res \<times> world" where
  "FollowRepo_Unfollow E followerID channelID w =
     (case Exec E (delete_follow followerID channelID) w of
        (Inl err, w) \<Rightarrow> (Inl (Errorf ''FollowRepo - Unfollow - Exec'' err), w)
      | (Inr _, w) \<Rightarrow> (Inr (), w))"

definition FollowRepo_IsFollowing :: "env \<Rightarrow> string \<Rightarrow> string \<Rightarrow> world \<Rightarrow> bool res \<times> world" where
  "FollowRepo_IsFollowing E followerID channelID w =
     (case QueryRow E (\<lambda>d. Inr (row_at follow_pair (followerID, channelID) (follows d))) w of
        (Inl err, w) \<Rightarrow>
          if errors_Is err ErrNoRows then (Inr False, w)
          else (Inl (Errorf ''FollowRepo - IsFollowing - QueryRow'' err), w)
      | (Inr _, w) \<Rightarrow> (Inr True, w))"

definition FollowRepo_CountFollowers :: "env \<Rightarrow> string \<Rightarrow> world \<Rightarrow> int res \<times> world" where
  "FollowRepo_CountFollowers E channelID w =
     (case QueryRow E (\<lambda>d. Inr (Some (sql_count (\<lambda>f. fl_channel_id f = channelID) (follows d)))) w of
        (Inl err, w) \<Rightarrow> (Inl (Errorf ''FollowRepo - CountFollowers - QueryRow'' err), w)
      | (Inr n, w) \<Rightarrow> (Inr n, w))"

text \<open>The \<^verbatim>\<open>JOIN\<close> with \<^verbatim>\<open>users\<close>; the role is not selected and stays empty.\<close>

definition joined_user :: "db \<Rightarrow> string \<Rightarrow> User list" where
  "joined_user d i = (case row_at u_ID i (users d) of None \<Rightarrow> [] | Some u \<Rightarrow> [u\<lparr>u_Role := []\<rparr>])"

definition FollowRepo_ListFollowedChannels :: "env \<Rightarrow> string \<Rightarrow> int \<Rightarrow> int \<Rightarrow> world \<Rightarrow> (User list \<times> int) res \<times> world" where
  "FollowRepo_ListFollowedChannels E followerID page limit w =
     (let offset = page_offset page limit
      in case QueryRow E (\<lambda>d. Inr (Some (sql_count (\<lambda>f. fl_follower_id f = followerID) (follows d)))) w of
           (Inl err, w) \<Rightarrow> (Inl (Errorf ''FollowRepo - ListFollowedChannels - count query'' err), w)
         | (Inr n, w) \<Rightarrow>
             (case Query E (\<lambda>d. sql_page (to_uint64 limit) (to_uint64 offset)
                      (concat (map (\<lambda>f. joined_user d (fl_channel_id f))
                        (order_desc fl_created_at (filter (\<lambda>f. fl_follower_id f = followerID) (follows d)))))) w of
                (Inl err, w) \<Rightarrow> (Inl (Errorf ''FollowRepo - ListFollowedChannels - Query'' err), w)
              | (Inr us, w) \<Rightarrow> (Inr (us, n), w)))"

text \<open>The users who follow a channel, latest first.\<close>

definition followers_of :: "string \<Rightarrow> db \<Rightarrow> User list" where
  "followers_of channelID d =
     concat (map (\<lambda>f. joined_user d (fl_follower_id f))
       (order_desc fl_created_at (filter (\<lambda>f. fl_channel_id f = channelID) (follows d))))"

definition FollowRepo_ListFollowers :: "env \<Rightarrow> string \<Rightarrow> int \<Rightarrow> world \<Rightarrow> User list res \<times> world" where
  "FollowRepo_ListFollowers E channelID limit w =
     (case Query E (\<lambda>d. sql_page (to_uint64 limit) 0 (followers_of channelID d)) w of
        (Inl err, w) \<Rightarrow> (Inl (Errorf ''FollowRepo - ListFollowers - Query'' err), w)
      | (Inr us, w) \<Rightarrow> (Inr us, w))"

section \<open>Use case\<close>

definition Follow_ToggleFollow :: "env \<Rightarrow> string \<Rightarrow> string \<Rightarrow> world \<Rightarrow> FollowToggleResponse res \<times> world" where
  "Follow_ToggleFollow E followerID channelID w =
     (if followerID = channelID then (Inl ErrCannotFollowSelf, w)
      else case FollowRepo_IsFollowing E followerID channelID w of
        (Inl err, w) \<Rightarrow> (Inl (Errorf ''FollowUseCase - ToggleFollow - IsFollowing'' err), w)
      | (Inr following, w) \<Rightarrow>
          (case (if following
                 then (case FollowRepo_Unfollow E followerID channelID w of
                         (Inl err, w) \<Rightarrow> (Inl (Errorf ''FollowUseCase - ToggleFollow - Unfollow'' err), w)
                       | (Inr _, w) \<Rightarrow> (Inr (), w))
                 else (case FollowRepo_Follow E followerID channelID w of
                         (Inl err, w) \<Rightarrow> (Inl (Errorf ''FollowUseCase - ToggleFollow - Follow'' err), w)
                       | (Inr _, w) \<Rightarrow> (Inr (), w))) of
             (Inl err, w) \<Rightarrow> (Inl err, w)
           | (Inr _, w) \<Rightarrow>
               (case FollowRepo_CountFollowers E channelID w of
                  (Inl err, w) \<Rightarrow> (Inl (Errorf ''FollowUseCase - ToggleFollow - CountFollowers'' err), w)
                | (Inr n, w) \<Rightarrow>
                    (Inr \<lparr>ft_ChannelID = channelID, ft_Following = \<not> following, ft_FollowersCount = n\<rparr>, w))))"

definition Follow_CountFollowers :: "env \<Rightarrow> string \<Rightarrow> world \<Rightarrow> int res \<times> world" where
  "Follow_CountFollowers E channelID w = FollowRepo_CountFollowers E channelID w"

definition Follow_IsFollowing :: "env \<Rightarrow> string \<Rightarrow> string \<Rightarrow> world \<Rightarrow> bool res \<times> world" where
  "Follow_IsFollowing E followerID channelID w =
     (if followerID = [] then (Inr False, w) else FollowRepo_IsFollowing E followerID channelID w)"

definition Follow_ListFollowedChannels :: "env \<Rightarrow> string \<Rightarrow> int \<Rightarrow> int \<Rightarrow> world \<Rightarrow> Creator PageResponse res \<times> world" where
  "Follow_ListFollowedChannels E followerID page limit w =
     (case FollowRepo_ListFollowedChannels E followerID page limit w of
        (Inl err, w) \<Rightarrow> (Inl (Errorf ''FollowUseCase - ListFollowedChannels'' err), w)
      | (Inr (channels, n), w) \<Rightarrow>
          (Inr (page_response (map (\<lambda>c. \<lparr>cr_ID = u_ID c, cr_Name = u_Username c, cr_Avatar = u_Avatar c\<rparr>) channels)
                  n page limit), w))"

section \<open>Effects\<close>

lemma FollowRepo_reads_quiet:
  "FollowRepo_IsFollowing E u c w = (r1, w') \<Longrightarrow> quiet w w'"
  "FollowRepo_CountFollowers E c w = (r2, w') \<Longrightarrow> quiet w w'"
  "FollowRepo_ListFollowers E c l w = (r3, w') \<Longrightarrow> quiet w w'"
  "FollowRepo_ListFollowedChannels E u p l w = (r4, w') \<Longrightarrow> quiet w w'"
  by (auto simp: FollowRepo_IsFollowing_def FollowRepo_CountFollowers_def FollowRepo_ListFollowers_def
      FollowRepo_ListFollowedChannels_def Let_def split: prod.splits sum.splits if_splits dest!: driver_bump)

lemma FollowRepo_Follow_runs: "FollowRepo_Follow E u c w = (r, w') \<Longrightarrow> u \<noteq> c \<Longrightarrow> effect follow_stmts w w'"
  by (auto simp: FollowRepo_Follow_def split: prod.splits sum.splits intro!: Exec_effect)

lemma FollowRepo_Unfollow_runs: "FollowRepo_Unfollow E u c w = (r, w') \<Longrightarrow> effect follow_stmts w w'"
  by (auto simp: FollowRepo_Unfollow_def split: prod.splits sum.splits intro!: Exec_effect)

lemma Follow_ListFollowedChannels_quiet: "Follow_ListFollowedChannels E u p l w = (r, w') \<Longrightarrow> quiet w w'"
  by (auto simp: Follow_ListFollowedChannels_def split: prod.splits sum.splits dest: FollowRepo_reads_quiet(4))

lemma Follow_ToggleFollow_runs:
  assumes "Follow_ToggleFollow E u c w = (r, w')"
  shows "effect follow_stmts w w'"
proof (cases "u = c")
  case True
  then show ?thesis using assms by (simp add: Follow_ToggleFollow_def)
next
  case False
  obtain r1 w1 where i: "FollowRepo_IsFollowing E u c w = (r1, w1)" by force
  note q = FollowRepo_reads_quiet(1) [OF i]
  have "effect follow_stmts w1 w'"
    using assms False i
    by (auto simp: Follow_ToggleFollow_def split: prod.splits sum.splits if_splits
        dest!: FollowRepo_Follow_runs [OF _ False] FollowRepo_Unfollow_runs FollowRepo_reads_quiet(2)
        intro: then_quiet)
  then show ?thesis using q by (rule quiet_then)
qed

section \<open>Properties\<close>

lemma FollowRepo_IsFollowing_Inr:
  "FollowRepo_IsFollowing E u c w = (Inr b, w') \<Longrightarrow> b \<longleftrightarrow> (u, c) \<in> follow_pair ` set (follows (db w))"
proof -
  assume a: "FollowRepo_IsFollowing E u c w = (Inr b, w')"
  then show ?thesis
  proof (cases "row_at follow_pair (u, c) (follows (db w))")
    case None
    then show ?thesis using a row_at_None [of follow_pair "(u, c)" "follows (db w)"]
      by (auto simp: FollowRepo_IsFollowing_def QueryRow_def split: option.splits if_splits)
  next
    case (Some f)
    then have "(u, c) \<in> follow_pair ` set (follows (db w))" using row_at_Some by force
    then show ?thesis using a Some
      by (auto simp: FollowRepo_IsFollowing_def QueryRow_def split: option.splits if_splits)
  qed
qed

lemma FollowRepo_CountFollowers_Inr:
  "FollowRepo_CountFollowers E c w = (Inr n, w') \<Longrightarrow> n = sql_count (\<lambda>f. fl_channel_id f = c) (follows (db w)) \<and> quiet w w'"
  by (auto simp: FollowRepo_CountFollowers_def split: prod.splits sum.splits dest!: QueryRow_InrD)

lemma follower_count_card:
  assumes "follows_ok d"
  shows "sql_count (\<lambda>f. fl_channel_id f = c) (follows d) = int (card {u. (u, c) \<in> follow_pair ` set (follows d)})"
proof -
  let ?fs = "filter (\<lambda>f. fl_channel_id f = c) (follows d)"
  have d: "distinct (map fl_follower_id ?fs)"
    using assms unfolding follows_ok_def distinct_map by (auto simp: follow_pair_def inj_on_def)
  have "{u. (u, c) \<in> follow_pair ` set (follows d)} = set (map fl_follower_id ?fs)"
    by (auto simp: follow_pair_def image_iff)
  then show ?thesis using distinct_card [OF d] by (simp add: sql_count_def)
qed

text \<open>The effect of a successful toggle on the table.\<close>

lemma Follow_ToggleFollow_Inr:
  assumes "Follow_ToggleFollow E u c w = (Inr r, w')"
  shows "u \<noteq> c" "ft_Following r \<longleftrightarrow> (u, c) \<notin> follow_pair ` set (follows (db w))"
    "follow_pair ` set (follows (db w')) =
       (if ft_Following r then insert (u, c) (follow_pair ` set (follows (db w))) else follow_pair ` set (follows (db w)) - {(u, c)})"
    "ft_FollowersCount r = sql_count (\<lambda>f. fl_channel_id f = c) (follows (db w'))"
proof -
  show ne: "u \<noteq> c" using assms by (auto simp: Follow_ToggleFollow_def split: if_splits)
  from assms ne obtain b w1 where i: "FollowRepo_IsFollowing E u c w = (Inr b, w1)"
    by (auto simp: Follow_ToggleFollow_def split: prod.splits sum.splits)
  have q: "db w1 = db w" using FollowRepo_reads_quiet(1) [OF i] by (simp add: quietD)
  from assms ne i have r: "ft_Following r = (\<not> b)"
    by (auto simp: Follow_ToggleFollow_def split: prod.splits sum.splits if_splits)
  with FollowRepo_IsFollowing_Inr [OF i] show s: "ft_Following r \<longleftrightarrow> (u, c) \<notin> follow_pair ` set (follows (db w))" by simp
  from assms ne i obtain w2 where
    step: "if b then FollowRepo_Unfollow E u c w1 = (Inr (), w2) else FollowRepo_Follow E u c w1 = (Inr (), w2)"
    and cnt: "FollowRepo_CountFollowers E c w2 = (Inr (ft_FollowersCount r), w')"
    by (auto simp: Follow_ToggleFollow_def split: prod.splits sum.splits if_splits)
  have eq: "db w' = db w2" using FollowRepo_CountFollowers_Inr [OF cnt] quietD(1) by blast
  with FollowRepo_CountFollowers_Inr [OF cnt]
  show "ft_FollowersCount r = sql_count (\<lambda>f. fl_channel_id f = c) (follows (db w'))" by simp
  note eq
  then show "follow_pair ` set (follows (db w')) =
       (if ft_Following r then insert (u, c) (follow_pair ` set (follows (db w))) else follow_pair ` set (follows (db w)) - {(u, c)})"
    using step s r q
    by (auto simp: FollowRepo_Unfollow_def FollowRepo_Follow_def insert_follow_Inr delete_follow_def follow_pair_def image_iff
        split: prod.splits sum.splits if_splits elim!: Exec_cases)
qed

interpretation follow: counting_toggle follows_ok "\<lambda>d. follow_pair ` set (follows d)" Follow_ToggleFollow
  ft_Following ft_FollowersCount
proof unfold_locales
  fix w :: world and E u t r w'
  assume ok: "follows_ok (db w)" and t: "Follow_ToggleFollow E u t w = (Inr r, w')"
  show ok': "follows_ok (db w')"
    by (rule effect_invariant [OF Follow_ToggleFollow_runs [OF t]]) (use ok follow_stmts_ok in blast)+
  note f = Follow_ToggleFollow_Inr [OF t]
  show "ft_Following r = ((u, t) \<notin> follow_pair ` set (follows (db w)))" by (rule f)
  show "follow_pair ` set (follows (db w')) =
    (if ft_Following r then insert (u, t) (follow_pair ` set (follows (db w))) else follow_pair ` set (follows (db w)) - {(u, t)})"
    by (rule f)
  have "{v. (v, t) \<in> follow_pair ` set (follows (db w))} \<subseteq> fl_follower_id ` set (follows (db w))"
    by (auto simp: follow_pair_def)
  then have "finite {v. (v, t) \<in> follow_pair ` set (follows (db w))}" by (rule finite_subset) simp
  then show "ft_FollowersCount r = int (card {v. (v, t) \<in> follow_pair ` set (follows (db w'))}) \<and>
      finite {v. (v, t) \<in> follow_pair ` set (follows (db w))}"
    using f(4) follower_count_card [OF ok'] by simp
qed

text \<open>C32: a successful follow toggle flips exactly the caller's own relation to the channel, answers
  the new state and the channel's number of followers, which it changed by one; and nobody can follow
  himself: such a request answers an error and does nothing.\<close>

theorem follow_toggle_exact:
  "(\<forall>r w'. follows_ok (db w) \<and> Follow_ToggleFollow E u c w = (Inr r, w') \<longrightarrow>
      (ft_Following r \<longleftrightarrow> (u, c) \<notin> follow_pair ` set (follows (db w))) \<and>
      (\<forall>p. p \<in> follow_pair ` set (follows (db w')) \<longleftrightarrow>
         (if p = (u, c) then ft_Following r else p \<in> follow_pair ` set (follows (db w)))) \<and>
      ft_FollowersCount r =
        int (card {v. (v, c) \<in> follow_pair ` set (follows (db w))}) + (if ft_Following r then 1 else -1)) \<and>
   Follow_ToggleFollow E u u w = (Inl ErrCannotFollowSelf, w)"
proof (intro conjI allI impI, goal_cases)
  case (1 r w')
  then show ?case using follow.toggle_state by blast
next
  case (2 r w' p)
  then have "follows_ok (db w)" "Follow_ToggleFollow E u c w = (Inr r, w')" by blast+
  from follow.toggle_marks [OF this] show ?case by auto
next
  case (3 r w')
  then have "follows_ok (db w)" "Follow_ToggleFollow E u c w = (Inr r, w')" by blast+
  from follow.toggle_number_step [OF this] show ?case by simp
next
  case 4
  show ?case by (simp add: Follow_ToggleFollow_def)
qed

theorem follow_toggle_exact_witness:
  "\<exists>r w'. Follow_ToggleFollow test_env ''bob'' ''ann'' init_world = (Inr r, w') \<and> ft_FollowersCount r = 1"
proof -
  have "\<not> isl (fst (Follow_ToggleFollow test_env ''bob'' ''ann'' init_world))" by code_simp
  then obtain r w' where r: "Follow_ToggleFollow test_env ''bob'' ''ann'' init_world = (Inr r, w')"
    using Inr_result by blast
  have "follows_ok (db init_world)" by (simp add: follows_ok_def init_world_def empty_db_def)
  with r follow_toggle_exact [of init_world test_env "''bob''" "''ann''"]
  have "ft_Following r \<longleftrightarrow> (''bob'', ''ann'') \<notin> follow_pair ` set (follows (db init_world))"
    "ft_FollowersCount r = int (card {v. (v, ''ann'') \<in> follow_pair ` set (follows (db init_world))}) + (if ft_Following r then 1 else -1)"
    by blast+
  then have "ft_FollowersCount r = 1" by (simp add: init_world_def empty_db_def)
  with r show ?thesis by blast
qed

end
