(* ===== verification/Livestreams.thy ===== *)
theory Livestreams
  imports VideoUse Follows
begin

text \<open>
  Livestreams: the repository \<^verbatim>\<open>internal/repo/persistent/livestream\<close>, the use case
  \<^verbatim>\<open>internal/usecase/livestream\<close>, \<^verbatim>\<open>internal/mapper/livestream.go\<close> and the SRS client
  \<^verbatim>\<open>pkg/srs\<close>.  The media server reports that a stream starts, stops or has been recorded;
  a stream that stops gets a grace period to reconnect, which a timer ends.  The heart part of
  \<^verbatim>\<open>internal/usecase/like\<close> is here, too, since it speaks to the chat room of a stream.
\<close>

section \<open>Table livestreams\<close>

definition livestream_of_row :: "db \<Rightarrow> livestream_row \<Rightarrow> Livestream" where
  "livestream_of_row d r =
     \<lparr>ls_ID = lv_id r, ls_UserID = lv_user_id r, ls_UserName = owner_name ''Streamer'' (lv_user_id r) d,
      ls_UserAvatar = owner_avatar (lv_user_id r) d, ls_StreamKey = lv_stream_key r, ls_Title = lv_title r,
      ls_Category = lv_category r, ls_IsLive = lv_is_live r, ls_HLSUrl = lv_hls_url r,
      ls_ViewersCount = lv_viewers_count r, ls_StartedAt = lv_started_at r, ls_EndedAt = lv_ended_at r,
      ls_CreatedAt = lv_created_at r, ls_UpdatedAt = lv_updated_at r\<rparr>"

definition row_of_livestream :: "Livestream \<Rightarrow> livestream_row" where
  "row_of_livestream ls =
     \<lparr>lv_id = ls_ID ls, lv_user_id = ls_UserID ls, lv_stream_key = ls_StreamKey ls, lv_title = ls_Title ls,
      lv_category = ls_Category ls, lv_is_live = ls_IsLive ls, lv_hls_url = ls_HLSUrl ls,
      lv_viewers_count = ls_ViewersCount ls, lv_started_at = ls_StartedAt ls, lv_ended_at = ls_EndedAt ls,
      lv_created_at = ls_CreatedAt ls, lv_updated_at = ls_UpdatedAt ls\<rparr>"

definition livestream_varchar :: "livestream_row \<Rightarrow> bool" where
  "livestream_varchar r \<longleftrightarrow> varchar_ok [(64, lv_id r), (64, lv_user_id r), (128, lv_stream_key r), (255, lv_title r),
     (64, lv_category r), (512, lv_hls_url r)]"

text \<open>\<^verbatim>\<open>Store\<close> leaves \<^verbatim>\<open>started_at\<close> and \<^verbatim>\<open>ended_at\<close> NULL; \<^verbatim>\<open>user_id\<close> and \<^verbatim>\<open>stream_key\<close> are unique.\<close>

definition livestream_stored :: "livestream_row \<Rightarrow> livestream_row" where
  "livestream_stored r = r\<lparr>lv_started_at := None, lv_ended_at := None\<rparr>"

definition insert_livestream :: "livestream_row \<Rightarrow> stmt" where
  "insert_livestream r d =
     check (livestream_varchar r) ''22001''
      (check (lv_id r \<notin> lv_id ` set (livestreams d) \<and> lv_user_id r \<notin> lv_user_id ` set (livestreams d) \<and>
              lv_stream_key r \<notin> lv_stream_key ` set (livestreams d)) ''23505''
        (Inr (1, d\<lparr>livestreams := livestreams d @ [livestream_stored r]\<rparr>)))"

definition livestream_merge :: "livestream_row \<Rightarrow> livestream_row \<Rightarrow> livestream_row" where
  "livestream_merge v x = x\<lparr>lv_stream_key := lv_stream_key v, lv_title := lv_title v, lv_category := lv_category v,
     lv_is_live := lv_is_live v, lv_hls_url := lv_hls_url v, lv_viewers_count := lv_viewers_count v,
     lv_started_at := lv_started_at v, lv_ended_at := lv_ended_at v, lv_updated_at := lv_updated_at v\<rparr>"

definition update_livestream :: "livestream_row \<Rightarrow> stmt" where
  "update_livestream v d =
     (case row_at lv_id (lv_id v) (livestreams d) of
        None \<Rightarrow> Inr (0, d)
      | Some x \<Rightarrow>
          check (livestream_varchar (livestream_merge v x)) ''22001''
           (check (\<forall>y \<in> set (livestreams d). lv_id y \<noteq> lv_id v \<longrightarrow> lv_stream_key y \<noteq> lv_stream_key v) ''23505''
             (Inr (1, d\<lparr>livestreams := sql_update (\<lambda>y. lv_id y = lv_id v) (livestream_merge v) (livestreams d)\<rparr>))))"

definition livestream_stmts :: "stmt set" where
  "livestream_stmts = range insert_livestream \<union> range update_livestream"

lemma livestream_stmtsI [simp, intro]: "insert_livestream r \<in> livestream_stmts" "update_livestream r \<in> livestream_stmts"
  by (simp_all add: livestream_stmts_def)

lemma insert_livestream_Inr:
  "insert_livestream r d = Inr (n, d') \<longleftrightarrow>
     livestream_varchar r \<and> lv_id r \<notin> lv_id ` set (livestreams d) \<and> lv_user_id r \<notin> lv_user_id ` set (livestreams d) \<and>
     lv_stream_key r \<notin> lv_stream_key ` set (livestreams d) \<and> n = 1 \<and> d' = d\<lparr>livestreams := livestreams d @ [livestream_stored r]\<rparr>"
  by (auto simp: insert_livestream_def)

lemma livestream_keys [simp]:
  "lv_id (livestream_stored r) = lv_id r" "lv_user_id (livestream_stored r) = lv_user_id r"
  "lv_stream_key (livestream_stored r) = lv_stream_key r" "lv_id (livestream_merge v x) = lv_id x"
  "lv_user_id (livestream_merge v x) = lv_user_id x" "lv_stream_key (livestream_merge v x) = lv_stream_key v"
  "livestream_varchar (livestream_stored r) = livestream_varchar r"
  by (simp_all add: livestream_stored_def livestream_merge_def livestream_varchar_def)

lemma update_livestream_Inr:
  assumes "update_livestream v d = Inr (n, d')"
  shows "livestreams d' = sql_update (\<lambda>y. lv_id y = lv_id v) (livestream_merge v) (livestreams d)"
    and "d' = d\<lparr>livestreams := livestreams d'\<rparr>"
  using assms by (auto simp: update_livestream_def sql_update_none row_at_None split: option.splits)

interpretation livestream_table: updatable_table livestreams lv_id livestream_stored insert_livestream livestream_merge update_livestream
  by unfold_locales (auto simp: insert_livestream_Inr update_livestream_Inr(1))

definition livestreams_ok :: "db \<Rightarrow> bool" where
  "livestreams_ok d \<longleftrightarrow> distinct (map lv_id (livestreams d)) \<and> distinct (map lv_user_id (livestreams d)) \<and>
     distinct (map lv_stream_key (livestreams d)) \<and> (\<forall>r \<in> set (livestreams d). livestream_varchar r)"

lemma update_livestream_ok:
  assumes ok: "livestreams_ok d" and u: "update_livestream v d = Inr (n, d')"
  shows "livestreams_ok d'"
proof (cases "row_at lv_id (lv_id v) (livestreams d)")
  case None
  then show ?thesis using u ok by (simp add: update_livestream_def)
next
  case (Some x)
  then have x: "x \<in> set (livestreams d)" "lv_id x = lv_id v" and c: "livestream_varchar (livestream_merge v x)"
    and k: "\<forall>y \<in> set (livestreams d). lv_id y \<noteq> lv_id v \<longrightarrow> lv_stream_key y \<noteq> lv_stream_key v"
    using u by (auto simp: update_livestream_def dest: row_at_Some)
  note rows = update_livestream_Inr(1) [OF u]
  have "livestream_varchar y" if "y \<in> set (livestreams d')" for y
  proof -
    from that obtain z where z: "z \<in> set (livestreams d)" "y = (if lv_id z = lv_id v then livestream_merge v z else z)"
      unfolding rows set_sql_update by blast
    moreover have "z = x" if "lv_id z = lv_id v"
      using distinct_key_eq [of lv_id "livestreams d" z x] that x z(1) ok by (simp add: livestreams_ok_def)
    ultimately show ?thesis using c ok by (auto simp: livestreams_ok_def)
  qed
  moreover have "distinct (map lv_stream_key (livestreams d'))"
    unfolding rows by (rule distinct_map_update_one) (use ok k in \<open>auto simp: livestreams_ok_def\<close>)
  moreover have "distinct (map lv_user_id (livestreams d'))"
    unfolding rows using ok by (simp add: map_key_sql_update livestreams_ok_def)
  ultimately show ?thesis using livestream_table.upd_distinct [OF u] ok by (simp add: livestreams_ok_def)
qed

lemma livestream_stmts_ok: "s \<in> livestream_stmts \<Longrightarrow> livestreams_ok d \<Longrightarrow> s d = Inr (n, d') \<Longrightarrow> livestreams_ok d'"
proof -
  assume s: "s \<in> livestream_stmts" and ok: "livestreams_ok d" and r: "s d = Inr (n, d')"
  consider v where "s = insert_livestream v" | v where "s = update_livestream v" using s by (auto simp: livestream_stmts_def)
  then show ?thesis
  proof cases
    case 1
    then show ?thesis using r ok by (auto simp: livestreams_ok_def insert_livestream_Inr)
  next
    case 2
    then show ?thesis using r ok update_livestream_ok by blast
  qed
qed

lemma livestream_stmts_frame: "s \<in> livestream_stmts \<Longrightarrow> s d = Inr (n, d') \<Longrightarrow> d' = d\<lparr>livestreams := livestreams d'\<rparr>"
  by (auto simp: livestream_stmts_def insert_livestream_Inr dest: update_livestream_Inr(2))

section \<open>Repository\<close>

definition LivestreamRepo_Store :: "env \<Rightarrow> Livestream \<Rightarrow> world \<Rightarrow> unit res \<times> world" where
  "LivestreamRepo_Store E ls w =
     (case Exec E (insert_livestream (row_of_livestream ls)) w of
        (Inl err, w) \<Rightarrow> (Inl (Errorf ''LivestreamRepo - Store - Exec'' err), w)
      | (Inr _, w) \<Rightarrow> (Inr (), w))"

definition LivestreamRepo_GetByID :: "env \<Rightarrow> string \<Rightarrow> world \<Rightarrow> Livestream res \<times> world" where
  "LivestreamRepo_GetByID E i w =
     (case QueryRow E (\<lambda>d. Inr (map_option (livestream_of_row d) (row_at lv_id i (livestreams d)))) w of
        (Inl err, w) \<Rightarrow>
          if errors_Is err ErrNoRows then (Inl ErrLivestreamNotFound, w)
          else (Inl (Errorf ''LivestreamRepo - GetByID - QueryRow'' err), w)
      | (Inr ls, w) \<Rightarrow> (Inr ls, w))"

definition LivestreamRepo_GetByUserID :: "env \<Rightarrow> string \<Rightarrow> world \<Rightarrow> Livestream res \<times> world" where
  "LivestreamRepo_GetByUserID E userID w =
     (case QueryRow E (\<lambda>d. Inr (map_option (livestream_of_row d) (row_at lv_user_id userID (livestreams d)))) w of
        (Inl err, w) \<Rightarrow>
          if errors_Is err ErrNoRows then (Inl ErrLivestreamNotFound, w)
          else (Inl (Errorf ''LivestreamRepo - GetByUserID - QueryRow'' err), w)
      | (Inr ls, w) \<Rightarrow> (Inr ls, w))"

definition LivestreamRepo_GetByStreamKey :: "env \<Rightarrow> string \<Rightarrow> world \<Rightarrow> Livestream res \<times> world" where
  "LivestreamRepo_GetByStreamKey E streamKey w =
     (case QueryRow E (\<lambda>d. Inr (map_option (livestream_of_row d) (row_at lv_stream_key streamKey (livestreams d)))) w of
        (Inl err, w) \<Rightarrow>
          if errors_Is err ErrNoRows then (Inl ErrInvalidStreamKey, w)
          else (Inl (Errorf ''LivestreamRepo - GetByStreamKey - QueryRow'' err), w)
      | (Inr ls, w) \<Rightarrow> (Inr ls, w))"

definition live_in :: "string \<Rightarrow> livestream_row \<Rightarrow> bool" where
  "live_in category r \<longleftrightarrow> lv_is_live r \<and> (category \<noteq> [] \<longrightarrow> lv_category r = category)"

definition active_streams :: "string \<Rightarrow> db \<Rightarrow> Livestream list" where
  "active_streams category d =
     map (livestream_of_row d) (order_desc lv_viewers_count (filter (live_in category) (livestreams d)))"

definition LivestreamRepo_ListActive :: "env \<Rightarrow> string \<Rightarrow> int \<Rightarrow> int \<Rightarrow> world \<Rightarrow> (Livestream list \<times> int) res \<times> world" where
  "LivestreamRepo_ListActive E category limit offset w =
     (case QueryRow E (\<lambda>d. Inr (Some (sql_count (live_in category) (livestreams d)))) w of
        (Inl err, w) \<Rightarrow> (Inl (Errorf ''LivestreamRepo - ListActive - count query'' err), w)
      | (Inr n, w) \<Rightarrow>
          (case Query E (\<lambda>d. sql_page (to_uint64 limit) (to_uint64 offset) (active_streams category d)) w of
             (Inl err, w) \<Rightarrow> (Inl (Errorf ''LivestreamRepo - ListActive - Query'' err), w)
           | (Inr xs, w) \<Rightarrow> (Inr (xs, n), w)))"

definition LivestreamRepo_Update :: "env \<Rightarrow> Livestream \<Rightarrow> world \<Rightarrow> unit res \<times> world" where
  "LivestreamRepo_Update E ls w =
     (case Exec E (update_livestream (row_of_livestream ls)) w of
        (Inl err, w) \<Rightarrow> (Inl (Errorf ''LivestreamRepo - Update - Exec'' err), w)
      | (Inr _, w) \<Rightarrow> (Inr (), w))"

definition LivestreamRepo_CountActive :: "env \<Rightarrow> world \<Rightarrow> int res \<times> world" where
  "LivestreamRepo_CountActive E w =
     (case QueryRow E (\<lambda>d. Inr (Some (sql_count lv_is_live (livestreams d)))) w of
        (Inl err, w) \<Rightarrow> (Inl (Errorf ''LivestreamRepo - CountActive - QueryRow'' err), w)
      | (Inr n, w) \<Rightarrow> (Inr n, w))"

text \<open>The sum is a \<^verbatim>\<open>numeric\<close>; a value beyond 64 bits cannot be scanned.\<close>

definition LivestreamRepo_SumActiveViewers :: "env \<Rightarrow> world \<Rightarrow> int res \<times> world" where
  "LivestreamRepo_SumActiveViewers E w =
     (case QueryRow E (\<lambda>d. let s = sum_list (map lv_viewers_count (filter lv_is_live (livestreams d))) in
                            if in_int64 s then Inr (Some s) else Inl (ExtErr ''cannot scan'')) w of
        (Inl err, w) \<Rightarrow> (Inl (Errorf ''LivestreamRepo - SumActiveViewers - QueryRow'' err), w)
      | (Inr n, w) \<Rightarrow> (Inr n, w))"

section \<open>Mapper\<close>

definition ToLivestreamResponse :: "Livestream \<Rightarrow> LivestreamResponse" where
  "ToLivestreamResponse ls =
     \<lparr>lr_ID = ls_ID ls,
      lr_Streamer = \<lparr>st_ID = ls_UserID ls, st_Name = ls_UserName ls, st_Avatar = ls_UserAvatar ls, st_FollowersCount = 0\<rparr>,
      lr_Title = ls_Title ls, lr_Category = ls_Category ls, lr_IsLive = ls_IsLive ls, lr_HLSUrl = ls_HLSUrl ls,
      lr_ViewersCount = ls_ViewersCount ls, lr_StartedAt = ls_StartedAt ls, lr_EndedAt = ls_EndedAt ls\<rparr>"

definition ToLivestreamResponses :: "Livestream list \<Rightarrow> LivestreamResponse list" where
  "ToLivestreamResponses xs = map ToLivestreamResponse xs"

definition ToLivestreamPageResponse :: "Livestream list \<Rightarrow> int \<Rightarrow> int \<Rightarrow> int \<Rightarrow> LivestreamResponse PageResponse" where
  "ToLivestreamPageResponse xs totalItems page limit = page_response (ToLivestreamResponses xs) totalItems page limit"

definition ToChatMessageResponse :: "ChatMessage \<Rightarrow> ChatMessageResponse" where
  "ToChatMessageResponse m =
     \<lparr>cm_StreamID = StreamID m, cm_Type = Type m, cm_UserName = Username m, cm_UserAvatar = Avatar m,
      cm_Text = Text m, cm_Value = Value m, cm_CreatedAt = CreatedAt m\<rparr>"

section \<open>The media server\<close>

text \<open>\<^verbatim>\<open>ActiveStreamKeys\<close>: the decoded answer of SRS is a parameter, a list of names with their
  \<^verbatim>\<open>publish.active\<close> flag.\<close>

definition ActiveStreamKeys :: "env \<Rightarrow> world \<Rightarrow> string set res \<times> world" where
  "ActiveStreamKeys E w =
     (case srs_streams E (tick w) of
        Inl err \<Rightarrow> (Inl err, bump w)
      | Inr streams \<Rightarrow> (Inr (set (map fst (filter snd streams))), bump w))"

text \<open>\<^verbatim>\<open>filepath.Clean\<close> and \<^verbatim>\<open>filepath.Join\<close>.\<close>

fun clean_elems :: "bool \<Rightarrow> string list \<Rightarrow> string list \<Rightarrow> string list" where
  "clean_elems rooted [] out = rev out"
| "clean_elems rooted (x # xs) out =
     (if x = [] \<or> x = ''.'' then clean_elems rooted xs out
      else if x = ''..'' then
        (case out of
           [] \<Rightarrow> clean_elems rooted xs (if rooted then [] else [''..''])
         | y # ys \<Rightarrow> if y = ''..'' then clean_elems rooted xs (''..'' # out) else clean_elems rooted xs ys)
      else clean_elems rooted xs (x # out))"

definition path_clean :: "string \<Rightarrow> string" where
  "path_clean p =
     (let rooted = HasPrefix p ''/''; q = (if rooted then ''/'' else []) @ Join ''/'' (clean_elems rooted (Split ''/'' p) [])
      in if q = [] then ''.'' else q)"

definition path_join :: "string list \<Rightarrow> string" where
  "path_join xs = (case dropWhile (\<lambda>x. x = []) xs of [] \<Rightarrow> [] | ys \<Rightarrow> path_clean (Join ''/'' ys))"

section \<open>Use case\<close>

definition withFollowersCount :: "env \<Rightarrow> LivestreamResponse \<Rightarrow> world \<Rightarrow> LivestreamResponse \<times> world" where
  "withFollowersCount E res w =
     (if \<not> has_followRepo E then (res, w)
      else case FollowRepo_CountFollowers E (st_ID (lr_Streamer res)) w of
        (Inl _, w) \<Rightarrow> (res, w)
      | (Inr n, w) \<Rightarrow> (res\<lparr>lr_Streamer := (lr_Streamer res)\<lparr>st_FollowersCount := n\<rparr>\<rparr>, w))"

definition stream_key_response :: "Livestream \<Rightarrow> StreamKeyResponse" where
  "stream_key_response ls =
     \<lparr>sk_ServerUrl = ''rtmp://live.pipevid.com/live'', sk_StreamKey = ls_StreamKey ls, sk_IsLive = ls_IsLive ls,
      sk_StartedAt = ls_StartedAt ls, sk_ViewersCount = ls_ViewersCount ls\<rparr>"

definition new_stream_key :: "string \<Rightarrow> string" where
  "new_stream_key u = ''sk_live_'' @ take 18 u"

definition Livestream_GetStreamKey :: "env \<Rightarrow> string \<Rightarrow> world \<Rightarrow> StreamKeyResponse res \<times> world" where
  "Livestream_GetStreamKey E userID w =
     (case LivestreamRepo_GetByUserID E userID w of
        (Inl err, w) \<Rightarrow>
          if errors_Is err ErrLivestreamNotFound then
            (case NewUUID E w of (u1, w) \<Rightarrow> case NewUUID E w of (u2, w) \<Rightarrow>
             case Now E w of (t1, w) \<Rightarrow> case Now E w of (t2, w) \<Rightarrow>
             let newLs = \<lparr>ls_ID = u2, ls_UserID = userID, ls_UserName = [], ls_UserAvatar = [],
                   ls_StreamKey = new_stream_key u1, ls_Title = ''My Livestream'', ls_Category = ''General'',
                   ls_IsLive = False, ls_HLSUrl = [], ls_ViewersCount = 0, ls_StartedAt = None, ls_EndedAt = None,
                   ls_CreatedAt = t1, ls_UpdatedAt = t2\<rparr> in
             (case LivestreamRepo_Store E newLs w of
                (Inl err, w) \<Rightarrow> (Inl (Errorf ''LivestreamUseCase - GetStreamKey - Store'' err), w)
              | (Inr _, w) \<Rightarrow> (Inr (stream_key_response newLs), w)))
          else (Inl err, w)
      | (Inr ls, w) \<Rightarrow> (Inr (stream_key_response ls), w))"

definition Livestream_ResetStreamKey :: "env \<Rightarrow> string \<Rightarrow> world \<Rightarrow> StreamKeyResponse res \<times> world" where
  "Livestream_ResetStreamKey E userID w =
     (case LivestreamRepo_GetByUserID E userID w of
        (Inl err, w) \<Rightarrow> (Inl err, w)
      | (Inr ls, w) \<Rightarrow>
          (case NewUUID E w of (u, w) \<Rightarrow> case Now E w of (now, w) \<Rightarrow>
           let ls = ls\<lparr>ls_StreamKey := new_stream_key u, ls_UpdatedAt := now\<rparr> in
           (case LivestreamRepo_Update E ls w of
              (Inl err, w) \<Rightarrow> (Inl (Errorf ''LivestreamUseCase - ResetStreamKey - Update'' err), w)
            | (Inr _, w) \<Rightarrow> (Inr (stream_key_response ls), w))))"

text \<open>\<^verbatim>\<open>timer.Stop()\<close>: an armed timer is disarmed; a callback that already fired is not recalled.\<close>

definition stop_timer :: "nat \<Rightarrow> world \<Rightarrow> world" where
  "stop_timer i w = w\<lparr>timers := filter (\<lambda>t. tm_id t \<noteq> i) (timers w)\<rparr>"

definition live_call :: "Livestream \<Rightarrow> notify_call" where
  "live_call ls =
     \<lparr>nc_sender_id = ls_UserID ls, nc_sender_name = ls_UserName ls, nc_sender_avatar = ls_UserAvatar ls,
      nc_type = NotificationTypeLiveStart, nc_title = ls_UserName ls @ '' is live now'', nc_message = ls_Title ls,
      nc_target_url = ''/live/'' @ ls_ID ls\<rparr>"

definition Livestream_AuthenticateStreamKey :: "env \<Rightarrow> string \<Rightarrow> world \<Rightarrow> bool res \<times> world" where
  "Livestream_AuthenticateStreamKey E streamKey w =
     (case pending w streamKey of
        Some p \<Rightarrow> (let w = stop_timer (pe_timer p) w in (Inr True, w\<lparr>pending := (pending w)(streamKey := None)\<rparr>))
      | None \<Rightarrow>
          (case LivestreamRepo_GetByStreamKey E streamKey w of
             (Inl _, w) \<Rightarrow> (Inl ErrInvalidStreamKey, w)
           | (Inr ls, w) \<Rightarrow>
               (case Now E w of (now, w) \<Rightarrow>
                let ls = ls\<lparr>ls_IsLive := True, ls_StartedAt := Some now, ls_EndedAt := None,
                      ls_HLSUrl := ''/live/'' @ ls_StreamKey ls @ ''.m3u8'', ls_UpdatedAt := now\<rparr>;
                    w = snd (LivestreamRepo_Update E ls w);
                    w = (if has_notifUc E then go_notify (live_call ls) w else w)
                in (Inr True, w))))"

text \<open>\<^verbatim>\<open>time.AfterFunc\<close> arms a new timer.\<close>

definition Livestream_UnpublishStream :: "env \<Rightarrow> string \<Rightarrow> world \<Rightarrow> unit res \<times> world" where
  "Livestream_UnpublishStream E streamKey w =
     (case LivestreamRepo_GetByStreamKey E streamKey w of
        (Inl err, w) \<Rightarrow> (Inl err, w)
      | (Inr _, w) \<Rightarrow>
          let i = timer_seq w;
              w = bump (w\<lparr>timer_seq := i + 1,
                timers := timers w @ [\<lparr>tm_id = i, tm_key = streamKey, tm_deadline = clock E (tick w) + grace E\<rparr>]\<rparr>);
              w = (case pending w streamKey of None \<Rightarrow> w | Some existing \<Rightarrow> stop_timer (pe_timer existing) w)
          in (Inr (), w\<lparr>pending := (pending w)(streamKey \<mapsto> \<lparr>pe_timer = i, pe_dvrPath = []\<rparr>)\<rparr>))"

text \<open>The conversions \<^verbatim>\<open>int(dur.Hours())\<close> etc. truncate, as the remainder does.\<close>

definition go_rem :: "int \<Rightarrow> int \<Rightarrow> int" where
  "go_rem a b = a - b * go_div a b"

definition dvrDuration :: "time option \<Rightarrow> time \<Rightarrow> string" where
  "dvrDuration startedAt now =
     (case startedAt of
        None \<Rightarrow> ''00:00''
      | Some t \<Rightarrow>
          let dur = now - t;
              h = go_div dur 3600000000;
              m = go_rem (go_div dur 60000000) 60;
              s = go_rem (go_div dur 1000000) 60
          in if h > 0 then pad2 h @ '':'' @ pad2 m @ '':'' @ pad2 s else pad2 m @ '':'' @ pad2 s)"

text \<open>The Vietnamese words ``recording of the live broadcast of the day'', in UTF-8.\<close>

definition replay_words :: string where
  "replay_words = ''B'' @ [CHR 0xE1, CHR 0xBA, CHR 0xA3] @ ''n ghi h'' @ [CHR 0xC3, CHR 0xAC] @ ''nh ph'' @ [CHR 0xC3, CHR 0xA1] @
     ''t tr'' @ [CHR 0xE1, CHR 0xBB, CHR 0xB1] @ ''c ti'' @ [CHR 0xE1, CHR 0xBA, CHR 0xBF] @ ''p ng'' @ [CHR 0xC3, CHR 0xA0] @ ''y ''"

definition replay_video :: "Livestream \<Rightarrow> string \<Rightarrow> string \<Rightarrow> time \<Rightarrow> Video" where
  "replay_video ls videoID rawS3Key now =
     \<lparr>v_ID = videoID, v_UserID = ls_UserID ls, v_UserName = ls_UserName ls, v_UserAvatar = ls_UserAvatar ls,
      v_Title = ''[Replay] '' @ ls_Title ls, v_Description = replay_words @ format_day_clock now,
      v_Category = ls_Category ls, v_Status = VideoStatusProcessing, v_Visibility = VideoVisibilityPrivate,
      v_RawS3Key = rawS3Key, v_HLSUrl = [], v_ThumbnailUrl = [], v_Duration = dvrDuration (ls_StartedAt ls) now,
      v_IsReel = False, v_Views = 0, v_CreatedAt = now, v_UpdatedAt = now\<rparr>"

definition processDVR :: "env \<Rightarrow> Livestream \<Rightarrow> string \<Rightarrow> world \<Rightarrow> unit res \<times> world" where
  "processDVR E ls localPath w =
     (if \<not> has_minio E \<or> \<not> has_nats E \<or> dvr_dir E = [] then (Inl (NewErr ''processDVR: DVR pipeline not configured''), w)
      else case file_stat E (tick w) localPath of
        Some m \<Rightarrow> (Inl (Errorf ''LivestreamUseCase - processDVR - recording file not found'' (ExtErr m)), bump w)
      | None \<Rightarrow>
          (case Now E (bump w) of (now, w) \<Rightarrow> case NewUUID E w of (videoID, w) \<Rightarrow>
           let rawS3Key = ''raw-uploads/'' @ videoID @ ''/raw.flv'' in
           (case minio_upload E (tick w) of
              Some m \<Rightarrow> (Inl (Errorf ''LivestreamUseCase - processDVR - UploadFile'' (ExtErr m)), bump w)
            | None \<Rightarrow>
                (case VideoRepo_Store E (replay_video ls videoID rawS3Key now) (bump (bump w)) of
                   (Inl err, w) \<Rightarrow> (Inl (Errorf ''LivestreamUseCase - processDVR - Store'' err), w)
                 | (Inr _, w) \<Rightarrow> (Inr (), snd (PublishTranscodeJob E videoID rawS3Key (ls_UserID ls) w))))))"

definition finalizeStreamEnd :: "env \<Rightarrow> string \<Rightarrow> world \<Rightarrow> world" where
  "finalizeStreamEnd E streamKey w =
     (case pending w streamKey of
        None \<Rightarrow> w
      | Some p \<Rightarrow>
          (case LivestreamRepo_GetByStreamKey E streamKey (w\<lparr>pending := (pending w)(streamKey := None)\<rparr>) of
             (Inl _, w) \<Rightarrow> w
           | (Inr ls, w) \<Rightarrow>
               (case Now E w of (now, w) \<Rightarrow>
                let ls = ls\<lparr>ls_IsLive := False, ls_EndedAt := Some now, ls_UpdatedAt := now\<rparr>;
                    w = snd (LivestreamRepo_Update E ls w)
                in if pe_dvrPath p \<noteq> [] then snd (processDVR E ls (pe_dvrPath p) w) else w)))"

definition Livestream_HandleDVRComplete :: "env \<Rightarrow> string \<Rightarrow> world \<Rightarrow> unit res \<times> world" where
  "Livestream_HandleDVRComplete E streamKey w =
     (let localPath = path_join [dvr_dir E, ''live'', streamKey @ ''.flv''] in
      case pending w streamKey of
        Some p \<Rightarrow> (Inr (), w\<lparr>pending := (pending w)(streamKey \<mapsto> p\<lparr>pe_dvrPath := localPath\<rparr>)\<rparr>)
      | None \<Rightarrow>
          (case LivestreamRepo_GetByStreamKey E streamKey w of
             (Inl err, w) \<Rightarrow> (Inl (Errorf ''LivestreamUseCase - HandleDVRComplete - GetByStreamKey'' err), w)
           | (Inr ls, w) \<Rightarrow> processDVR E ls localPath w))"

definition reconcileScanLimit :: int where
  "reconcileScanLimit = 1000"

fun reconcile_rows :: "env \<Rightarrow> string set \<Rightarrow> time \<Rightarrow> Livestream list \<Rightarrow> world \<Rightarrow> world" where
  "reconcile_rows E activeKeys now [] w = w"
| "reconcile_rows E activeKeys now (ls # rest) w =
     (if ls_StreamKey ls \<in> activeKeys then reconcile_rows E activeKeys now rest w
      else if pending w (ls_StreamKey ls) \<noteq> None then reconcile_rows E activeKeys now rest w
      else let ls = ls\<lparr>ls_IsLive := False, ls_EndedAt := Some now, ls_UpdatedAt := now\<rparr>
           in reconcile_rows E activeKeys now rest (snd (LivestreamRepo_Update E ls w)))"

definition Livestream_ReconcileLiveStreams :: "env \<Rightarrow> world \<Rightarrow> unit res \<times> world" where
  "Livestream_ReconcileLiveStreams E w =
     (if \<not> has_srs E then (Inr (), w)
      else case ActiveStreamKeys E w of
        (Inl err, w) \<Rightarrow> (Inl (Errorf ''LivestreamUseCase - ReconcileLiveStreams - ActiveStreamKeys'' err), w)
      | (Inr activeKeys, w) \<Rightarrow>
          (case LivestreamRepo_ListActive E [] reconcileScanLimit 0 w of
             (Inl err, w) \<Rightarrow> (Inl (Errorf ''LivestreamUseCase - ReconcileLiveStreams - ListActive'' err), w)
           | (Inr (liveRows, _), w) \<Rightarrow>
               (case Now E w of (now, w) \<Rightarrow> (Inr (), reconcile_rows E activeKeys now liveRows w))))"

definition Livestream_GetStreamByID :: "env \<Rightarrow> string \<Rightarrow> world \<Rightarrow> LivestreamResponse res \<times> world" where
  "Livestream_GetStreamByID E i w =
     (case LivestreamRepo_GetByID E i w of
        (Inl err, w) \<Rightarrow> (Inl err, w)
      | (Inr ls, w) \<Rightarrow> (case withFollowersCount E (ToLivestreamResponse ls) w of (r, w) \<Rightarrow> (Inr r, w)))"

fun with_followers_loop :: "env \<Rightarrow> LivestreamResponse list \<Rightarrow> world \<Rightarrow> LivestreamResponse list \<times> world" where
  "with_followers_loop E [] w = ([], w)"
| "with_followers_loop E (r # rs) w =
     (case withFollowersCount E r w of (r, w) \<Rightarrow>
      case with_followers_loop E rs w of (rs, w) \<Rightarrow> (r # rs, w))"

definition Livestream_ListActiveStreams :: "env \<Rightarrow> string \<Rightarrow> int \<Rightarrow> int \<Rightarrow> world \<Rightarrow> LivestreamResponse PageResponse res \<times> world" where
  "Livestream_ListActiveStreams E category page limit w =
     (let offset = page_offset page limit in
      case LivestreamRepo_ListActive E category limit offset w of
        (Inl err, w) \<Rightarrow> (Inl err, w)
      | (Inr (streams, n), w) \<Rightarrow>
          let pageResp = ToLivestreamPageResponse streams n page limit in
          (case with_followers_loop E (Data pageResp) w of (rs, w) \<Rightarrow> (Inr (pageResp\<lparr>Data := rs\<rparr>), w)))"

definition Livestream_UpdateStreamInfo :: "env \<Rightarrow> string \<Rightarrow> UpdateLivestreamInfo \<Rightarrow> world \<Rightarrow> LivestreamResponse res \<times> world" where
  "Livestream_UpdateStreamInfo E userID req w =
     (case LivestreamRepo_GetByUserID E userID w of
        (Inl err, w) \<Rightarrow> (Inl err, w)
      | (Inr ls, w) \<Rightarrow>
          let ls = (if uli_Title req \<noteq> [] then ls\<lparr>ls_Title := uli_Title req\<rparr> else ls);
              ls = (if uli_Category req \<noteq> [] then ls\<lparr>ls_Category := uli_Category req\<rparr> else ls)
          in case Now E w of (now, w) \<Rightarrow>
             let ls = ls\<lparr>ls_UpdatedAt := now\<rparr> in
             (case LivestreamRepo_Update E ls w of
                (Inl err, w) \<Rightarrow> (Inl (Errorf ''LivestreamUseCase - UpdateStreamInfo - Update'' err), w)
              | (Inr _, w) \<Rightarrow> (Inr (ToLivestreamResponse ls), w)))"

text \<open>\<^verbatim>\<open>time.Now().Format("15:04:05")\<close> is in the local zone.\<close>

definition local_clock :: "env \<Rightarrow> time \<Rightarrow> string" where
  "local_clock E t = format_clock (t + local_off E * 1000000)"

definition Livestream_SendChatMessage :: "env \<Rightarrow> string \<Rightarrow> SendChatMessageReq \<Rightarrow> world \<Rightarrow> ChatMessageResponse res \<times> world" where
  "Livestream_SendChatMessage E streamID req w =
     (let username = (if scm_Username req = [] then ''Guest'' else scm_Username req);
          avatar = (if scm_Avatar req = [] then take 1 username else scm_Avatar req)
      in case Now E w of (now, w) \<Rightarrow>
         let msg = \<lparr>StreamID = streamID, Type = ''chat'', Username = username, Avatar = avatar, Text = scm_Text req,
                    Value = 0, CreatedAt = local_clock E now\<rparr>;
             w = (if has_chatHub E then w\<lparr>chatHub := ChatHub_Broadcast streamID msg (chatHub w)\<rparr> else w)
         in (Inr (ToChatMessageResponse msg), w))"

definition Livestream_BroadcastHeart :: "env \<Rightarrow> string \<Rightarrow> int \<Rightarrow> world \<Rightarrow> world" where
  "Livestream_BroadcastHeart E streamID totalHearts w =
     (if \<not> has_chatHub E then w
      else case Now E w of (now, w) \<Rightarrow>
        w\<lparr>chatHub := ChatHub_Broadcast streamID
             \<lparr>StreamID = streamID, Type = ''heart'', Username = [], Avatar = [], Text = [], Value = totalHearts,
              CreatedAt = local_clock E now\<rparr> (chatHub w)\<rparr>)"

definition Livestream_SubscribeChat :: "env \<Rightarrow> string \<Rightarrow> world \<Rightarrow> nat res \<times> world" where
  "Livestream_SubscribeChat E streamID w =
     (if \<not> has_chatHub E then (Inl (NewErr ''chat hub unavailable''), w)
      else case ChatHub_Subscribe streamID (chatHub w) of (ch, h) \<Rightarrow> (Inr ch, w\<lparr>chatHub := h\<rparr>))"

text \<open>\<^verbatim>\<open>HeartStream\<close> of the like use case, which the server builds with the livestream use case.\<close>

definition Like_HeartStream :: "env \<Rightarrow> string \<Rightarrow> world \<Rightarrow> HeartResponse res \<times> world" where
  "Like_HeartStream E streamID w =
     (case LikeRepo_IncrementHeart E streamID w of
        (Inl err, w) \<Rightarrow> (Inl (Errorf ''LikeUseCase - HeartStream'' err), w)
      | (Inr totalHearts, w) \<Rightarrow>
          (Inr (ToHeartResponse streamID totalHearts), Livestream_BroadcastHeart E streamID totalHearts w))"

section \<open>Effects\<close>

lemma LivestreamRepo_reads_quiet:
  "LivestreamRepo_GetByID E i w = (r1, w') \<Longrightarrow> quiet w w'"
  "LivestreamRepo_GetByUserID E i w = (r1, w') \<Longrightarrow> quiet w w'"
  "LivestreamRepo_GetByStreamKey E i w = (r1, w') \<Longrightarrow> quiet w w'"
  "LivestreamRepo_ListActive E c l k w = (r2, w') \<Longrightarrow> quiet w w'"
  "LivestreamRepo_CountActive E w = (r3, w') \<Longrightarrow> quiet w w'"
  "LivestreamRepo_SumActiveViewers E w = (r3, w') \<Longrightarrow> quiet w w'"
  by (auto simp: LivestreamRepo_GetByID_def LivestreamRepo_GetByUserID_def LivestreamRepo_GetByStreamKey_def
      LivestreamRepo_ListActive_def LivestreamRepo_CountActive_def LivestreamRepo_SumActiveViewers_def
      split: prod.splits sum.splits if_splits dest!: driver_bump)

lemma LivestreamRepo_writes_run:
  "LivestreamRepo_Store E ls w = (r, w') \<Longrightarrow> effect livestream_stmts w w'"
  "LivestreamRepo_Update E ls w = (r, w') \<Longrightarrow> effect livestream_stmts w w'"
  by (auto simp: LivestreamRepo_Store_def LivestreamRepo_Update_def split: prod.splits sum.splits intro: Exec_effect)

lemma Livestream_GetStreamKey_runs: "Livestream_GetStreamKey E u w = (r, w') \<Longrightarrow> effect livestream_stmts w w'"
  by (auto simp: Livestream_GetStreamKey_def NewUUID_def Now_def Let_def split: prod.splits sum.splits if_splits
      dest!: LivestreamRepo_reads_quiet(2) LivestreamRepo_writes_run(1) intro: quiet_then quiet_effect)

lemma Livestream_ResetStreamKey_runs: "Livestream_ResetStreamKey E u w = (r, w') \<Longrightarrow> effect livestream_stmts w w'"
  by (auto simp: Livestream_ResetStreamKey_def NewUUID_def Now_def Let_def split: prod.splits sum.splits if_splits
      dest!: LivestreamRepo_reads_quiet(2) LivestreamRepo_writes_run(2) intro: quiet_then quiet_effect)

lemma Livestream_UpdateStreamInfo_runs: "Livestream_UpdateStreamInfo E u req w = (r, w') \<Longrightarrow> effect livestream_stmts w w'"
proof -
  assume a: "Livestream_UpdateStreamInfo E u req w = (r, w')"
  obtain g w1 where g: "LivestreamRepo_GetByUserID E u w = (g, w1)" by fastforce
  note q = LivestreamRepo_reads_quiet(2) [OF g]
  show ?thesis
  proof (cases g)
    case (Inl e)
    then show ?thesis using a g q by (simp add: Livestream_UpdateStreamInfo_def quiet_effect)
  next
    case (Inr ls)
    then obtain v r2 where "LivestreamRepo_Update E v (bump w1) = (r2, w')"
      using a g by (auto simp: Livestream_UpdateStreamInfo_def Let_def Now_def split: prod.splits sum.splits)
    from LivestreamRepo_writes_run(2) [OF this] q show ?thesis by (simp add: quiet_then)
  qed
qed

lemma reconcile_rows_runs: "effect livestream_stmts w (reconcile_rows E ks now rows w)"
proof (induction rows arbitrary: w)
  case (Cons ls rest)
  let ?u = "ls\<lparr>ls_IsLive := False, ls_EndedAt := Some now, ls_UpdatedAt := now\<rparr>"
  have "effect livestream_stmts w (snd (LivestreamRepo_Update E ?u w))"
    using LivestreamRepo_writes_run(2) [of E ?u w] by (cases "LivestreamRepo_Update E ?u w") auto
  then show ?case using Cons.IH effect_trans by (fastforce simp: Let_def)
qed simp

lemma ActiveStreamKeys_quiet: "ActiveStreamKeys E w = (r, w') \<Longrightarrow> quiet w w'"
  by (auto simp: ActiveStreamKeys_def split: sum.splits)

lemma Livestream_Reconcile_runs: "Livestream_ReconcileLiveStreams E w = (r, w') \<Longrightarrow> effect livestream_stmts w w'"
proof -
  have q: "effect livestream_stmts w (reconcile_rows E ks now rows (bump w2))" if "quiet w w1" "quiet w1 w2" for w1 w2 ks now rows
    using quiet_then [OF reconcile_rows_runs, of w "bump w2"] quiet_trans [OF that] by simp
  show "Livestream_ReconcileLiveStreams E w = (r, w') \<Longrightarrow> effect livestream_stmts w w'"
    by (auto simp: Livestream_ReconcileLiveStreams_def Now_def split: if_splits prod.splits sum.splits
        dest!: ActiveStreamKeys_quiet LivestreamRepo_reads_quiet(4) intro: q quiet_effect quiet_trans)
qed

lemma withFollowersCount_quiet: "withFollowersCount E r w = (r', w') \<Longrightarrow> quiet w w'"
  by (auto simp: withFollowersCount_def split: if_splits prod.splits sum.splits dest!: FollowRepo_reads_quiet)

lemma Livestream_lists_quiet:
  "Livestream_GetStreamByID E i w = (r1, w') \<Longrightarrow> quiet w w'"
  "Livestream_ListActiveStreams E c p l w = (r2, w') \<Longrightarrow> quiet w w'"
proof -
  have l: "with_followers_loop E rs w = (rs', w') \<Longrightarrow> quiet w w'" for rs rs' w w'
    by (induction rs arbitrary: w rs') (auto split: prod.splits dest!: withFollowersCount_quiet intro: quiet_trans)
  show "Livestream_GetStreamByID E i w = (r1, w') \<Longrightarrow> quiet w w'"
    by (auto simp: Livestream_GetStreamByID_def split: prod.splits sum.splits
        dest!: LivestreamRepo_reads_quiet withFollowersCount_quiet intro: quiet_trans)
  show "Livestream_ListActiveStreams E c p l w = (r2, w') \<Longrightarrow> quiet w w'"
    by (auto simp: Livestream_ListActiveStreams_def Let_def split: prod.splits sum.splits
        dest!: LivestreamRepo_reads_quiet l intro: quiet_trans)
qed

text \<open>The recording pipeline writes only videos and jobs.\<close>

definition replay_effect :: "world \<Rightarrow> world \<Rightarrow> bool" where
  "replay_effect w w' \<longleftrightarrow> runs video_stmts (db w) (db w') \<and> w' = w\<lparr>tick := tick w', db := db w', jobs := jobs w'\<rparr>"

lemma replay_effect_quiet: "quiet w w' \<Longrightarrow> replay_effect w w'"
  by (cases w; cases w') (auto simp: replay_effect_def quiet_def)

lemma processDVR_effect: "processDVR E ls path w = (r, w') \<Longrightarrow> replay_effect w w'"
proof -
  assume a: "processDVR E ls path w = (r, w')"
  have p: "replay_effect w (snd (PublishTranscodeJob E v k u w1))" if "effect video_stmts w w1" for v k u w1
    using that by (cases w; cases w1) (auto simp: PublishTranscodeJob_def replay_effect_def effect_def only_db_def bump_def split: option.splits)
  have e: "replay_effect w w1" if "effect video_stmts w w1" for w1
    using that by (cases w; cases w1) (auto simp: replay_effect_def effect_def only_db_def)
  define now vid key w3 where "now = clock E (tick (bump w))" and "vid = uuid E (tick (bump (bump w)))"
    and "key = ''raw-uploads/'' @ vid @ ''/raw.flv''" and "w3 = bump (bump (bump w))"
  obtain r1 w1 where st: "VideoRepo_Store E (replay_video ls vid key now) (bump (bump w3)) = (r1, w1)" by fastforce
  have w1: "effect video_stmts w w1" using VideoRepo_Store_runs [OF st] by (simp add: w3_def)
  consider "w' = w" | "w' = bump w" | "w' = bump w3" | "w' = w1" | "w' = snd (PublishTranscodeJob E vid key (ls_UserID ls) w1)"
    using a st by (auto simp: processDVR_def Now_def NewUUID_def Let_def now_def vid_def key_def w3_def
        split: if_splits option.splits sum.splits)
  then show ?thesis by cases (auto simp: w3_def intro: e p [OF w1] w1 quiet_effect)
qed

end
