(* ===== verification/StreamLife.thy ===== *)
theory StreamLife
  imports Livestreams
begin

text \<open>
  The life of a livestream, over the operations of the theory before: the media server's reports, the
  timers of the grace periods and the reconciliation loop as the steps of a relation, the invariant that
  binds pending ends to timers, and what each step does to the row of the stream.
\<close>

section \<open>Timers\<close>

text \<open>The run-time system: an armed timer whose deadline has passed fires, and one of the callbacks that have
  fired runs.\<close>

definition fire_timer :: "env \<Rightarrow> nat \<Rightarrow> world \<Rightarrow> world option" where
  "fire_timer E i w =
     (case find (\<lambda>t. tm_id t = i) (timers w) of
        None \<Rightarrow> None
      | Some t \<Rightarrow>
          if clock E (tick w) < tm_deadline t then None
          else Some (bump (w\<lparr>timers := filter (\<lambda>t. tm_id t \<noteq> i) (timers w), firing := firing w @ [tm_key t]\<rparr>)))"

definition run_callback :: "env \<Rightarrow> nat \<Rightarrow> world \<Rightarrow> world" where
  "run_callback E n w =
     (if n < length (firing w)
      then finalizeStreamEnd E (firing w ! n) (w\<lparr>firing := take n (firing w) @ drop (Suc n) (firing w)\<rparr>) else w)"

section \<open>Steps\<close>

text \<open>The part of the world that decides which ends are pending.\<close>

definition timing :: "world \<Rightarrow> (string \<Rightarrow> pendingEnd option) \<times> nat \<times> timer list \<times> string list" where
  "timing w = (pending w, timer_seq w, timers w, firing w)"

text \<open>Any request of another component is a step \<open>other\<close>: it cannot touch the timing.\<close>

inductive stream_step :: "env \<Rightarrow> world \<Rightarrow> world \<Rightarrow> bool" for E where
  step_publish: "Livestream_AuthenticateStreamKey E k w = (r, w') \<Longrightarrow> stream_step E w w'"
| step_unpublish: "Livestream_UnpublishStream E k w = (r, w') \<Longrightarrow> stream_step E w w'"
| step_dvr: "Livestream_HandleDVRComplete E k w = (r, w') \<Longrightarrow> stream_step E w w'"
| step_fire: "fire_timer E i w = Some w' \<Longrightarrow> stream_step E w w'"
| step_callback: "w' = run_callback E n w \<Longrightarrow> stream_step E w w'"
| step_reconcile: "Livestream_ReconcileLiveStreams E w = (r, w') \<Longrightarrow> stream_step E w w'"
| step_get_key: "Livestream_GetStreamKey E u w = (r, w') \<Longrightarrow> stream_step E w w'"
| step_reset_key: "Livestream_ResetStreamKey E u w = (r, w') \<Longrightarrow> stream_step E w w'"
| step_info: "Livestream_UpdateStreamInfo E u req w = (r, w') \<Longrightarrow> stream_step E w w'"
| step_other: "timing w' = timing w \<Longrightarrow> stream_step E w w'"

inductive stream_reach :: "env \<Rightarrow> world \<Rightarrow> bool" for E where
  reach_init: "timing w = timing init_world \<Longrightarrow> stream_reach E w"
| reach_step: "stream_reach E w \<Longrightarrow> stream_step E w w' \<Longrightarrow> stream_reach E w'"

lemma timing_eq:
  "timing w' = timing w \<longleftrightarrow> pending w' = pending w \<and> timer_seq w' = timer_seq w \<and> timers w' = timers w \<and> firing w' = firing w"
  by (simp add: timing_def)

lemma timing_bump [simp]: "timing (bump w) = timing w"
  by (simp add: timing_def)

lemma timing_quiet: "quiet w w' \<Longrightarrow> timing w' = timing w"
  by (simp add: timing_eq quietD)

lemma timing_effect: "effect S w w' \<Longrightarrow> timing w' = timing w"
  by (simp add: timing_eq effect_def only_dbD)

lemma timing_replay: "replay_effect w w' \<Longrightarrow> timing w' = timing w"
  by (cases w; cases w') (simp add: timing_eq replay_effect_def)

section \<open>The invariant\<close>

text \<open>
  Timers are numbered apart; a pending end has its own number, an armed timer of that number belongs to
  the same key, and either that timer is armed or a callback for the key is on its way.
\<close>

definition guarded :: "world \<Rightarrow> string \<Rightarrow> pendingEnd \<Rightarrow> bool" where
  "guarded w k p \<longleftrightarrow> pe_timer p < timer_seq w \<and> (\<forall>t \<in> set (timers w). tm_id t = pe_timer p \<longrightarrow> tm_key t = k) \<and>
     (pe_timer p \<in> tm_id ` set (timers w) \<or> k \<in> set (firing w))"

definition timers_ok :: "world \<Rightarrow> bool" where
  "timers_ok w \<longleftrightarrow> distinct (map tm_id (timers w)) \<and> (\<forall>t \<in> set (timers w). tm_id t < timer_seq w) \<and>
     (\<forall>k p. pending w k = Some p \<longrightarrow> guarded w k p) \<and>
     (\<forall>k k' p p'. pending w k = Some p \<longrightarrow> pending w k' = Some p' \<longrightarrow> pe_timer p = pe_timer p' \<longrightarrow> k = k')"

lemma timers_ok_cong: "timing w' = timing w \<Longrightarrow> timers_ok w' = timers_ok w"
  by (simp add: timers_ok_def guarded_def timing_eq)

lemma timers_ok_init: "timers_ok init_world"
  by (simp add: timers_ok_def init_world_def)

lemma timers_okI:
  assumes "distinct (map tm_id (timers w))" "\<And>t. t \<in> set (timers w) \<Longrightarrow> tm_id t < timer_seq w"
    and "\<And>k p. pending w k = Some p \<Longrightarrow> guarded w k p"
    and "\<And>k k' p p'. pending w k = Some p \<Longrightarrow> pending w k' = Some p' \<Longrightarrow> pe_timer p = pe_timer p' \<Longrightarrow> k = k'"
  shows "timers_ok w"
  unfolding timers_ok_def using assms by blast

lemma timers_okD:
  assumes "timers_ok w"
  shows "distinct (map tm_id (timers w))" "t \<in> set (timers w) \<Longrightarrow> tm_id t < timer_seq w"
    "pending w k = Some p \<Longrightarrow> guarded w k p"
    "pending w k = Some p \<Longrightarrow> pending w k' = Some p' \<Longrightarrow> pe_timer p = pe_timer p' \<Longrightarrow> k = k'"
  using assms unfolding timers_ok_def by blast+

text \<open>A pending end stays guarded while its own timer or the callback for its key stays.\<close>

lemma guarded_keep:
  assumes "guarded w k p" "timer_seq w \<le> timer_seq w'"
    and "\<And>t. t \<in> set (timers w') \<Longrightarrow> tm_id t = pe_timer p \<Longrightarrow> t \<in> set (timers w)"
    and "\<And>t. t \<in> set (timers w) \<Longrightarrow> tm_id t = pe_timer p \<Longrightarrow> tm_key t = k \<Longrightarrow> t \<in> set (timers w') \<or> k \<in> set (firing w')"
    and "k \<in> set (firing w) \<Longrightarrow> k \<in> set (firing w')"
  shows "guarded w' k p"
proof -
  have "pe_timer p \<in> tm_id ` set (timers w') \<or> k \<in> set (firing w')"
  proof (cases "k \<in> set (firing w)")
    case False
    then obtain t where "t \<in> set (timers w)" "tm_id t = pe_timer p" "tm_key t = k"
      using assms(1) unfolding guarded_def by (metis imageE)
    then show ?thesis using assms(4) by (metis imageI)
  qed (use assms(5) in blast)
  then show ?thesis using assms(1,2,3) unfolding guarded_def by (meson order_less_le_trans)
qed

text \<open>The four changes that the steps make to the timing.\<close>

lemma timers_ok_cancel:
  assumes ok: "timers_ok w" and p: "pending w k = Some p"
    and w': "pending w' = (pending w)(k := None)" "timer_seq w' = timer_seq w"
      "timers w' = filter (\<lambda>t. tm_id t \<noteq> pe_timer p) (timers w)" "firing w' = firing w"
  shows "timers_ok w'"
proof (rule timers_okI)
  fix k1 p1 assume "pending w' k1 = Some p1"
  then have k1: "k1 \<noteq> k" "pending w k1 = Some p1" using w'(1) by (auto split: if_splits)
  then have "pe_timer p1 \<noteq> pe_timer p" using timers_okD(4) [OF ok] p by blast
  then show "guarded w' k1 p1" by (intro guarded_keep [OF timers_okD(3) [OF ok k1(2)]]) (use w' in auto)
  show "k1 = k2" if "pending w' k2 = Some p2" "pe_timer p1 = pe_timer p2" for k2 p2
    using timers_okD(4) [OF ok k1(2)] that w'(1) by (auto split: if_splits)
qed (use timers_okD(1,2) [OF ok] w' in \<open>auto simp: distinct_map_filter\<close>)

lemma timers_ok_drop:
  assumes ok: "timers_ok w" and w': "pending w' = (pending w)(k := None)" "timer_seq w' = timer_seq w"
    "timers w' = timers w" "set (firing w) \<subseteq> insert k (set (firing w'))"
  shows "timers_ok w'"
proof (rule timers_okI)
  fix k1 p1 assume "pending w' k1 = Some p1"
  then have k1: "k1 \<noteq> k" "pending w k1 = Some p1" using w'(1) by (auto split: if_splits)
  then show "guarded w' k1 p1" by (intro guarded_keep [OF timers_okD(3) [OF ok k1(2)]]) (use w' in auto)
  show "k1 = k2" if "pending w' k2 = Some p2" "pe_timer p1 = pe_timer p2" for k2 p2
    using timers_okD(4) [OF ok k1(2)] that w'(1) by (auto split: if_splits)
qed (use timers_okD(1,2) [OF ok] w' in auto)

lemma timers_ok_arm:
  assumes ok: "timers_ok w" and t: "tm_id t = timer_seq w" "tm_key t = k" "pe_timer p = timer_seq w"
    and w': "pending w' = (pending w)(k \<mapsto> p)" "timer_seq w' = timer_seq w + 1" "firing w' = firing w"
      "timers w' = (case pending w k of None \<Rightarrow> timers w @ [t] | Some e \<Rightarrow> filter (\<lambda>x. tm_id x \<noteq> pe_timer e) (timers w @ [t]))"
  shows "timers_ok w'"
proof -
  define keep where "keep = (case pending w k of None \<Rightarrow> timers w | Some e \<Rightarrow> filter (\<lambda>x. tm_id x \<noteq> pe_timer e) (timers w))"
  have lt_e: "pe_timer e < timer_seq w" if "pending w k = Some e" for e using timers_okD(3) [OF ok that] by (simp add: guarded_def)
  have tw': "timers w' = keep @ [t]"
  proof (cases "pending w k")
    case (Some e)
    then show ?thesis using lt_e [OF Some] t(1) by (simp add: w'(4) keep_def)
  qed (simp add: w'(4) keep_def)
  have sub: "set keep \<subseteq> set (timers w)" and d: "distinct (map tm_id keep)"
    using timers_okD(1) [OF ok] by (auto simp: keep_def distinct_map_filter split: option.splits)
  have lt: "tm_id x < timer_seq w" if "x \<in> set keep" for x using timers_okD(2) [OF ok] sub that by blast
  have old: "pe_timer p1 < timer_seq w" if "pending w k1 = Some p1" for k1 p1
    using timers_okD(3) [OF ok that] by (simp add: guarded_def)
  have g: "guarded w' k1 p1" if k1: "k1 \<noteq> k" "pending w k1 = Some p1" for k1 p1
  proof (rule guarded_keep [OF timers_okD(3) [OF ok k1(2)]])
    show "x \<in> set (timers w)" if "x \<in> set (timers w')" "tm_id x = pe_timer p1" for x
    proof -
      have "x \<noteq> t" using that(2) t(1) old [OF k1(2)] by auto
      then show ?thesis using that(1) sub unfolding tw' by auto
    qed
    show "x \<in> set (timers w') \<or> k1 \<in> set (firing w')"
      if "x \<in> set (timers w)" "tm_id x = pe_timer p1" for x
    proof (cases "pending w k")
      case (Some e)
      then have "pe_timer e \<noteq> pe_timer p1" using timers_okD(4) [OF ok k1(2) Some] k1(1) by auto
      then show ?thesis using that Some by (simp add: tw' keep_def)
    qed (use that in \<open>simp add: tw' keep_def\<close>)
  qed (use w' in auto)
  show ?thesis
  proof (rule timers_okI)
    show "guarded w' k1 p1" if "pending w' k1 = Some p1" for k1 p1
    proof (cases "k1 = k")
      case True
      then have p1: "p1 = p" using that w'(1) by simp
      show ?thesis using True t lt w'(2) unfolding p1 guarded_def tw' by (auto dest: less_not_refl2 [OF lt])
    next
      case False
      then show ?thesis using g that w'(1) by simp
    qed
    show "k1 = k2" if "pending w' k1 = Some p1" "pending w' k2 = Some p2" "pe_timer p1 = pe_timer p2" for k1 k2 p1 p2
      using that w'(1) t(3) old timers_okD(4) [OF ok] by (fastforce split: if_splits)
  qed (use d lt t(1) w'(2) tw' in \<open>fastforce+\<close>)
qed

lemma timers_ok_fire:
  assumes ok: "timers_ok w" and t: "t \<in> set (timers w)" "tm_id t = i"
    and w': "pending w' = pending w" "timer_seq w' = timer_seq w" "firing w' = firing w @ [tm_key t]"
      "timers w' = filter (\<lambda>x. tm_id x \<noteq> i) (timers w)"
  shows "timers_ok w'"
proof (rule timers_okI)
  show "guarded w' k p" if k: "pending w' k = Some p" for k p
  proof -
    have g: "guarded w k p" using timers_okD(3) [OF ok] k w'(1) by simp
    have "tm_key t = k" if "pe_timer p = i" using g t that by (auto simp: guarded_def)
    then show ?thesis by (intro guarded_keep [OF g]) (use w' in auto)
  qed
  show "k1 = k2" if "pending w' k1 = Some p1" "pending w' k2 = Some p2" "pe_timer p1 = pe_timer p2" for k1 k2 p1 p2
    using timers_okD(4) [OF ok] that w'(1) by simp
qed (use timers_okD(1,2) [OF ok] w' in \<open>auto simp: distinct_map_filter\<close>)

lemma timers_ok_stash:
  assumes ok: "timers_ok w" and p: "pending w k = Some p" "pe_timer q = pe_timer p"
  shows "timers_ok (w\<lparr>pending := (pending w)(k \<mapsto> q)\<rparr>)"
proof (rule timers_okI)
  have old: "\<exists>p0. pending w k1 = Some p0 \<and> pe_timer p0 = pe_timer p1"
    if "pending (w\<lparr>pending := (pending w)(k \<mapsto> q)\<rparr>) k1 = Some p1" for k1 p1
    using that p by (auto split: if_splits)
  show "guarded (w\<lparr>pending := (pending w)(k \<mapsto> q)\<rparr>) k1 p1"
    if a: "pending (w\<lparr>pending := (pending w)(k \<mapsto> q)\<rparr>) k1 = Some p1" for k1 p1
  proof -
    obtain p0 where p0: "pending w k1 = Some p0" "pe_timer p0 = pe_timer p1" using old [OF a] by blast
    show ?thesis using timers_okD(3) [OF ok p0(1)] p0(2) by (simp add: guarded_def)
  qed
  show "k1 = k2" if a: "pending (w\<lparr>pending := (pending w)(k \<mapsto> q)\<rparr>) k1 = Some p1"
    "pending (w\<lparr>pending := (pending w)(k \<mapsto> q)\<rparr>) k2 = Some p2" "pe_timer p1 = pe_timer p2" for k1 k2 p1 p2
  proof -
    obtain p3 p4 where "pending w k1 = Some p3" "pe_timer p3 = pe_timer p1" "pending w k2 = Some p4" "pe_timer p4 = pe_timer p2"
      using old [OF a(1)] old [OF a(2)] by blast
    then show ?thesis using a(3) timers_okD(4) [OF ok, of k1 p3 k2 p4] by simp
  qed
qed (use timers_okD(1,2) [OF ok] in auto)

section \<open>What the steps do to the timing\<close>

lemma finalize_timing:
  "timing (finalizeStreamEnd E k w) = timing (w\<lparr>pending := (pending w)(k := None)\<rparr>)"
proof (cases "pending w k")
  case None
  then have "(pending w)(k := None) = pending w" by (simp add: fun_upd_idem_iff)
  then show ?thesis using None by (simp add: finalizeStreamEnd_def timing_def)
next
  case (Some p)
  let ?w = "w\<lparr>pending := (pending w)(k := None)\<rparr>"
  obtain g w1 where g: "LivestreamRepo_GetByStreamKey E k ?w = (g, w1)" by fastforce
  note t1 = timing_quiet [OF LivestreamRepo_reads_quiet(3) [OF g]]
  show ?thesis
  proof (cases g)
    case (Inl e)
    then show ?thesis using Some g t1 by (simp add: finalizeStreamEnd_def)
  next
    case (Inr ls)
    let ?u = "ls\<lparr>ls_IsLive := False, ls_EndedAt := Some (clock E (tick w1)), ls_UpdatedAt := clock E (tick w1)\<rparr>"
    obtain r2 w2 where u: "LivestreamRepo_Update E ?u (bump w1) = (r2, w2)" by fastforce
    have t2: "timing w2 = timing w1" using timing_effect [OF LivestreamRepo_writes_run(2) [OF u]] by simp
    obtain r3 w3 where d: "processDVR E ?u (pe_dvrPath p) w2 = (r3, w3)" by fastforce
    note t3 = timing_replay [OF processDVR_effect [OF d]]
    show ?thesis using Some g Inr u d t1 t2 t3 by (simp add: finalizeStreamEnd_def Now_def Let_def)
  qed
qed

lemma dvr_pending:
  "pending w k = Some p \<Longrightarrow>
   Livestream_HandleDVRComplete E k w =
     (Inr (), w\<lparr>pending := (pending w)(k \<mapsto> p\<lparr>pe_dvrPath := path_join [dvr_dir E, ''live'', k @ ''.flv'']\<rparr>)\<rparr>)"
  by (simp add: Livestream_HandleDVRComplete_def)

lemma dvr_timing:
  assumes "Livestream_HandleDVRComplete E k w = (r, w')" "pending w k = None"
  shows "timing w' = timing w"
proof -
  obtain g w1 where g: "LivestreamRepo_GetByStreamKey E k w = (g, w1)" by fastforce
  note t1 = timing_quiet [OF LivestreamRepo_reads_quiet(3) [OF g]]
  show ?thesis
    using assms g t1 timing_replay [OF processDVR_effect, of E]
    by (cases g) (auto simp: Livestream_HandleDVRComplete_def)
qed

lemma publish_pending:
  "pending w k = Some p \<Longrightarrow>
   Livestream_AuthenticateStreamKey E k w = (Inr True, (stop_timer (pe_timer p) w)\<lparr>pending := (pending w)(k := None)\<rparr>)"
  by (simp add: Livestream_AuthenticateStreamKey_def stop_timer_def)

lemma go_notify_timing [simp]: "timing (go_notify c w) = timing w"
  by (simp add: go_notify_def timing_def)

lemma publish_timing:
  assumes "Livestream_AuthenticateStreamKey E k w = (r, w')" "pending w k = None"
  shows "timing w' = timing w"
proof -
  obtain g w1 where g: "LivestreamRepo_GetByStreamKey E k w = (g, w1)" by fastforce
  note t1 = timing_quiet [OF LivestreamRepo_reads_quiet(3) [OF g]]
  have "timing (snd (LivestreamRepo_Update E v (bump w1))) = timing w1" for v
    using timing_effect [OF LivestreamRepo_writes_run(2), of E v "bump w1"] by (simp add: prod_eq_iff)
  then show ?thesis
    using assms g t1 by (auto simp: Livestream_AuthenticateStreamKey_def Now_def Let_def split: sum.splits if_splits)
qed

lemma unpublish_timing:
  assumes "Livestream_UnpublishStream E k w = (r, w')"
  shows "timing w' = timing w \<or>
    (\<exists>t p. tm_id t = timer_seq w \<and> tm_key t = k \<and> pe_timer p = timer_seq w \<and>
       pending w' = (pending w)(k \<mapsto> p) \<and> timer_seq w' = timer_seq w + 1 \<and> firing w' = firing w \<and>
       timers w' = (case pending w k of None \<Rightarrow> timers w @ [t] | Some e \<Rightarrow> filter (\<lambda>x. tm_id x \<noteq> pe_timer e) (timers w @ [t])))"
proof -
  obtain g w1 where g: "LivestreamRepo_GetByStreamKey E k w = (g, w1)" by fastforce
  note q = LivestreamRepo_reads_quiet(3) [OF g]
  show ?thesis
  proof (cases g)
    case (Inl e)
    then show ?thesis using assms g timing_quiet [OF q] by (simp add: Livestream_UnpublishStream_def)
  next
    case (Inr ls)
    let ?t = "\<lparr>tm_id = timer_seq w, tm_key = k, tm_deadline = clock E (tick w1) + grace E\<rparr>"
    let ?p = "\<lparr>pe_timer = timer_seq w, pe_dvrPath = []\<rparr>"
    have "tm_id ?t = timer_seq w \<and> tm_key ?t = k \<and> pe_timer ?p = timer_seq w \<and>
       pending w' = (pending w)(k \<mapsto> ?p) \<and> timer_seq w' = timer_seq w + 1 \<and> firing w' = firing w \<and>
       timers w' = (case pending w k of None \<Rightarrow> timers w @ [?t] | Some e \<Rightarrow> filter (\<lambda>x. tm_id x \<noteq> pe_timer e) (timers w @ [?t]))"
      using assms g Inr quietD [OF q]
      by (auto simp: Livestream_UnpublishStream_def Let_def stop_timer_def split: option.splits)
    then show ?thesis by blast
  qed
qed

lemma step_keeps_timers_ok: "stream_step E w w' \<Longrightarrow> timers_ok w \<Longrightarrow> timers_ok w'"
proof (induction rule: stream_step.induct)
  case (step_publish k w r w')
  show ?case
  proof (cases "pending w k")
    case None
    then show ?thesis using step_publish timers_ok_cong publish_timing by blast
  next
    case (Some p)
    have "w' = (stop_timer (pe_timer p) w)\<lparr>pending := (pending w)(k := None)\<rparr>"
      using step_publish publish_pending [OF Some, of E] by simp
    then show ?thesis using step_publish(2) timers_ok_cancel [of w k p w'] Some by (simp add: stop_timer_def)
  qed
next
  case (step_unpublish k w r w')
  from unpublish_timing [OF this(1)] show ?case
    using step_unpublish timers_ok_cong timers_ok_arm by blast
next
  case (step_dvr k w r w')
  show ?case
  proof (cases "pending w k")
    case None
    then show ?thesis using step_dvr timers_ok_cong dvr_timing by blast
  next
    case (Some p)
    have "w' = w\<lparr>pending := (pending w)(k \<mapsto> p\<lparr>pe_dvrPath := path_join [dvr_dir E, ''live'', k @ ''.flv'']\<rparr>)\<rparr>"
      using step_dvr(1) dvr_pending [OF Some, of E] by simp
    then show ?thesis using timers_ok_stash [OF step_dvr(2) Some] by simp
  qed
next
  case (step_fire i w w')
  then obtain t where "find (\<lambda>t. tm_id t = i) (timers w) = Some t"
    and "w' = bump (w\<lparr>timers := filter (\<lambda>t. tm_id t \<noteq> i) (timers w), firing := firing w @ [tm_key t]\<rparr>)"
    by (auto simp: fire_timer_def split: option.splits if_splits)
  then show ?case using step_fire timers_ok_fire [of w t i w'] by (auto dest: find_Some_in)
next
  case (step_callback w' n w)
  show ?case
  proof (cases "n < length (firing w)")
    case False
    then show ?thesis using step_callback by (simp add: run_callback_def)
  next
    case True
    let ?k = "firing w ! n" and ?fs = "take n (firing w) @ drop (Suc n) (firing w)"
    let ?v = "w\<lparr>pending := (pending w)(?k := None), firing := ?fs\<rparr>"
    have "set (firing w) \<subseteq> insert ?k (set ?fs)"
      using arg_cong [OF id_take_nth_drop [OF True], of set] by auto
    then have "timers_ok ?v" using timers_ok_drop [of w ?v ?k] step_callback by simp
    moreover have "timing w' = timing ?v"
      using step_callback(1) True finalize_timing [of E ?k "w\<lparr>firing := ?fs\<rparr>"] by (simp add: run_callback_def timing_def)
    ultimately show ?thesis using timers_ok_cong by blast
  qed
next
  case step_reconcile
  then show ?case using Livestream_Reconcile_runs timing_effect timers_ok_cong by blast
next
  case step_get_key
  then show ?case using Livestream_GetStreamKey_runs timing_effect timers_ok_cong by blast
next
  case step_reset_key
  then show ?case using Livestream_ResetStreamKey_runs timing_effect timers_ok_cong by blast
next
  case step_info
  then show ?case using Livestream_UpdateStreamInfo_runs timing_effect timers_ok_cong by blast
next
  case step_other
  then show ?case using timers_ok_cong by blast
qed

lemma reachable_timers_ok: "stream_reach E w \<Longrightarrow> timers_ok w"
proof (induction rule: stream_reach.induct)
  case (reach_init w)
  then show ?case using timers_ok_cong timers_ok_init by blast
next
  case (reach_step w w')
  then show ?case using step_keeps_timers_ok by blast
qed

section \<open>What the steps do to the row\<close>

definition go_live :: "time \<Rightarrow> livestream_row \<Rightarrow> livestream_row" where
  "go_live t r = r\<lparr>lv_is_live := True, lv_started_at := Some t, lv_ended_at := None,
     lv_hls_url := ''/live/'' @ lv_stream_key r @ ''.m3u8'', lv_updated_at := t\<rparr>"

definition go_offline :: "time \<Rightarrow> livestream_row \<Rightarrow> livestream_row" where
  "go_offline t r = r\<lparr>lv_is_live := False, lv_ended_at := Some t, lv_updated_at := t\<rparr>"

definition change_streams :: "(livestream_row \<Rightarrow> bool) \<Rightarrow> (livestream_row \<Rightarrow> livestream_row) \<Rightarrow> db \<Rightarrow> db" where
  "change_streams p f d = d\<lparr>livestreams := sql_update p f (livestreams d)\<rparr>"

lemma GetByStreamKey_healthy:
  "healthy E \<Longrightarrow> LivestreamRepo_GetByStreamKey E k w =
     (case row_at lv_stream_key k (livestreams (db w)) of None \<Rightarrow> Inl ErrInvalidStreamKey
      | Some r \<Rightarrow> Inr (livestream_of_row (db w) r), bump w)"
  by (simp add: LivestreamRepo_GetByStreamKey_def QueryRow_healthy split: option.splits)

lemma livestream_of_row_sel [simp]:
  "ls_ID (livestream_of_row d r) = lv_id r" "ls_StreamKey (livestream_of_row d r) = lv_stream_key r"
  "ls_UserID (livestream_of_row d r) = lv_user_id r" "ls_Title (livestream_of_row d r) = lv_title r"
  "ls_StartedAt (livestream_of_row d r) = lv_started_at r" "ls_Category (livestream_of_row d r) = lv_category r"
  by (simp_all add: livestream_of_row_def)

text \<open>An update that changes the row that was read by \<^term>\<open>f\<close> changes the row of its stream key by \<^term>\<open>f\<close>.\<close>

lemma Update_row:
  assumes h: "healthy E" and ok: "livestreams_ok (db w)" and r: "r \<in> set (livestreams (db w))"
    and u: "row_of_livestream ls = f r" and f: "livestream_merge (f r) r = f r" "lv_id (f r) = lv_id r"
      "lv_stream_key (f r) = lv_stream_key r" "livestream_varchar (f r)"
  shows "LivestreamRepo_Update E ls w =
     (Inr (), bump (w\<lparr>db := change_streams (\<lambda>y. lv_stream_key y = lv_stream_key r) f (db w)\<rparr>))"
proof -
  have d: "distinct (map lv_id (livestreams (db w)))" "distinct (map lv_stream_key (livestreams (db w)))"
    using ok by (simp_all add: livestreams_ok_def)
  have at: "row_at lv_id (lv_id r) (livestreams (db w)) = Some r" by (rule row_at_unique [OF d(1) r])
  have i: "y = r" if "y \<in> set (livestreams (db w))" "lv_id y = lv_id r" for y
    using distinct_key_eq [OF d(1) that(1) r that(2)] .
  have k: "y = r" if "y \<in> set (livestreams (db w))" "lv_stream_key y = lv_stream_key r" for y
    using distinct_key_eq [OF d(2) that(1) r that(2)] .
  have "sql_update (\<lambda>y. lv_id y = lv_id r) (livestream_merge (f r)) (livestreams (db w)) =
        sql_update (\<lambda>y. lv_stream_key y = lv_stream_key r) f (livestreams (db w))"
    unfolding sql_update_def using i k f(1) by (intro map_cong refl) (metis (no_types))
  then have "update_livestream (f r) (db w) = Inr (1, change_streams (\<lambda>y. lv_stream_key y = lv_stream_key r) f (db w))"
    using at f k by (auto simp: update_livestream_def change_streams_def)
  then show ?thesis by (simp add: LivestreamRepo_Update_def Exec_healthy [OF h] u)
qed

lemma go_live_row:
  "livestream_merge (go_live t r) r = go_live t r" "lv_id (go_live t r) = lv_id r"
  "lv_stream_key (go_live t r) = lv_stream_key r"
  "livestream_varchar r \<Longrightarrow> livestream_varchar (go_live t r)"
  by (simp_all add: livestream_merge_def go_live_def livestream_varchar_def varchar_ok_def rune_count_append)
     (simp add: rune_count_def)

lemma go_offline_row:
  "livestream_merge (go_offline t r) r = go_offline t r" "lv_id (go_offline t r) = lv_id r"
  "lv_stream_key (go_offline t r) = lv_stream_key r"
  "livestream_varchar (go_offline t r) = livestream_varchar r"
  by (simp_all add: livestream_merge_def go_offline_def livestream_varchar_def)

lemma offline_update:
  assumes "healthy E" "livestreams_ok (db w)" "r \<in> set (livestreams (db w))"
  shows "LivestreamRepo_Update E ((livestream_of_row d r)\<lparr>ls_IsLive := False, ls_EndedAt := Some t, ls_UpdatedAt := t\<rparr>) w =
     (Inr (), bump (w\<lparr>db := change_streams (\<lambda>y. lv_stream_key y = lv_stream_key r) (go_offline t) (db w)\<rparr>))"
proof (rule Update_row [where f = "go_offline t", OF assms _ go_offline_row(1-3)])
  show "row_of_livestream ((livestream_of_row d r)\<lparr>ls_IsLive := False, ls_EndedAt := Some t, ls_UpdatedAt := t\<rparr>) = go_offline t r"
    by (simp add: row_of_livestream_def livestream_of_row_def go_offline_def)
  show "livestream_varchar (go_offline t r)" using assms by (simp add: go_offline_row livestreams_ok_def)
qed

lemma row_at_stream: "row_at lv_stream_key k rows = Some r \<Longrightarrow> r \<in> set rows \<and> lv_stream_key r = k"
  by (rule row_at_Some)

text \<open>C17: a stream key with no pending end that belongs to a stream goes on air: exactly that row becomes live
  with the start time and the playback path, the start of the notification of the followers is queued once, and
  the media server is told to accept; an unknown key is refused and changes nothing.\<close>

theorem go_live_exact:
  assumes "healthy E" "livestreams_ok (db w)" "pending w k = None"
  shows "case row_at lv_stream_key k (livestreams (db w)) of
      None \<Rightarrow> Livestream_AuthenticateStreamKey E k w = (Inl ErrInvalidStreamKey, bump w)
    | Some r \<Rightarrow>
        (\<exists>w'. Livestream_AuthenticateStreamKey E k w = (Inr True, w') \<and>
           db w' = change_streams (\<lambda>y. lv_stream_key y = k) (go_live (clock E (tick w + 1))) (db w) \<and>
           spawned w' = spawned w @ (if has_notifUc E then [live_call (livestream_of_row (db w) r)] else []) \<and>
           pending w' = pending w \<and> timers w' = timers w)"
proof (cases "row_at lv_stream_key k (livestreams (db w))")
  case None
  then show ?thesis using assms(3) by (simp add: Livestream_AuthenticateStreamKey_def GetByStreamKey_healthy [OF assms(1)])
next
  case (Some r)
  note r = row_at_stream [OF Some]
  let ?t = "clock E (tick w + 1)" and ?ls = "livestream_of_row (db w) r"
  let ?u = "?ls\<lparr>ls_IsLive := True, ls_StartedAt := Some ?t, ls_EndedAt := None,
     ls_HLSUrl := ''/live/'' @ ls_StreamKey ?ls @ ''.m3u8'', ls_UpdatedAt := ?t\<rparr>"
  let ?w = "bump (bump (bump w\<lparr>db := change_streams (\<lambda>y. lv_stream_key y = k) (go_live ?t) (db w)\<rparr>))"
  have "LivestreamRepo_Update E ?u (bump (bump w)) =
      (Inr (), bump (bump (bump w)\<lparr>db := change_streams (\<lambda>y. lv_stream_key y = lv_stream_key r) (go_live ?t) (db (bump (bump w)))\<rparr>))"
  proof (rule Update_row [where f = "go_live ?t", OF assms(1) _ _ _ go_live_row(1-3)])
    show "row_of_livestream ?u = go_live ?t r" by (simp add: row_of_livestream_def livestream_of_row_def go_live_def)
    show "livestream_varchar (go_live ?t r)" using r assms(2) by (intro go_live_row(4)) (simp add: livestreams_ok_def)
  qed (use r assms(2) in simp_all)
  then have "LivestreamRepo_Update E ?u (bump (bump w)) =
      (Inr (), bump (bump (bump w)\<lparr>db := change_streams (\<lambda>y. lv_stream_key y = k) (go_live ?t) (db w)\<rparr>))"
    using r by simp
  moreover have "live_call ?u = live_call ?ls" by (simp add: live_call_def)
  ultimately show ?thesis
    using assms(3) Some
    by (simp add: Livestream_AuthenticateStreamKey_def GetByStreamKey_healthy [OF assms(1)] Now_def Let_def go_notify_def)
qed

definition stream_row :: livestream_row where
  "stream_row = \<lparr>lv_id = ''ls'', lv_user_id = ''u'', lv_stream_key = ''sk'', lv_title = ''Title'', lv_category = ''General'',
     lv_is_live = False, lv_hls_url = [], lv_viewers_count = 0, lv_started_at = None, lv_ended_at = None,
     lv_created_at = 0, lv_updated_at = 0\<rparr>"

definition stream_world :: world where
  "stream_world = init_world\<lparr>db := empty_db\<lparr>livestreams := [stream_row]\<rparr>\<rparr>"

text \<open>The same stream within its grace period, with a recording stashed.\<close>

definition grace_world :: world where
  "grace_world = stream_world\<lparr>tick := 40, timer_seq := 1, timers := [\<lparr>tm_id = 0, tm_key = ''sk'', tm_deadline = 30000000\<rparr>],
     pending := [''sk'' \<mapsto> \<lparr>pe_timer = 0, pe_dvrPath = ''/dvr/live/sk.flv''\<rparr>]\<rparr>"

lemma stream_world_ok [simp]: "livestreams_ok (db stream_world)" "livestreams_ok (db grace_world)"
  by (simp_all add: livestreams_ok_def grace_world_def stream_world_def stream_row_def livestream_varchar_def varchar_ok_def rune_count_def)

lemma stream_world_row [simp]:
  "row_at lv_stream_key ''sk'' (livestreams (db stream_world)) = Some stream_row"
  "row_at lv_stream_key ''sk'' (livestreams (db grace_world)) = Some stream_row"
  by (simp_all add: grace_world_def stream_world_def stream_row_def)

lemma stream_world_pending [simp]: "pending stream_world k = None"
  by (simp add: stream_world_def init_world_def)

theorem go_live_exact_witness:
  "\<exists>w'. Livestream_AuthenticateStreamKey test_env ''sk'' stream_world = (Inr True, w') \<and>
     livestreams (db w') = [go_live 1000000 stream_row]"
proof -
  have "clock test_env 1 = 1000000" "tick stream_world = 0" by (simp_all add: test_env_def stream_world_def init_world_def)
  moreover have "livestreams (change_streams (\<lambda>y. lv_stream_key y = ''sk'') f (db stream_world)) = [f stream_row]" for f
    by (simp add: change_streams_def stream_world_def sql_update_def stream_row_def)
  ultimately show ?thesis
    using go_live_exact [OF test_env_healthy stream_world_ok(1) stream_world_pending, of "''sk''"] by fastforce
qed

section \<open>Properties\<close>

text \<open>C18: a stream that comes back within its grace period goes on as if it had not stopped: the media server is
  told to accept, its pending end is gone with the timer, nothing is written and nobody is notified, and a
  callback that the timer had already started does nothing.\<close>

theorem reconnect_cancels_end:
  assumes "pending w k = Some p"
  shows "\<exists>w'. Livestream_AuthenticateStreamKey E k w = (Inr True, w') \<and> db w' = db w \<and> spawned w' = spawned w \<and>
      pending w' = (pending w)(k := None) \<and> fire_timer E (pe_timer p) w' = None \<and>
      (\<forall>v. pending v k = None \<longrightarrow> finalizeStreamEnd E k v = v)"
proof -
  have "find (\<lambda>t. tm_id t = pe_timer p) (filter (\<lambda>t. tm_id t \<noteq> pe_timer p) (timers w)) = None"
    by (rule find_None_filter) simp
  then show ?thesis
    using publish_pending [OF assms, of E] by (simp add: stop_timer_def fire_timer_def finalizeStreamEnd_def)
qed

theorem reconnect_cancels_end_witness:
  "\<exists>w'. Livestream_AuthenticateStreamKey test_env ''sk'' grace_world = (Inr True, w') \<and> db w' = db grace_world"
  using reconnect_cancels_end [of grace_world "''sk''" "\<lparr>pe_timer = 0, pe_dvrPath = ''/dvr/live/sk.flv''\<rparr>" test_env]
  by (auto simp: grace_world_def)

text \<open>A pipeline that is configured and whose services answer.\<close>

definition recording_ready :: "env \<Rightarrow> bool" where
  "recording_ready E \<longleftrightarrow> has_minio E \<and> has_nats E \<and> dvr_dir E \<noteq> [] \<and> file_stat E = (\<lambda>_ _. None) \<and>
     minio_upload E = (\<lambda>_. None) \<and> nats_publish E = (\<lambda>_. None)"

definition raw_key :: "string \<Rightarrow> string" where
  "raw_key i = ''raw-uploads/'' @ i @ ''/raw.flv''"

definition add_replay :: "Video \<Rightarrow> world \<Rightarrow> world" where
  "add_replay v w = w\<lparr>db := (db w)\<lparr>videos := videos (db w) @ [row_of_video v]\<rparr>,
     jobs := jobs w @ [\<lparr>tj_VideoID = v_ID v, tj_RawObjectKey = v_RawS3Key v, tj_UserID = v_UserID v\<rparr>]\<rparr>"

lemma replay_video_sel [simp]:
  "v_ID (replay_video ls i k t) = i" "v_RawS3Key (replay_video ls i k t) = k" "v_UserID (replay_video ls i k t) = ls_UserID ls"
  by (simp_all add: replay_video_def)

lemma processDVR_healthy:
  assumes "healthy E" "recording_ready E"
  shows "let i = uuid E (tick w + 2); v = replay_video ls i (raw_key i) (clock E (tick w + 1));
             fits = (video_varchar (row_of_video v) \<and> i \<notin> vd_id ` set (videos (db w)))
         in (\<exists>n. processDVR E ls path w =
              (if fits then Inr () else Inl (Errorf ''LivestreamUseCase - processDVR - Store''
                 (Errorf ''VideoRepo - Store - r.Pool.Exec'' (PgError (if video_varchar (row_of_video v) then ''23505'' else ''22001'')))),
               (if fits then add_replay v w else w)\<lparr>tick := n\<rparr>))"
proof -
  have i: "vd_id (row_of_video (replay_video ls i k t)) = i" for i k t by (simp add: row_of_video_def)
  show ?thesis
    using assms(2) unfolding Let_def
    by (auto simp: processDVR_def recording_ready_def Now_def NewUUID_def Let_def VideoRepo_Store_def Exec_healthy [OF assms(1)]
        insert_video_def i PublishTranscodeJob_def add_replay_def raw_key_def bump_def check_def)
qed

lemma finalize_row:
  assumes "healthy E" "livestreams_ok (db w)" "pending w k = Some p" "row_at lv_stream_key k (livestreams (db w)) = Some r"
  shows "let t = clock E (tick w + 1); ls = livestream_of_row (db w) r;
             w1 = w\<lparr>pending := (pending w)(k := None), db := change_streams (\<lambda>y. lv_stream_key y = k) (go_offline t) (db w), tick := tick w + 3\<rparr>
         in finalizeStreamEnd E k w =
              (if pe_dvrPath p = [] then w1
               else snd (processDVR E (ls\<lparr>ls_IsLive := False, ls_EndedAt := Some t, ls_UpdatedAt := t\<rparr>) (pe_dvrPath p) w1))"
proof -
  note r = row_at_stream [OF assms(4)]
  let ?w = "w\<lparr>pending := (pending w)(k := None)\<rparr>"
  let ?t = "clock E (tick w + 1)"
  have "LivestreamRepo_Update E ((livestream_of_row (db w) r)\<lparr>ls_IsLive := False, ls_EndedAt := Some ?t, ls_UpdatedAt := ?t\<rparr>) (bump (bump ?w)) =
     (Inr (), bump (bump (bump ?w)\<lparr>db := change_streams (\<lambda>y. lv_stream_key y = lv_stream_key r) (go_offline ?t) (db (bump (bump ?w)))\<rparr>))"
    by (rule offline_update [OF assms(1)]) (use r assms(2) in simp_all)
  then show ?thesis using r assms(3,4)
    by (simp add: finalizeStreamEnd_def GetByStreamKey_healthy [OF assms(1)] Now_def Let_def bump_def numeral_3_eq_3)
qed

lemma replay_video_ended [simp]:
  "replay_video (ls\<lparr>ls_IsLive := b, ls_EndedAt := e, ls_UpdatedAt := u\<rparr>) i k t = replay_video ls i k t"
  by (simp add: replay_video_def)

text \<open>C16: when a grace period ends, exactly the row of the stream goes off air with the end time, the pending end is
  removed and nobody is notified.  With a recording stashed, a private video in processing is added under a
  new identifier, with its transcode job, when the row fits the table; a title that the prefix makes longer
  than the column, for one, leaves neither.\<close>

theorem stream_end_exact:
  assumes "healthy E" "recording_ready E" "livestreams_ok (db w)" "pending w k = Some p"
    "row_at lv_stream_key k (livestreams (db w)) = Some r"
  shows "let t = clock E (tick w + 1); i = uuid E (tick w + 5);
             v = replay_video (livestream_of_row (db w) r) i (raw_key i) (clock E (tick w + 4));
             w1 = w\<lparr>pending := (pending w)(k := None), db := change_streams (\<lambda>y. lv_stream_key y = k) (go_offline t) (db w)\<rparr>;
             stored = (pe_dvrPath p \<noteq> [] \<and> video_varchar (row_of_video v) \<and> i \<notin> vd_id ` set (videos (db w)))
         in (\<exists>n. finalizeStreamEnd E k w = (if stored then add_replay v w1 else w1)\<lparr>tick := n\<rparr>) \<and>
            v_Visibility v = VideoVisibilityPrivate \<and> v_Status v = VideoStatusProcessing \<and>
            (246 < rune_count (lv_title r) \<longrightarrow> \<not> stored)"
proof -
  let ?t = "clock E (tick w + 1)" and ?i = "uuid E (tick w + 5)" and ?ls = "livestream_of_row (db w) r"
  let ?v = "replay_video ?ls ?i (raw_key ?i) (clock E (tick w + 4))"
  let ?w1 = "w\<lparr>pending := (pending w)(k := None), db := change_streams (\<lambda>y. lv_stream_key y = k) (go_offline ?t) (db w)\<rparr>"
  let ?stored = "pe_dvrPath p \<noteq> [] \<and> video_varchar (row_of_video ?v) \<and> ?i \<notin> vd_id ` set (videos (db w))"
  have a: "add_replay ?v (?w1\<lparr>tick := n\<rparr>) = (add_replay ?v ?w1)\<lparr>tick := n\<rparr>" for n by (simp add: add_replay_def)
  define W ls' where "W = ?w1\<lparr>tick := tick w + 3\<rparr>" and "ls' = ?ls\<lparr>ls_IsLive := False, ls_EndedAt := Some ?t, ls_UpdatedAt := ?t\<rparr>"
  have W: "videos (db W) = videos (db w)" "tick W + 1 = tick w + 4" "tick W + 2 = tick w + 5"
    by (simp_all add: W_def change_streams_def)
  have r: "replay_video ls' j q u = replay_video ?ls j q u" for j q u by (simp add: ls'_def)
  have f: "finalizeStreamEnd E k w = (if pe_dvrPath p = [] then W else snd (processDVR E ls' (pe_dvrPath p) W))"
    using finalize_row [OF assms(1,3,4,5)] unfolding W_def ls'_def Let_def .
  have "\<exists>n. finalizeStreamEnd E k w = (if ?stored then add_replay ?v ?w1 else ?w1)\<lparr>tick := n\<rparr>"
  proof (cases "pe_dvrPath p = []")
    case True
    then have "finalizeStreamEnd E k w = ?w1\<lparr>tick := tick w + 3\<rparr>" using f by (simp add: W_def)
    then show ?thesis using True by auto
  next
    case False
    obtain n where "snd (processDVR E ls' (pe_dvrPath p) W) =
        (if video_varchar (row_of_video ?v) \<and> ?i \<notin> vd_id ` set (videos (db w)) then add_replay ?v W else W)\<lparr>tick := n\<rparr>"
      using processDVR_healthy [OF assms(1,2), where ls = ls' and path = "pe_dvrPath p" and w = W]
      unfolding Let_def W r by (metis snd_conv)
    then have "finalizeStreamEnd E k w = (if ?stored then add_replay ?v W else W)\<lparr>tick := n\<rparr>"
      using f False by simp
    also have "\<dots> = (if ?stored then add_replay ?v ?w1 else ?w1)\<lparr>tick := n\<rparr>" unfolding W_def a by simp
    finally show ?thesis by blast
  qed
  moreover have "\<not> video_varchar (row_of_video ?v)" if "246 < rune_count (lv_title r)"
  proof -
    have "rune_count (vd_title (row_of_video ?v)) = 9 + rune_count (lv_title r)"
      by (simp add: row_of_video_def replay_video_def rune_count_append) (simp add: rune_count_def)
    then show ?thesis using that by (simp add: video_varchar_def varchar_ok_def)
  qed
  ultimately show ?thesis by (auto simp: Let_def replay_video_def)
qed

theorem stream_end_exact_witness:
  "let w = finalizeStreamEnd test_env ''sk'' grace_world
   in livestreams (db w) = [go_offline 41000000 stream_row] \<and> map vd_title (videos (db w)) = [''[Replay] Title''] \<and> length (jobs w) = 1"
proof -
  let ?p = "\<lparr>pe_timer = 0, pe_dvrPath = ''/dvr/live/sk.flv''\<rparr>"
  have rec: "recording_ready test_env" by (simp add: recording_ready_def test_env_def)
  have p: "pending grace_world ''sk'' = Some ?p" by (simp add: grace_world_def)
  have t: "tick grace_world = 40" "clock test_env n = 1000000 * int n" for n by (simp_all add: grace_world_def test_env_def)
  have d: "videos (db grace_world) = []" "jobs grace_world = []" "livestreams (db grace_world) = [stream_row]"
    "lv_stream_key stream_row = ''sk''"
    by (simp_all add: grace_world_def stream_world_def empty_db_def init_world_def stream_row_def)
  have c: "video_varchar (row_of_video (replay_video (livestream_of_row (db grace_world) stream_row) (uuid test_env 45) (raw_key (uuid test_env 45)) 44000000))"
    by code_simp
  show ?thesis
    using stream_end_exact [OF test_env_healthy rec stream_world_ok(2) p stream_world_row(2)] c
    by (auto simp: t d Let_def add_replay_def change_streams_def sql_update_def row_of_video_def replay_video_def
        livestream_of_row_def stream_row_def)
qed




end
