(* ===== verification/Words.thy ===== *)
theory Words
  imports Users
begin

text \<open>
  The vocabulary book of a learner: \<^verbatim>\<open>internal/repo/persistent/vocabulary\<close> and
  \<^verbatim>\<open>internal/usecase/vocabulary\<close>.  The translation and dictionary services are parameters of the lookup.
\<close>

section \<open>Table user\_vocabulary and repository\<close>

definition word_varchar :: "Vocabulary \<Rightarrow> bool" where
  "word_varchar v \<longleftrightarrow> varchar_ok [(64, vo_ID v), (64, vo_UserID v), (255, vo_Word v), (255, vo_IPA v),
     (64, vo_PartOfSpeech v), (64, vo_VideoID v), (255, vo_VideoTitle v)]"

definition insert_word :: "Vocabulary \<Rightarrow> stmt" where
  "insert_word v d =
     check (word_varchar v) ''22001''
      (check (vo_ID v \<notin> vo_ID ` set (user_vocabulary d)) ''23505''
        (Inr (1, d\<lparr>user_vocabulary := user_vocabulary d @ [v]\<rparr>)))"

definition delete_word :: "string \<Rightarrow> string \<Rightarrow> stmt" where
  "delete_word i u d = Inr (length (filter (\<lambda>v. vo_ID v = i \<and> vo_UserID v = u) (user_vocabulary d)),
     d\<lparr>user_vocabulary := sql_delete (\<lambda>v. vo_ID v = i \<and> vo_UserID v = u) (user_vocabulary d)\<rparr>)"

definition VocabularyRepo_SaveWord :: "env \<Rightarrow> Vocabulary \<Rightarrow> world \<Rightarrow> unit res \<times> world" where
  "VocabularyRepo_SaveWord E item w =
     (case Exec E (insert_word item) w of
        (Inl err, w) \<Rightarrow> (Inl (Errorf ''VocabularyRepo - SaveWord - Exec'' err), w)
      | (Inr _, w) \<Rightarrow> (Inr (), w))"

definition words_of :: "string \<Rightarrow> db \<Rightarrow> Vocabulary list" where
  "words_of u d = order_desc vo_CreatedAt (filter (\<lambda>v. vo_UserID v = u) (user_vocabulary d))"

definition VocabularyRepo_ListByUserID :: "env \<Rightarrow> string \<Rightarrow> world \<Rightarrow> Vocabulary list res \<times> world" where
  "VocabularyRepo_ListByUserID E userID w =
     (case Query E (\<lambda>d. Inr (words_of userID d)) w of
        (Inl err, w) \<Rightarrow> (Inl (Errorf ''VocabularyRepo - ListByUserID - Query'' err), w)
      | (Inr items, w) \<Rightarrow> (Inr items, w))"

definition VocabularyRepo_DeleteWord :: "env \<Rightarrow> string \<Rightarrow> string \<Rightarrow> world \<Rightarrow> unit res \<times> world" where
  "VocabularyRepo_DeleteWord E i userID w =
     (case Exec E (delete_word i userID) w of
        (Inl err, w) \<Rightarrow> (Inl (Errorf ''VocabularyRepo - DeleteWord - Exec'' err), w)
      | (Inr _, w) \<Rightarrow> (Inr (), w))"

section \<open>Use case\<close>

text \<open>The response has the fields of the entity.\<close>

type_synonym VocabularyResponse = Vocabulary

definition Vocabulary_SaveWord :: "env \<Rightarrow> string \<Rightarrow> SaveWordRequest \<Rightarrow> world \<Rightarrow> VocabularyResponse res \<times> world" where
  "Vocabulary_SaveWord E userID req w =
     (case NewUUID E w of (i, w) \<Rightarrow> case Now E w of (now, w) \<Rightarrow>
      let item = \<lparr>vo_ID = i, vo_UserID = userID, vo_Word = TrimSpace (sw_Word req), vo_IPA = sw_IPA req,
            vo_PartOfSpeech = sw_PartOfSpeech req, vo_Meaning = sw_Meaning req, vo_Example = sw_Example req,
            vo_VideoID = sw_VideoID req, vo_VideoTitle = sw_VideoTitle req, vo_CreatedAt = now\<rparr> in
      (case VocabularyRepo_SaveWord E item w of
         (Inl err, w) \<Rightarrow> (Inl (Errorf ''VocabularyUseCase - SaveWord - repo.SaveWord'' err), w)
       | (Inr _, w) \<Rightarrow> (Inr item, w)))"

definition Vocabulary_ListWords :: "env \<Rightarrow> string \<Rightarrow> world \<Rightarrow> VocabularyResponse list res \<times> world" where
  "Vocabulary_ListWords E userID w =
     (case VocabularyRepo_ListByUserID E userID w of
        (Inl err, w) \<Rightarrow> (Inl (Errorf ''VocabularyUseCase - ListWords - repo.ListByUserID'' err), w)
      | (Inr items, w) \<Rightarrow> (Inr items, w))"

definition Vocabulary_DeleteWord :: "env \<Rightarrow> string \<Rightarrow> string \<Rightarrow> world \<Rightarrow> unit res \<times> world" where
  "Vocabulary_DeleteWord E i userID w =
     (case VocabularyRepo_DeleteWord E i userID w of
        (Inl err, w) \<Rightarrow> (Inl (Errorf ''VocabularyUseCase - DeleteWord - repo.DeleteWord'' err), w)
      | (Inr _, w) \<Rightarrow> (Inr (), w))"

section \<open>Lookup\<close>

record MultiLangTranslations =
  tr_EN :: string
  tr_VI :: string
  tr_JA :: string
  tr_FR :: string
  tr_ES :: string
  tr_DE :: string
  tr_ZH :: string
  tr_KO :: string

record DictionaryLookupResponse =
  dl_Word :: string
  dl_IPA :: string
  dl_PartOfSpeech :: string
  dl_Meaning :: string
  dl_Example :: string
  dl_Translations :: MultiLangTranslations

record FreeDictMeaning =
  fm_PartOfSpeech :: string
  fm_Examples :: "string list"

record FreeDictEntry =
  fd_Phonetic :: string
  fd_Phonetics :: "string list"
  fd_Meanings :: "FreeDictMeaning list"

text \<open>
  The two services, as far as their answers are decoded: a translation is \<^const>\<open>None\<close> when the request fails, its
  status is not 200 or its body is no JSON of the shape.  The key of the dictionary is the lower-case form of the word,
  a function of it.
\<close>

record lookup_services =
  mymemory :: "string \<Rightarrow> string \<Rightarrow> string option"
  freedict :: "string \<Rightarrow> FreeDictEntry list option"

definition translateText :: "lookup_services \<Rightarrow> string \<Rightarrow> string \<Rightarrow> string" where
  "translateText S text langPair = (case mymemory S text langPair of None \<Rightarrow> [] | Some t \<Rightarrow> TrimSpace t)"

definition cleanTrans :: "string \<Rightarrow> string \<Rightarrow> string" where
  "cleanTrans clean val =
     (if val = [] \<or> Contains (ToUpper val) ''PLEASE SELECT TWO DISTINCT LANGUAGES'' \<or> Contains val ''MYMEMORY'' then clean else val)"

text \<open>The Vietnamese for ``vocabulary: '' in UTF-8.\<close>

definition vi_prefix :: string where
  "vi_prefix = ''T'' @ [CHR 0xE1, CHR 0xBB, CHR 0xAB] @ '' v'' @ [CHR 0xE1, CHR 0xBB, CHR 0xB1] @ ''ng: ''"

definition quoted :: "string \<Rightarrow> string" where
  "quoted s = [CHR 0x22] @ s @ [CHR 0x22]"

text \<open>The eight goroutines write a field each and are awaited, so their order does not matter.\<close>

definition translate_all :: "lookup_services \<Rightarrow> string \<Rightarrow> MultiLangTranslations" where
  "translate_all S clean =
     (let tr = translateText S clean; vi = tr ''en|vi'';
          vi = (if vi = [] then vi_prefix @ quoted clean else vi); ct = cleanTrans clean
      in \<lparr>tr_EN = ct (tr ''AUTODETECT|en''), tr_VI = ct vi, tr_JA = ct (tr ''en|ja''), tr_FR = ct (tr ''en|fr''),
          tr_ES = ct (tr ''en|es''), tr_DE = ct (tr ''en|de''), tr_ZH = ct (tr ''en|zh''), tr_KO = ct (tr ''en|ko'')\<rparr>)"

definition entry_ipa :: "FreeDictEntry \<Rightarrow> string \<Rightarrow> string" where
  "entry_ipa e dflt =
     (if fd_Phonetic e \<noteq> [] then fd_Phonetic e
      else case find (\<lambda>p. p \<noteq> []) (fd_Phonetics e) of Some p \<Rightarrow> p | None \<Rightarrow> dflt)"

definition Vocabulary_LookupWord :: "lookup_services \<Rightarrow> string \<Rightarrow> DictionaryLookupResponse res" where
  "Vocabulary_LookupWord S word =
     (let clean = TrimSpace word in
      if clean = [] then Inl (NewErr ''empty word'')
      else let trans = translate_all S clean;
               ipa0 = ''/'' @ clean @ ''/''; pos0 = ''vocabulary'';
               ex0 = ''Context sentence featuring the word '' @ quoted clean @ ''.'';
               (ipa, pos, ex) =
                 (case freedict S clean of
                    Some (entry # _) \<Rightarrow>
                      (entry_ipa entry ipa0,
                       (case fd_Meanings entry of [] \<Rightarrow> pos0 | m # _ \<Rightarrow> fm_PartOfSpeech m),
                       (case fd_Meanings entry of [] \<Rightarrow> ex0 | m # _ \<Rightarrow>
                          (case fm_Examples m of [] \<Rightarrow> ex0 | x # _ \<Rightarrow> if x \<noteq> [] then x else ex0)))
                  | _ \<Rightarrow> (ipa0, pos0, ex0))
           in Inr \<lparr>dl_Word = clean, dl_IPA = ipa, dl_PartOfSpeech = pos, dl_Meaning = tr_VI trans, dl_Example = ex,
                   dl_Translations = trans\<rparr>)"

section \<open>Effects\<close>

definition word_stmts :: "stmt set" where
  "word_stmts = range insert_word \<union> {s. \<exists>i u. s = delete_word i u}"

definition words_ok :: "db \<Rightarrow> bool" where
  "words_ok d \<longleftrightarrow> distinct (map vo_ID (user_vocabulary d)) \<and> (\<forall>v \<in> set (user_vocabulary d). word_varchar v)"

lemma word_stmtsI [simp, intro]: "insert_word v \<in> word_stmts" "delete_word i u \<in> word_stmts"
  by (auto simp: word_stmts_def)

lemma word_stmts_ok: "s \<in> word_stmts \<Longrightarrow> words_ok d \<Longrightarrow> s d = Inr (n, d') \<Longrightarrow> words_ok d'"
  by (auto simp: word_stmts_def words_ok_def insert_word_def delete_word_def distinct_map_delete)

lemma word_stmts_frame: "s \<in> word_stmts \<Longrightarrow> s d = Inr (n, d') \<Longrightarrow> d' = d\<lparr>user_vocabulary := user_vocabulary d'\<rparr>"
  by (auto simp: word_stmts_def insert_word_def delete_word_def)

interpretation word_table: keyed_table user_vocabulary vo_ID "\<lambda>v. v" insert_word
  by unfold_locales (auto simp: insert_word_def)

lemma SaveWord_runs: "Vocabulary_SaveWord E u req w = (r, w') \<Longrightarrow> effect word_stmts w w'"
  by (auto simp: Vocabulary_SaveWord_def VocabularyRepo_SaveWord_def NewUUID_def Now_def Let_def
      split: prod.splits sum.splits dest!: Exec_effect [where S = word_stmts])

lemma DeleteWord_runs: "Vocabulary_DeleteWord E i u w = (r, w') \<Longrightarrow> effect word_stmts w w'"
  by (auto simp: Vocabulary_DeleteWord_def VocabularyRepo_DeleteWord_def
      split: prod.splits sum.splits dest!: Exec_effect [where S = word_stmts])

lemma ListWords_quiet: "Vocabulary_ListWords E u w = (r, w') \<Longrightarrow> quiet w w'"
  by (auto simp: Vocabulary_ListWords_def VocabularyRepo_ListByUserID_def split: prod.splits sum.splits dest!: driver_bump)

text \<open>The book of a learner.  A word that is saved is one new entry of the caller, trimmed, and found in his list;
  deleting takes away exactly the named entry if it is the caller's own, nobody else's book ever changes, and a
  failure changes nothing.\<close>

theorem vocabulary_exact:
  "(case Vocabulary_SaveWord E u req w of
      (Inr item, w') \<Rightarrow> vo_UserID item = u \<and> vo_Word item = TrimSpace (sw_Word req) \<and>
         db w' = (db w)\<lparr>user_vocabulary := user_vocabulary (db w) @ [item]\<rparr> \<and>
         (healthy E \<longrightarrow> (\<exists>items. fst (Vocabulary_ListWords E u w') = Inr items \<and> set items = insert item (set (words_of u (db w)))))
    | (Inl _, w') \<Rightarrow> quiet w w') \<and>
   (case Vocabulary_DeleteWord E i u w of
      (Inr _, w') \<Rightarrow>
         db w' = (db w)\<lparr>user_vocabulary := filter (\<lambda>v. \<not> (vo_ID v = i \<and> vo_UserID v = u)) (user_vocabulary (db w))\<rparr> \<and>
         (\<forall>u'. u' \<noteq> u \<longrightarrow> words_of u' (db w') = words_of u' (db w))
    | (Inl _, w') \<Rightarrow> quiet w w')"
proof
  show "case Vocabulary_SaveWord E u req w of
      (Inr item, w') \<Rightarrow> vo_UserID item = u \<and> vo_Word item = TrimSpace (sw_Word req) \<and>
         db w' = (db w)\<lparr>user_vocabulary := user_vocabulary (db w) @ [item]\<rparr> \<and>
         (healthy E \<longrightarrow> (\<exists>items. fst (Vocabulary_ListWords E u w') = Inr items \<and> set items = insert item (set (words_of u (db w)))))
    | (Inl _, w') \<Rightarrow> quiet w w'"
    by (auto simp: Vocabulary_SaveWord_def VocabularyRepo_SaveWord_def NewUUID_def Now_def Let_def insert_word_def
        Vocabulary_ListWords_def VocabularyRepo_ListByUserID_def Query_healthy words_of_def
        split: prod.splits sum.splits elim!: Exec_cases)
  have o: "filter (\<lambda>x. (vo_ID x = i \<longrightarrow> vo_UserID x \<noteq> u) \<and> vo_UserID x = u') vs = filter (\<lambda>v. vo_UserID v = u') vs"
    if "u' \<noteq> u" for u' vs using that by (auto intro: filter_cong)
  show "case Vocabulary_DeleteWord E i u w of
      (Inr _, w') \<Rightarrow>
         db w' = (db w)\<lparr>user_vocabulary := filter (\<lambda>v. \<not> (vo_ID v = i \<and> vo_UserID v = u)) (user_vocabulary (db w))\<rparr> \<and>
         (\<forall>u'. u' \<noteq> u \<longrightarrow> words_of u' (db w') = words_of u' (db w))
    | (Inl _, w') \<Rightarrow> quiet w w'"
    by (auto simp: Vocabulary_DeleteWord_def VocabularyRepo_DeleteWord_def delete_word_def sql_delete_def words_of_def o
        split: prod.splits sum.splits elim!: Exec_cases)
qed

definition cat_request :: SaveWordRequest where
  "cat_request = \<lparr>sw_Word = '' cat '', sw_IPA = [], sw_PartOfSpeech = ''noun'', sw_Meaning = ''m'', sw_Example = [],
     sw_VideoID = [], sw_VideoTitle = []\<rparr>"

theorem vocabulary_exact_witness:
  "\<exists>item w'. Vocabulary_SaveWord test_env ''u'' cat_request init_world = (Inr item, w') \<and> vo_Word item = ''cat'' \<and>
     (\<exists>items. fst (Vocabulary_ListWords test_env ''u'' w') = Inr items \<and> set items = {item})"
proof -
  have c: "TrimSpace (sw_Word cat_request) = ''cat''" by (simp add: cat_request_def)
  have "\<not> isl (fst (Vocabulary_SaveWord test_env ''u'' cat_request init_world))"
    unfolding Vocabulary_SaveWord_def c by code_simp
  then obtain item w' where r: "Vocabulary_SaveWord test_env ''u'' cat_request init_world = (Inr item, w')" using Inr_result by blast
  have e: "words_of ''u'' (db init_world) = []" by (simp add: words_of_def init_world_def empty_db_def order_desc_def)
  show ?thesis
    using conjunct1 [OF vocabulary_exact [where E = test_env and u = "''u''" and req = cat_request and w = init_world]] r
    by (simp add: c e)
qed

text \<open>Looking up a word never fails for a word that is not blank, whatever the two services answer or do not answer:
  every translation, the pronunciation and the example are filled, and no text of the translation service's own error
  messages is shown as a translation.\<close>

theorem lookup_always_answers:
  "case Vocabulary_LookupWord S word of
     Inl e \<Rightarrow> TrimSpace word = [] \<and> e = NewErr ''empty word''
   | Inr r \<Rightarrow> TrimSpace word \<noteq> [] \<and> dl_Word r = TrimSpace word \<and> dl_IPA r \<noteq> [] \<and> dl_Example r \<noteq> [] \<and> dl_Meaning r \<noteq> [] \<and>
       (\<forall>t \<in> {tr_EN, tr_VI, tr_JA, tr_FR, tr_ES, tr_DE, tr_ZH, tr_KO}. t (dl_Translations r) \<noteq> [] \<and>
          (t (dl_Translations r) = TrimSpace word \<or> \<not> Contains (t (dl_Translations r)) ''MYMEMORY''))"
proof (cases "TrimSpace word = []")
  case True
  then show ?thesis by (simp add: Vocabulary_LookupWord_def)
next
  case False
  let ?c = "TrimSpace word"
  have t: "\<exists>v. t (translate_all S ?c) = cleanTrans ?c v" if "t \<in> {tr_EN, tr_VI, tr_JA, tr_FR, tr_ES, tr_DE, tr_ZH, tr_KO}" for t
    using that by (auto simp: translate_all_def Let_def)
  have "t (translate_all S ?c) \<noteq> [] \<and> (t (translate_all S ?c) = ?c \<or> \<not> Contains (t (translate_all S ?c)) ''MYMEMORY'')"
    if a: "t \<in> {tr_EN, tr_VI, tr_JA, tr_FR, tr_ES, tr_DE, tr_ZH, tr_KO}" for t
  proof -
    obtain v where "t (translate_all S ?c) = cleanTrans ?c v" using t [OF a] by blast
    then show ?thesis using False by (simp add: cleanTrans_def)
  qed
  moreover have "entry_ipa e (''/'' @ ?c @ ''/'') \<noteq> []" for e
    by (auto simp: entry_ipa_def dest: find_Some_in split: option.splits)
  ultimately show ?thesis using False
    by (auto simp: Vocabulary_LookupWord_def Let_def split: prod.splits option.splits list.splits if_splits)
qed

theorem lookup_always_answers_witness:
  "\<exists>r. Vocabulary_LookupWord \<lparr>mymemory = \<lambda>_ _. None, freedict = \<lambda>_. None\<rparr> '' cat '' = Inr r \<and> dl_Word r = ''cat''"
proof -
  show ?thesis
    using lookup_always_answers [where S = "\<lparr>mymemory = \<lambda>_ _. None, freedict = \<lambda>_. None\<rparr>" and word = "'' cat ''"] by (auto split: sum.splits)
qed

end
