(* ===== verification/Admin.thy ===== *)
theory Admin
  imports Livestreams Users "HOL-Library.List_Lexorder"
begin

text \<open>
  Administration: the worker heartbeats (\<^verbatim>\<open>internal/repo/persistent/worker\<close>), the aggregate queries
  (\<^verbatim>\<open>internal/repo/persistent/adminstats\<close>) and the use case (\<^verbatim>\<open>internal/usecase/admin\<close>).
\<close>

section \<open>Workers\<close>

definition heartbeat_varchar :: "WorkerHeartbeat \<Rightarrow> bool" where
  "heartbeat_varchar hb \<longleftrightarrow> varchar_ok [(128, hb_WorkerID hb), (32, hb_Status hb), (128, hb_CurrentJob hb)]"

definition upsert_heartbeat :: "WorkerHeartbeat \<Rightarrow> time \<Rightarrow> stmt" where
  "upsert_heartbeat hb now d =
     check (heartbeat_varchar hb) ''22001''
      (let hb = hb\<lparr>hb_LastHeartbeat := now\<rparr> in
       case row_at hb_WorkerID (hb_WorkerID hb) (worker_heartbeats d) of
         None \<Rightarrow> Inr (1, d\<lparr>worker_heartbeats := worker_heartbeats d @ [hb]\<rparr>)
       | Some _ \<Rightarrow> Inr (1, d\<lparr>worker_heartbeats := sql_update (\<lambda>x. hb_WorkerID x = hb_WorkerID hb) (\<lambda>_. hb) (worker_heartbeats d)\<rparr>))"

definition WorkerRepo_UpsertHeartbeat :: "env \<Rightarrow> WorkerHeartbeat \<Rightarrow> world \<Rightarrow> unit res \<times> world" where
  "WorkerRepo_UpsertHeartbeat E hb w =
     (case Exec E (upsert_heartbeat hb (clock E (tick w))) w of
        (Inl err, w) \<Rightarrow> (Inl (Errorf ''WorkerRepo - UpsertHeartbeat - Exec'' err), w)
      | (Inr _, w) \<Rightarrow> (Inr (), w))"

text \<open>\<^verbatim>\<open>ORDER BY worker_id ASC\<close>, in the order of bytes.\<close>

definition text_key :: "string \<Rightarrow> nat list" where
  "text_key s = map of_char s"

definition active_workers :: "time \<Rightarrow> db \<Rightarrow> WorkerHeartbeat list" where
  "active_workers cutoff d =
     sort_key (\<lambda>hb. text_key (hb_WorkerID hb)) (filter (\<lambda>hb. hb_LastHeartbeat hb \<ge> cutoff) (worker_heartbeats d))"

definition WorkerRepo_ListActive :: "env \<Rightarrow> int \<Rightarrow> world \<Rightarrow> WorkerHeartbeat list res \<times> world" where
  "WorkerRepo_ListActive E staleAfter w =
     (case Now E w of (now, w) \<Rightarrow>
      let cutoff = now - staleAfter in
      (case Query E (\<lambda>d. Inr (active_workers cutoff d)) w of
         (Inl err, w) \<Rightarrow> (Inl (Errorf ''WorkerRepo - ListActive - Query'' err), w)
       | (Inr ws, w) \<Rightarrow> (Inr ws, w)))"

section \<open>Aggregate queries\<close>

text \<open>The common table expression \<^verbatim>\<open>channel_users\<close>: \<^verbatim>\<open>UNION\<close> removes duplicates.\<close>

definition channel_users :: "db \<Rightarrow> string list" where
  "channel_users d = remdups (map vd_user_id (videos d) @
     map lv_user_id (filter (\<lambda>r. lv_started_at r \<noteq> None) (livestreams d)))"

definition channel_stats :: "db \<Rightarrow> ChannelStats" where
  "channel_stats d =
     \<lparr>cs_TotalChannels = int (length (channel_users d)),
      cs_ActiveChannels = int (length (remdups (map lv_user_id (filter lv_is_live (livestreams d))))),
      cs_BannedChannels = int (length (filter (\<lambda>c. list_ex (\<lambda>u. u_ID u = c \<and> u_IsBanned u) (users d)) (channel_users d)))\<rparr>"

definition AdminStatsRepo_ChannelStats :: "env \<Rightarrow> world \<Rightarrow> ChannelStats res \<times> world" where
  "AdminStatsRepo_ChannelStats E w =
     (case QueryRow E (\<lambda>d. Inr (Some (channel_stats d))) w of
        (Inl err, w) \<Rightarrow> (Inl (Errorf ''AdminStatsRepo - ChannelStats - QueryRow'' err), w)
      | (Inr s, w) \<Rightarrow> (Inr s, w))"

definition category_breakdown :: "db \<Rightarrow> CategoryStat list" where
  "category_breakdown d = order_desc cat_VideoCount
     (map (\<lambda>c. \<lparr>cat_Category = c, cat_VideoCount = sql_count (\<lambda>v. vd_category v = c) (videos d)\<rparr>)
       (remdups (map vd_category (videos d))))"

definition AdminStatsRepo_CategoryBreakdown :: "env \<Rightarrow> world \<Rightarrow> CategoryStat list res \<times> world" where
  "AdminStatsRepo_CategoryBreakdown E w =
     (case Query E (\<lambda>d. Inr (category_breakdown d)) w of
        (Inl err, w) \<Rightarrow> (Inl (Errorf ''AdminStatsRepo - CategoryBreakdown - Query'' err), w)
      | (Inr s, w) \<Rightarrow> (Inr s, w))"

section \<open>Use case\<close>

definition workerStaleAfter :: int where
  "workerStaleAfter = 30000000"

definition Admin_GetDashboard :: "env \<Rightarrow> world \<Rightarrow> SystemDashboardResponse res \<times> world" where
  "Admin_GetDashboard E w =
     (case VideoRepo_List E (no_filter\<lparr>vf_Limit := 1\<rparr>) w of
        (Inl err, w) \<Rightarrow> (Inl (Errorf ''AdminUseCase - GetDashboard - vRepo.List'' err), w)
      | (Inr (_, totalVideos), w) \<Rightarrow>
     (case LivestreamRepo_CountActive E w of
        (Inl err, w) \<Rightarrow> (Inl (Errorf ''AdminUseCase - GetDashboard - CountActive'' err), w)
      | (Inr activeLivestreams, w) \<Rightarrow>
     (case LivestreamRepo_SumActiveViewers E w of
        (Inl err, w) \<Rightarrow> (Inl (Errorf ''AdminUseCase - GetDashboard - SumActiveViewers'' err), w)
      | (Inr totalViewers, w) \<Rightarrow>
     (case WorkerRepo_ListActive E workerStaleAfter w of
        (Inl err, w) \<Rightarrow> (Inl (Errorf ''AdminUseCase - GetDashboard - wRepo.ListActive'' err), w)
      | (Inr activeWorkers, w) \<Rightarrow>
     (case AdminStatsRepo_ChannelStats E w of
        (Inl err, w) \<Rightarrow> (Inl (Errorf ''AdminUseCase - GetDashboard - statsRepo.ChannelStats'' err), w)
      | (Inr channelStats, w) \<Rightarrow>
     (case AdminStatsRepo_CategoryBreakdown E w of
        (Inl err, w) \<Rightarrow> (Inl (Errorf ''AdminUseCase - GetDashboard - statsRepo.CategoryBreakdown'' err), w)
      | (Inr breakdown, w) \<Rightarrow>
          (Inr \<lparr>db_TotalVideos = totalVideos, db_ActiveLivestreams = activeLivestreams,
                db_ActiveWorkers = int (length activeWorkers), db_TotalViewers = totalViewers,
                db_TotalChannels = cs_TotalChannels channelStats, db_ActiveChannels = cs_ActiveChannels channelStats,
                db_BannedChannels = cs_BannedChannels channelStats,
                db_CategoryBreakdown = map (\<lambda>c. (cat_Category c, cat_VideoCount c)) breakdown\<rparr>, w)))))))"

definition worker_status :: "WorkerHeartbeat \<Rightarrow> WorkerStatusResponse" where
  "worker_status hb = \<lparr>ws_WorkerID = hb_WorkerID hb, ws_Status = hb_Status hb, ws_CurrentJob = hb_CurrentJob hb,
     ws_CpuUsage = hb_CPUUsage hb, ws_RamUsage = hb_RAMUsageMB hb\<rparr>"

definition Admin_GetWorkersStatus :: "env \<Rightarrow> world \<Rightarrow> WorkerStatusResponse list res \<times> world" where
  "Admin_GetWorkersStatus E w =
     (case WorkerRepo_ListActive E workerStaleAfter w of
        (Inl err, w) \<Rightarrow> (Inl (Errorf ''AdminUseCase - GetWorkersStatus - wRepo.ListActive'' err), w)
      | (Inr ws, w) \<Rightarrow> (Inr (map worker_status ws), w))"

definition Admin_RecordHeartbeat :: "env \<Rightarrow> WorkerHeartbeat \<Rightarrow> world \<Rightarrow> unit res \<times> world" where
  "Admin_RecordHeartbeat E hb w = WorkerRepo_UpsertHeartbeat E hb w"

definition Admin_BanStream :: "env \<Rightarrow> string \<Rightarrow> world \<Rightarrow> unit res \<times> world" where
  "Admin_BanStream E streamID w =
     (case LivestreamRepo_GetByID E streamID w of
        (Inl err, w) \<Rightarrow> (Inl err, w)
      | (Inr ls, w) \<Rightarrow> (case Now E w of (now, w) \<Rightarrow>
          LivestreamRepo_Update E (ls\<lparr>ls_IsLive := False, ls_UpdatedAt := now\<rparr>) w))"

definition Admin_BanVideo :: "env \<Rightarrow> string \<Rightarrow> world \<Rightarrow> unit res \<times> world" where
  "Admin_BanVideo E videoID w =
     (case VideoRepo_GetByID E videoID w of
        (Inl err, w) \<Rightarrow> (Inl err, w)
      | (Inr v, w) \<Rightarrow> (case Now E w of (now, w) \<Rightarrow>
          VideoRepo_Update E (v\<lparr>v_Visibility := VideoVisibilityPrivate, v_UpdatedAt := now\<rparr>) w))"

definition Admin_ListUsers :: "env \<Rightarrow> int \<Rightarrow> int \<Rightarrow> world \<Rightarrow> UserResponse PageResponse res \<times> world" where
  "Admin_ListUsers E page limit w =
     (case UserRepo_List E page limit w of
        (Inl err, w) \<Rightarrow> (Inl err, w)
      | (Inr (us, n), w) \<Rightarrow> (Inr (ToUserPageResponse us n page limit), w))"

definition setUserBanned :: "env \<Rightarrow> string \<Rightarrow> bool \<Rightarrow> world \<Rightarrow> unit res \<times> world" where
  "setUserBanned E userID banned w =
     (case UserRepo_GetByID E userID w of
        (Inl err, w) \<Rightarrow> (Inl err, w)
      | (Inr usr, w) \<Rightarrow> (case Now E w of (now, w) \<Rightarrow>
          UserRepo_Update E (usr\<lparr>u_IsBanned := banned, u_UpdatedAt := now\<rparr>) w))"

definition Admin_BanUser :: "env \<Rightarrow> string \<Rightarrow> world \<Rightarrow> unit res \<times> world" where
  "Admin_BanUser E userID w = setUserBanned E userID True w"

definition Admin_UnbanUser :: "env \<Rightarrow> string \<Rightarrow> world \<Rightarrow> unit res \<times> world" where
  "Admin_UnbanUser E userID w = setUserBanned E userID False w"

section \<open>Effects\<close>

definition worker_stmts :: "stmt set" where
  "worker_stmts = {s. \<exists>hb t. s = upsert_heartbeat hb t}"

definition workers_ok :: "db \<Rightarrow> bool" where
  "workers_ok d \<longleftrightarrow> distinct (map hb_WorkerID (worker_heartbeats d)) \<and> (\<forall>hb \<in> set (worker_heartbeats d). heartbeat_varchar hb)"

lemma worker_stmtsI [simp, intro]: "upsert_heartbeat hb t \<in> worker_stmts"
  by (auto simp: worker_stmts_def)

lemma upsert_heartbeat_Inr:
  assumes "upsert_heartbeat hb t d = Inr (n, d')"
  shows "d' = d\<lparr>worker_heartbeats := worker_heartbeats d'\<rparr>" "heartbeat_varchar hb"
    "row_at hb_WorkerID k (worker_heartbeats d') =
       (if k = hb_WorkerID hb then Some (hb\<lparr>hb_LastHeartbeat := t\<rparr>) else row_at hb_WorkerID k (worker_heartbeats d))"
    "map hb_WorkerID (worker_heartbeats d') = map hb_WorkerID (worker_heartbeats d) @
       (if hb_WorkerID hb \<in> hb_WorkerID ` set (worker_heartbeats d) then [] else [hb_WorkerID hb])"
    "set (worker_heartbeats d') \<subseteq> insert (hb\<lparr>hb_LastHeartbeat := t\<rparr>) (set (worker_heartbeats d))"
proof -
  let ?hb = "hb\<lparr>hb_LastHeartbeat := t\<rparr>" and ?p = "\<lambda>x. hb_WorkerID x = hb_WorkerID hb"
  consider (new) "row_at hb_WorkerID (hb_WorkerID hb) (worker_heartbeats d) = None" "worker_heartbeats d' = worker_heartbeats d @ [?hb]"
    | (old) x where "row_at hb_WorkerID (hb_WorkerID hb) (worker_heartbeats d) = Some x"
        "worker_heartbeats d' = map (\<lambda>r. if ?p r then ?hb else r) (worker_heartbeats d)"
    using assms by (auto simp: upsert_heartbeat_def Let_def sql_update_def split: option.splits)
  note cases = this
  show "d' = d\<lparr>worker_heartbeats := worker_heartbeats d'\<rparr>" "heartbeat_varchar hb"
    using assms by (auto simp: upsert_heartbeat_def Let_def split: option.splits)
  have k: "hb_WorkerID ?hb = hb_WorkerID hb" by simp
  show "row_at hb_WorkerID k (worker_heartbeats d') =
       (if k = hb_WorkerID hb then Some ?hb else row_at hb_WorkerID k (worker_heartbeats d))"
  proof (cases rule: cases)
    case new
    then show ?thesis by (auto simp: row_at_append split: option.splits)
  next
    case (old x)
    have "worker_heartbeats d' = sql_update ?p (\<lambda>_. ?hb) (worker_heartbeats d)" using old(2) by (simp add: sql_update_def)
    moreover have "row_at hb_WorkerID k (sql_update ?p (\<lambda>_. ?hb) (worker_heartbeats d)) =
        (case row_at hb_WorkerID k (worker_heartbeats d) of None \<Rightarrow> None | Some r \<Rightarrow> Some (if ?p r then ?hb else r))"
      by (rule row_at_update) simp
    ultimately show ?thesis using old(1) by (auto dest: row_at_Some split: option.splits)
  qed
  show "map hb_WorkerID (worker_heartbeats d') = map hb_WorkerID (worker_heartbeats d) @
       (if hb_WorkerID hb \<in> hb_WorkerID ` set (worker_heartbeats d) then [] else [hb_WorkerID hb])"
  proof (cases rule: cases)
    case new
    then show ?thesis by (simp add: row_at_None)
  next
    case (old x)
    then have "hb_WorkerID hb \<in> hb_WorkerID ` set (worker_heartbeats d)" using row_at_Some [OF old(1)] by (metis image_eqI)
    then show ?thesis using old(2) by (simp add: comp_def)
  qed
  show "set (worker_heartbeats d') \<subseteq> insert ?hb (set (worker_heartbeats d))"
    by (cases rule: cases) auto
qed

lemma worker_stmts_ok: "s \<in> worker_stmts \<Longrightarrow> workers_ok d \<Longrightarrow> s d = Inr (n, d') \<Longrightarrow> workers_ok d'"
proof -
  assume "s \<in> worker_stmts" and ok: "workers_ok d" and r: "s d = Inr (n, d')"
  then obtain hb t where "upsert_heartbeat hb t d = Inr (n, d')" by (auto simp: worker_stmts_def)
  note u = upsert_heartbeat_Inr [OF this]
  have "heartbeat_varchar (hb\<lparr>hb_LastHeartbeat := t\<rparr>)" using u(2) by (simp add: heartbeat_varchar_def)
  then show ?thesis using ok u(4,5) by (auto simp: workers_ok_def)
qed

lemma worker_stmts_frame: "s \<in> worker_stmts \<Longrightarrow> s d = Inr (n, d') \<Longrightarrow> d' = d\<lparr>worker_heartbeats := worker_heartbeats d'\<rparr>"
  using upsert_heartbeat_Inr(1) by (auto simp: worker_stmts_def)

lemma RecordHeartbeat_runs: "Admin_RecordHeartbeat E hb w = (r, w') \<Longrightarrow> effect worker_stmts w w'"
  by (auto simp: Admin_RecordHeartbeat_def WorkerRepo_UpsertHeartbeat_def split: prod.splits sum.splits intro: Exec_effect)

lemma Admin_BanStream_runs: "Admin_BanStream E i w = (r, w') \<Longrightarrow> effect livestream_stmts w w'"
  by (auto simp: Admin_BanStream_def Now_def split: prod.splits sum.splits
      dest!: LivestreamRepo_reads_quiet(1) LivestreamRepo_writes_run(2) intro: quiet_then quiet_effect)

lemma Admin_BanVideo_runs: "Admin_BanVideo E i w = (r, w') \<Longrightarrow> effect video_stmts w w'"
  by (auto simp: Admin_BanVideo_def Now_def split: prod.splits sum.splits
      dest!: VideoRepo_GetByID_quiet VideoRepo_Update_runs intro: quiet_then quiet_effect)

lemma setUserBanned_runs: "setUserBanned E i b w = (r, w') \<Longrightarrow> effect (user_stmts E) w w'"
  by (auto simp: setUserBanned_def UserRepo_GetByID_def Now_def split: prod.splits sum.splits
      dest!: UserRepo_getUser_quiet UserRepo_Update_runs intro: quiet_then quiet_effect)

lemma WorkerRepo_ListActive_quiet: "WorkerRepo_ListActive E s w = (r, w') \<Longrightarrow> quiet w w'"
  by (auto simp: WorkerRepo_ListActive_def Now_def Let_def split: prod.splits sum.splits dest!: driver_bump)

lemma AdminStats_quiet:
  "AdminStatsRepo_ChannelStats E w = (r1, w') \<Longrightarrow> quiet w w'"
  "AdminStatsRepo_CategoryBreakdown E w = (r2, w') \<Longrightarrow> quiet w w'"
  by (auto simp: AdminStatsRepo_ChannelStats_def AdminStatsRepo_CategoryBreakdown_def split: prod.splits sum.splits dest!: driver_bump)

section \<open>Properties\<close>

lemma setUserBanned_at:
  assumes "users_ok E (db w)" "setUserBanned E i b w = (Inr x, w')"
  shows "\<exists>u t. users_ok E (db w') \<and> uuid_norm E i = Some (u_ID u) \<and> row_at u_ID (u_ID u) (users (db w)) = Some u \<and>
     (\<forall>k. row_at u_ID k (users (db w')) = (if k = u_ID u then Some (u\<lparr>u_IsBanned := b, u_UpdatedAt := t\<rparr>) else row_at u_ID k (users (db w))))"
proof -
  obtain u w1 where g: "UserRepo_getUser E Col_id i w = (Inr u, w1)"
    using assms(2) by (auto simp: setUserBanned_def UserRepo_GetByID_def split: prod.splits sum.splits)
  let ?u = "u\<lparr>u_IsBanned := b, u_UpdatedAt := clock E (tick w1)\<rparr>"
  have sel: "row_at u_ID (u_ID u) (users (db w)) = Some u" "uuid_norm E i = Some (u_ID u)" and q: "db w1 = db w"
    using UserRepo_getUser_Inr [OF g] UserRepo_getUser_quiet [OF g]
    by (auto simp: select_user_def quietD split: option.splits dest: row_at_Some)
  have canon: "canon_id E (u_ID u) = u_ID u"
    using assms(1) row_at_Some [OF sel(1)] by (simp add: users_ok_def canon_id_def)
  have "UserRepo_Update E ?u (bump w1) = (Inr (), w')"
    using assms(2) g by (auto simp: setUserBanned_def UserRepo_GetByID_def Now_def)
  then obtain n d where n: "update_user E ?u (db w) = Inr (n, d)" "db w' = d"
    by (auto simp: UserRepo_Update_def q split: prod.splits sum.splits elim!: Exec_cases)
  have "row_at u_ID k (users (db w')) =
      (if k = u_ID u then map_option (user_merge ?u) (row_at u_ID k (users (db w))) else row_at u_ID k (users (db w)))" for k
    using user_table.row_at_upd [OF n(1), of k] canon n(2) by (simp add: user_stored_def)
  moreover have "users_ok E (db w')" using update_user_ok [OF assms(1) n(1)] n(2) by simp
  ultimately show ?thesis using sel by (intro exI [of _ u]) (auto simp: user_merge_def)
qed

text \<open>C5: a ban is exact and closes both doors.  It changes the flag of the one account, and from then on, as long as
  the table of accounts stays as it is, no login with the e-mail of the account and no refresh with a token of it
  answers a token, whatever the password.  Lifting the ban gives the account back as it was.\<close>

theorem ban_closes_both_doors:
  assumes "users_ok E (db w)" "Admin_BanUser E i w = (Inr x, w')"
  shows "\<exists>u t. uuid_norm E i = Some (u_ID u) \<and> row_at u_ID (u_ID u) (users (db w)) = Some u \<and>
     (\<forall>k. row_at u_ID k (users (db w')) = (if k = u_ID u then Some (u\<lparr>u_IsBanned := True, u_UpdatedAt := t\<rparr>) else row_at u_ID k (users (db w)))) \<and>
     (\<forall>w2 pw. users (db w2) = users (db w') \<longrightarrow> isl (fst (User_Login E (u_Email u) pw w2))) \<and>
     (\<forall>w2 tok sub. users (db w2) = users (db w') \<and> fst (ParseToken E tok w2) = Inr sub \<and> uuid_norm E sub = Some (u_ID u) \<longrightarrow>
        isl (fst (User_RefreshToken E tok w2))) \<and>
     (\<forall>w3 y. Admin_UnbanUser E i w' = (Inr y, w3) \<longrightarrow>
        (\<exists>t'. row_at u_ID (u_ID u) (users (db w3)) = Some (u\<lparr>u_IsBanned := False, u_UpdatedAt := t'\<rparr>)))"
proof -
  have set: "setUserBanned E i True w = (Inr x, w')" using assms(2) by (simp add: Admin_BanUser_def)
  obtain u t where u: "uuid_norm E i = Some (u_ID u)" "row_at u_ID (u_ID u) (users (db w)) = Some u"
    and rows: "\<And>k. row_at u_ID k (users (db w')) = (if k = u_ID u then Some (u\<lparr>u_IsBanned := True, u_UpdatedAt := t\<rparr>) else row_at u_ID k (users (db w)))"
    and ok': "users_ok E (db w')"
    using setUserBanned_at [OF assms(1) set] by blast
  let ?b = "u\<lparr>u_IsBanned := True, u_UpdatedAt := t\<rparr>"
  have b: "?b \<in> set (users (db w'))" using rows [of "u_ID u"] by (auto dest: row_at_Some)
  have mail: "row_at u_Email (u_Email u) (users (db w')) = Some ?b"
    using row_at_unique [OF _ b, of u_Email] ok' by (simp add: users_ok_def)
  have login: "isl (fst (User_Login E (u_Email u) pw w2))" if a: "users (db w2) = users (db w')" for w2 pw
  proof -
    obtain r w3 where g: "UserRepo_getUser E Col_email (u_Email u) w2 = (r, w3)" by fastforce
    show ?thesis
    proof (cases r)
      case (Inl e)
      then show ?thesis using g by (simp add: User_Login_def UserRepo_GetByEmail_def)
    next
      case (Inr v)
      then have "v = ?b" using UserRepo_getUser_Inr [of E Col_email "u_Email u" w2 v w3] g mail a by (simp add: select_user_def)
      then show ?thesis using g Inr by (simp add: User_Login_def UserRepo_GetByEmail_def)
    qed
  qed
  have refresh: "isl (fst (User_RefreshToken E tok w2))"
    if a: "users (db w2) = users (db w')" "fst (ParseToken E tok w2) = Inr sub" "uuid_norm E sub = Some (u_ID u)" for w2 tok sub
  proof -
    obtain w3 where p: "ParseToken E tok w2 = (Inr sub, w3)" using a(2) by (cases "ParseToken E tok w2") auto
    have d: "db w3 = db w2" using p by (auto simp: ParseToken_def Now_def split: option.splits sum.splits if_splits)
    obtain r w4 where g: "UserRepo_getUser E Col_id sub w3 = (r, w4)" by fastforce
    show ?thesis
    proof (cases r)
      case (Inl e)
      then show ?thesis using p g by (simp add: User_RefreshToken_def UserRepo_GetByID_def)
    next
      case (Inr v)
      then have "v = ?b" using UserRepo_getUser_Inr [of E Col_id sub w3 v w4] g a d rows [of "u_ID u"] by (simp add: select_user_def)
      then show ?thesis using p g Inr by (simp add: User_RefreshToken_def UserRepo_GetByID_def)
    qed
  qed
  have unban: "\<exists>t'. row_at u_ID (u_ID u) (users (db w3)) = Some (u\<lparr>u_IsBanned := False, u_UpdatedAt := t'\<rparr>)"
    if a: "Admin_UnbanUser E i w' = (Inr y, w3)" for w3 y
  proof -
    have "setUserBanned E i False w' = (Inr y, w3)" using a by (simp add: Admin_UnbanUser_def)
    from setUserBanned_at [OF ok' this] show ?thesis using u(1) rows [of "u_ID u"] by auto
  qed
  show ?thesis using u rows login refresh unban by blast
qed

theorem ban_closes_both_doors_witness:
  "\<exists>w'. Admin_BanUser test_env ''u-ann'' ann_world = (Inr (), w') \<and> isl (fst (User_Login test_env (u_Email ann) ''pw'' w'))"
proof -
  have "\<not> isl (fst (Admin_BanUser test_env ''u-ann'' ann_world))" by code_simp
  then obtain x :: unit and w' where r: "Admin_BanUser test_env ''u-ann'' ann_world = (Inr x, w')" using Inr_result by blast
  have "users_ok test_env (db ann_world)"
    by (simp add: users_ok_def ann_world_def ann_def test_env_def users_varchar_def varchar_ok_def rune_count_def)
  from ban_closes_both_doors [OF this r] obtain u where u: "row_at u_ID (u_ID u) (users (db ann_world)) = Some u"
    "uuid_norm test_env ''u-ann'' = Some (u_ID u)" "isl (fst (User_Login test_env (u_Email u) ''pw'' w'))" by blast
  have "u_ID u = ''u-ann''" using u(2) by (simp add: test_env_def)
  then have "u = ann" using u(1) by (simp add: ann_world_def ann_def)
  then show ?thesis using r u(3) by auto
qed

text \<open>The list of active workers, and the counts of the dashboard.\<close>

lemma sum_counts:
  fixes f :: "'a \<Rightarrow> 'b"
  assumes "set (map f xs) \<subseteq> set cs" "distinct cs"
  shows "sum_list (map (\<lambda>c. length (filter (\<lambda>x. f x = c) xs)) cs) = length xs"
  using assms
proof (induction xs)
  case (Cons x xs)
  have "sum_list (map (\<lambda>c. length (filter (\<lambda>y. f y = c) (x # xs))) cs) =
        sum_list (map (\<lambda>c. (if f x = c then 1 else 0) + length (filter (\<lambda>y. f y = c) xs)) cs)"
    by (intro arg_cong [where f = sum_list] map_cong) auto
  also have "\<dots> = sum_list (map (\<lambda>c. if f x = c then 1 else 0) cs) + length xs"
    using Cons by (simp add: sum_list_addf)
  also have "sum_list (map (\<lambda>c. if f x = c then 1 else 0) cs) = (1::nat)"
    using Cons.prems by (simp add: sum_list_distinct_conv_sum_set)
  finally show ?case by simp
qed simp

lemma sum_list_int: "sum_list (map (\<lambda>c. int (f c)) cs) = int (sum_list (map f cs))"
  by (induction cs) simp_all

lemma breakdown_total: "sum_list (map cat_VideoCount (category_breakdown d)) = int (length (videos d))"
proof -
  let ?cs = "remdups (map vd_category (videos d))"
  have "sum_list (map (\<lambda>c. length (filter (\<lambda>v. vd_category v = c) (videos d))) ?cs) = length (videos d)"
    by (rule sum_counts) auto
  then have "sum_list (map (\<lambda>c. sql_count (\<lambda>v. vd_category v = c) (videos d)) ?cs) = int (length (videos d))"
    by (simp add: sql_count_def sum_list_int)
  moreover have "mset (map cat_VideoCount (category_breakdown d)) = mset (map (\<lambda>c. sql_count (\<lambda>v. vd_category v = c) (videos d)) ?cs)"
    by (simp add: category_breakdown_def order_desc_def mset_map comp_def image_mset.compositionality)
  ultimately show ?thesis by (metis sum_mset_sum_list)
qed

lemma channels_card: "length (channel_users d) = card (vd_user_id ` set (videos d) \<union> lv_user_id ` {r \<in> set (livestreams d). lv_started_at r \<noteq> None})"
  by (simp add: channel_users_def length_remdups_card_conv)

text \<open>The dashboard is consistent and exact.  With a database that answers, its counts are those of the tables: all videos,
  the live streams and their viewers, the workers heard of within 30 seconds, the distinct owners of a video or of a
  stream that has ever started; and the breakdown lists every category once, the largest first, with counts
  that add up to the number of videos.\<close>

theorem dashboard_exact:
  assumes "healthy E" "in_int64 (sum_list (map lv_viewers_count (filter lv_is_live (livestreams (db w)))))"
  shows "\<exists>r w'. Admin_GetDashboard E w = (Inr r, w') \<and> quiet w w' \<and>
     db_TotalVideos r = int (length (videos (db w))) \<and>
     db_ActiveLivestreams r = sql_count lv_is_live (livestreams (db w)) \<and>
     db_TotalViewers r = sum_list (map lv_viewers_count (filter lv_is_live (livestreams (db w)))) \<and>
     db_ActiveWorkers r = sql_count (\<lambda>hb. hb_LastHeartbeat hb \<ge> clock E (tick w + 4) - 30000000) (worker_heartbeats (db w)) \<and>
     db_TotalChannels r = int (card (vd_user_id ` set (videos (db w)) \<union> lv_user_id ` {r \<in> set (livestreams (db w)). lv_started_at r \<noteq> None})) \<and>
     distinct (map fst (db_CategoryBreakdown r)) \<and> sorted_wrt (\<lambda>a b. snd a \<ge> snd b) (db_CategoryBreakdown r) \<and>
     sum_list (map snd (db_CategoryBreakdown r)) = db_TotalVideos r"
proof -
  have m: "video_matches E (no_filter\<lparr>vf_Limit := 1\<rparr>) (db w) = (\<lambda>_. True)"
    by (rule ext) (simp add: video_matches_def no_filter_def)
  have l: "\<exists>vs. VideoRepo_List E (no_filter\<lparr>vf_Limit := 1\<rparr>) w = (Inr (vs, int (length (videos (db w)))), bump (bump w))"
  proof -
    have "vf_Limit (no_filter\<lparr>vf_Limit := 1\<rparr>) < 2 ^ 63" "vf_Offset (no_filter\<lparr>vf_Limit := 1\<rparr>) < 2 ^ 63"
      by (simp_all add: no_filter_def)
    from VideoRepo_List_healthy [OF assms(1) this, of w] show ?thesis unfolding m Let_def by simp
  qed
  have d: "distinct (map cat_Category (category_breakdown (db w)))"
  proof -
    have "mset (map cat_Category (category_breakdown (db w))) = mset (remdups (map vd_category (videos (db w))))"
      by (simp add: category_breakdown_def order_desc_def mset_map comp_def image_mset.compositionality)
    then show ?thesis by (metis distinct_remdups mset_eq_imp_distinct_iff)
  qed
  have s: "sorted_wrt (\<lambda>a b. cat_VideoCount a \<ge> cat_VideoCount b) (category_breakdown (db w))"
    unfolding category_breakdown_def by (rule order_desc_sorted)
  have t: "tick w + 4 = Suc (Suc (Suc (Suc (tick w))))" by simp
  show ?thesis unfolding t
    using l assms(2) d s breakdown_total [of "db w"]
    by (auto simp: Admin_GetDashboard_def LivestreamRepo_CountActive_def LivestreamRepo_SumActiveViewers_def WorkerRepo_ListActive_def
        AdminStatsRepo_ChannelStats_def AdminStatsRepo_CategoryBreakdown_def driver_healthy [OF assms(1)] Let_def Now_def
        active_workers_def sql_count_def workerStaleAfter_def channel_stats_def channels_card comp_def sorted_wrt_map)
qed

theorem dashboard_exact_witness:
  "\<exists>r w'. Admin_GetDashboard test_env ann_world = (Inr r, w') \<and> db_TotalVideos r = 0"
proof -
  have "in_int64 (sum_list (map lv_viewers_count (filter lv_is_live (livestreams (db ann_world)))))"
    by (simp add: ann_world_def empty_db_def in_int64_def)
  from dashboard_exact [OF test_env_healthy this] show ?thesis by (auto simp: ann_world_def empty_db_def)
qed

text \<open>A worker that reports is listed with what it reported while its report is younger than 30 seconds, and only
  such workers are listed, each once, in the order of their identifiers.\<close>

theorem worker_status_exact:
  assumes "healthy E" "workers_ok (db w)" "Admin_RecordHeartbeat E hb w = (Inr x, w1)" "worker_heartbeats (db w2) = worker_heartbeats (db w1)"
  shows "\<exists>ws. fst (Admin_GetWorkersStatus E w2) = Inr ws \<and> distinct (map ws_WorkerID ws) \<and>
     sorted (map (\<lambda>s. text_key (ws_WorkerID s)) ws) \<and>
     set ws = worker_status ` {h \<in> set (worker_heartbeats (db w2)). clock E (tick w2) - 30000000 \<le> hb_LastHeartbeat h} \<and>
     (clock E (tick w2) - 30000000 \<le> clock E (tick w) \<longleftrightarrow> worker_status hb \<in> set ws \<and> hb_WorkerID hb \<in> ws_WorkerID ` set ws)"
proof -
  obtain n where n: "upsert_heartbeat hb (clock E (tick w)) (db w) = Inr (n, db w1)"
    using assms(3) by (auto simp: Admin_RecordHeartbeat_def WorkerRepo_UpsertHeartbeat_def split: prod.splits sum.splits elim!: Exec_cases)
  have ok: "workers_ok (db w1)" by (rule worker_stmts_ok [OF worker_stmtsI assms(2) n])
  let ?cut = "clock E (tick w2) - 30000000" and ?rows = "worker_heartbeats (db w2)" and ?hb = "hb\<lparr>hb_LastHeartbeat := clock E (tick w)\<rparr>"
  let ?ws = "map worker_status (active_workers ?cut (db w2))"
  have st: "worker_status ?hb = worker_status hb" "ws_WorkerID (worker_status h) = hb_WorkerID h" for h
    by (simp_all add: worker_status_def)
  have dist: "distinct (map hb_WorkerID ?rows)" using ok assms(4) by (simp add: workers_ok_def)
  have at: "row_at hb_WorkerID (hb_WorkerID hb) ?rows = Some ?hb" using upsert_heartbeat_Inr(3) [OF n] assms(4) by simp
  have only: "h = ?hb" if "h \<in> set ?rows" "hb_WorkerID h = hb_WorkerID hb" for h
    using row_at_unique [OF dist that(1)] that(2) at by simp
  have hb: "?hb \<in> set ?rows" using row_at_Some [OF at] by simp
  have "set ?ws = worker_status ` {h \<in> set ?rows. ?cut \<le> hb_LastHeartbeat h}" by (simp add: active_workers_def)
  moreover have "distinct (map ws_WorkerID ?ws)"
  proof -
    have "map ws_WorkerID ?ws = map hb_WorkerID (active_workers ?cut (db w2))" by (simp add: st comp_def)
    moreover have "distinct (map hb_WorkerID (active_workers ?cut (db w2)))"
      using dist by (simp add: active_workers_def distinct_map inj_on_def)
    ultimately show ?thesis by (simp only:)
  qed
  moreover have "sorted (map (\<lambda>s. text_key (ws_WorkerID s)) ?ws)" by (simp add: st comp_def active_workers_def)
  moreover have "?cut \<le> clock E (tick w) \<longleftrightarrow> worker_status hb \<in> set ?ws \<and> hb_WorkerID hb \<in> ws_WorkerID ` set ?ws"
  proof
    assume "?cut \<le> clock E (tick w)"
    then have "?hb \<in> {h \<in> set ?rows. ?cut \<le> hb_LastHeartbeat h}" using hb by simp
    then have "worker_status ?hb \<in> set ?ws" by (simp add: active_workers_def)
    then show "worker_status hb \<in> set ?ws \<and> hb_WorkerID hb \<in> ws_WorkerID ` set ?ws"
      unfolding st(1) using st(2) [of hb] by (metis image_eqI)
  next
    assume "worker_status hb \<in> set ?ws \<and> hb_WorkerID hb \<in> ws_WorkerID ` set ?ws"
    then obtain h where "h \<in> set ?rows" "?cut \<le> hb_LastHeartbeat h" "hb_WorkerID h = hb_WorkerID hb"
      by (auto simp: active_workers_def st(2))
    then show "?cut \<le> clock E (tick w)" using only [of h] by simp
  qed
  moreover have "fst (Admin_GetWorkersStatus E w2) = Inr ?ws"
    by (simp add: Admin_GetWorkersStatus_def WorkerRepo_ListActive_def Query_healthy [OF assms(1)] Now_def Let_def workerStaleAfter_def)
  ultimately show ?thesis by blast
qed

theorem worker_status_exact_witness:
  "\<exists>w1 ws. Admin_RecordHeartbeat test_env \<lparr>hb_WorkerID = ''n1'', hb_Status = ''idle'', hb_CurrentJob = [], hb_CPUUsage = 0,
       hb_RAMUsageMB = 0, hb_LastHeartbeat = 0\<rparr> ann_world = (Inr (), w1) \<and>
     fst (Admin_GetWorkersStatus test_env w1) = Inr ws \<and> ''n1'' \<in> ws_WorkerID ` set ws"
proof -
  let ?hb = "\<lparr>hb_WorkerID = ''n1'', hb_Status = ''idle'', hb_CurrentJob = [], hb_CPUUsage = 0, hb_RAMUsageMB = 0, hb_LastHeartbeat = 0\<rparr>"
  have e: "worker_heartbeats (db ann_world) = []" by (simp add: ann_world_def empty_db_def)
  obtain w1 where r: "Admin_RecordHeartbeat test_env ?hb ann_world = (Inr (), w1)" and t: "tick w1 = 1"
    by (simp add: Admin_RecordHeartbeat_def WorkerRepo_UpsertHeartbeat_def Exec_healthy upsert_heartbeat_def Let_def e
        heartbeat_varchar_def varchar_ok_def rune_count_def) (simp add: ann_world_def init_world_def)
  have "workers_ok (db ann_world)" by (simp add: workers_ok_def e)
  from worker_status_exact [OF test_env_healthy this r refl] t show ?thesis using r
    by (auto simp: test_env_def ann_world_def init_world_def)
qed

end
