(* ===== verification/Subtitles.thy ===== *)
theory Subtitles
  imports Views
begin

text \<open>
  Subtitles: the WebVTT parser and the use case of \<^verbatim>\<open>internal/usecase/subtitle\<close>, the repository
  \<^verbatim>\<open>internal/repo/persistent/subtitle\<close> and \<^verbatim>\<open>internal/mapper/subtitle.go\<close>.  The arithmetic of
  \<^verbatim>\<open>float64\<close> and \<^verbatim>\<open>strconv.ParseFloat\<close> are parameters (\<^verbatim>\<open>fadd\<close>, \<^verbatim>\<open>fof_int\<close>, \<^verbatim>\<open>fparse\<close>).
  Error texts are kept up to the parts that \<^verbatim>\<open>%q\<close> would quote.
\<close>

section \<open>WebVTT\<close>

abbreviation newline :: char where "newline \<equiv> CHR 0x0A"
abbreviation return :: char where "return \<equiv> CHR 0x0D"

record vttCue =
  cue_Start :: float64
  cue_End :: float64
  cue_Text :: string

definition splitNonEmptyLines :: "string \<Rightarrow> string list" where
  "splitNonEmptyLines block = filter (\<lambda>l. l \<noteq> []) (map TrimSpace (Split [newline] block))"

text \<open>\<^verbatim>\<open>strconv.Atoi\<close>\<close>

definition Atoi :: "string \<Rightarrow> int res" where
  "Atoi s = (case ParseInt s of NumOk n \<Rightarrow> Inr n | NumSyntax \<Rightarrow> Inl (NewErr ''invalid syntax'')
     | NumRange _ \<Rightarrow> Inl (NewErr ''value out of range''))"

definition seconds_of :: "env \<Rightarrow> int \<Rightarrow> int \<Rightarrow> string \<Rightarrow> float64 res" where
  "seconds_of E hours minutes secondsStr =
     (case fparse E secondsStr of
        None \<Rightarrow> Inl (NewErr ''strconv.ParseFloat'')
      | Some seconds \<Rightarrow>
          Inr (fadd E (fof_int E (wrap64 (wrap64 (hours * 3600) + wrap64 (minutes * 60)))) seconds))"

definition parseTimestamp :: "env \<Rightarrow> string \<Rightarrow> float64 res" where
  "parseTimestamp E ts =
     (let ts = ReplaceAll ts '','' ''.'' in
      case Split '':'' ts of
        [a, b, c] \<Rightarrow>
          (case Atoi a of
             Inl err \<Rightarrow> Inl err
           | Inr h \<Rightarrow> (case Atoi b of Inl err \<Rightarrow> Inl err | Inr m \<Rightarrow> seconds_of E h m c))
      | [a, b] \<Rightarrow> (case Atoi a of Inl err \<Rightarrow> Inl err | Inr m \<Rightarrow> seconds_of E 0 m b)
      | _ \<Rightarrow> Inl (NewErr ''expected HH:MM:SS.mmm or MM:SS.mmm''))"

definition parseTimingLine :: "env \<Rightarrow> string \<Rightarrow> (float64 \<times> float64) res" where
  "parseTimingLine E line =
     (case Cut ''-->'' line of
        None \<Rightarrow> Inl (NewErr ''missing separator'')
      | Some (a, b) \<Rightarrow>
          (case parseTimestamp E (TrimSpace a) of
             Inl err \<Rightarrow> Inl (Errorf ''start timestamp'' err)
           | Inr start \<Rightarrow>
               (case Fields (TrimSpace b) of
                  [] \<Rightarrow> Inl (NewErr ''missing end timestamp'')
                | e # _ \<Rightarrow>
                    (case parseTimestamp E e of
                       Inl err \<Rightarrow> Inl (Errorf ''end timestamp'' err)
                     | Inr fin \<Rightarrow> Inr (start, fin)))))"

text \<open>The lines from the first timing line on.\<close>

fun from_timing :: "string list \<Rightarrow> string list" where
  "from_timing [] = []"
| "from_timing (l # ls) = (if Contains l ''-->'' then l # ls else from_timing ls)"

text \<open>One round of the loop over the blocks: a block without cue is skipped.\<close>

definition parse_block :: "env \<Rightarrow> string \<Rightarrow> vttCue option res" where
  "parse_block E block =
     (case splitNonEmptyLines block of
        [] \<Rightarrow> Inr None
      | l0 # ls \<Rightarrow>
          if HasPrefix (ToUpper l0) ''WEBVTT'' then Inr None
          else (case from_timing (l0 # ls) of
                  [] \<Rightarrow> Inr None
                | timing # rest \<Rightarrow>
                    (case parseTimingLine E timing of
                       Inl err \<Rightarrow> Inl (Errorf ''invalid WebVTT timing line'' err)
                     | Inr (start, fin) \<Rightarrow>
                         Inr (Some \<lparr>cue_Start = start, cue_End = fin, cue_Text = TrimSpace (Join '' '' rest)\<rparr>))))"

fun parse_blocks :: "env \<Rightarrow> string list \<Rightarrow> vttCue list res" where
  "parse_blocks E [] = Inr []"
| "parse_blocks E (b # bs) =
     (case parse_block E b of
        Inl err \<Rightarrow> Inl err
      | Inr None \<Rightarrow> parse_blocks E bs
      | Inr (Some c) \<Rightarrow> map_sum id (\<lambda>cs. c # cs) (parse_blocks E bs))"

definition parseVTT :: "env \<Rightarrow> string \<Rightarrow> vttCue list res" where
  "parseVTT E content =
     (let content = ReplaceAll content [return, newline] [newline] in
      parse_blocks E (Split [newline, newline] (TrimSpace content)))"

section \<open>Table video\_subtitles\<close>

definition insert_cue :: "subtitle_row \<Rightarrow> stmt" where
  "insert_cue s d =
     check (sb_seq s < 2 ^ 31) ''22003''
      (check (varchar_ok [(64, sb_id s), (64, sb_video_id s)]) ''22001''
        (check (sb_id s \<notin> sb_id ` set (video_subtitles d)) ''23505''
          (Inr (1, d\<lparr>video_subtitles := video_subtitles d @ [s]\<rparr>))))"

definition delete_cues :: "string \<Rightarrow> stmt" where
  "delete_cues videoID d =
     Inr (length (filter (\<lambda>s. sb_video_id s = videoID) (video_subtitles d)),
          d\<lparr>video_subtitles := sql_delete (\<lambda>s. sb_video_id s = videoID) (video_subtitles d)\<rparr>)"

definition subtitle_stmts :: "stmt set" where
  "subtitle_stmts = range insert_cue \<union> range delete_cues"

lemma subtitle_stmtsI [simp, intro]: "insert_cue s \<in> subtitle_stmts" "delete_cues v \<in> subtitle_stmts"
  by (simp_all add: subtitle_stmts_def)

lemma insert_cue_Inr:
  "insert_cue s d = Inr (n, d') \<longleftrightarrow>
     sb_seq s < 2 ^ 31 \<and> varchar_ok [(64, sb_id s), (64, sb_video_id s)] \<and> sb_id s \<notin> sb_id ` set (video_subtitles d) \<and>
     n = 1 \<and> d' = d\<lparr>video_subtitles := video_subtitles d @ [s]\<rparr>"
  by (auto simp: insert_cue_def)

interpretation cue_table: keyed_table video_subtitles sb_id "\<lambda>s. s" insert_cue
  by unfold_locales (auto simp: insert_cue_Inr)

definition subtitles_ok :: "db \<Rightarrow> bool" where
  "subtitles_ok d \<longleftrightarrow> distinct (map sb_id (video_subtitles d)) \<and>
     (\<forall>s \<in> set (video_subtitles d). varchar_ok [(64, sb_id s), (64, sb_video_id s)])"

lemma subtitle_stmts_ok: "s \<in> subtitle_stmts \<Longrightarrow> subtitles_ok d \<Longrightarrow> s d = Inr (n, d') \<Longrightarrow> subtitles_ok d'"
  by (auto simp: subtitle_stmts_def subtitles_ok_def insert_cue_Inr delete_cues_def distinct_map_delete)

lemma subtitle_stmts_frame:
  "s \<in> subtitle_stmts \<Longrightarrow> s d = Inr (n, d') \<Longrightarrow> d' = d\<lparr>video_subtitles := video_subtitles d'\<rparr>"
  by (auto simp: subtitle_stmts_def insert_cue_Inr delete_cues_def)

section \<open>Repository\<close>

fun insert_cues :: "env \<Rightarrow> string \<Rightarrow> int \<Rightarrow> SubtitleCue list \<Rightarrow> world \<Rightarrow> unit res \<times> world" where
  "insert_cues E videoID i [] w = (Inr (), w)"
| "insert_cues E videoID i (cue # cues) w =
     (case (if sc_ID cue = [] then NewUUID E w else (sc_ID cue, w)) of (k, w) \<Rightarrow>
      case Exec E (insert_cue \<lparr>sb_id = k, sb_video_id = videoID, sb_seq = i, sb_start_sec = sc_StartSec cue,
                     sb_end_sec = sc_EndSec cue, sb_text_en = sc_TextEN cue, sb_text_vi = sc_TextVI cue\<rparr>) w of
        (Inl err, w) \<Rightarrow> (Inl (Errorf ''SubtitleRepo - ReplaceCues - insert Exec'' err), w)
      | (Inr _, w) \<Rightarrow> insert_cues E videoID (i + 1) cues w)"

definition SubtitleRepo_ReplaceCues :: "env \<Rightarrow> string \<Rightarrow> SubtitleCue list \<Rightarrow> world \<Rightarrow> unit res \<times> world" where
  "SubtitleRepo_ReplaceCues E videoID cues w =
     (case Begin E w of
        (Inl err, w) \<Rightarrow> (Inl (Errorf ''SubtitleRepo - ReplaceCues - Begin'' err), w)
      | (Inr _, w) \<Rightarrow>
          let d0 = db w in
          (case Exec E (delete_cues videoID) w of
             (Inl err, w) \<Rightarrow> (Inl (Errorf ''SubtitleRepo - ReplaceCues - delete Exec'' err), Rollback d0 w)
           | (Inr _, w) \<Rightarrow>
               (case insert_cues E videoID 0 cues w of
                  (Inl err, w) \<Rightarrow> (Inl err, Rollback d0 w)
                | (Inr _, w) \<Rightarrow>
                    (case Commit E w of
                       (Inl err, w) \<Rightarrow> (Inl (Errorf ''SubtitleRepo - ReplaceCues - Commit'' err), Rollback d0 w)
                     | (Inr _, w) \<Rightarrow> (Inr (), w)))))"

definition cue_of_row :: "subtitle_row \<Rightarrow> SubtitleCue" where
  "cue_of_row s = \<lparr>sc_ID = sb_id s, sc_StartSec = sb_start_sec s, sc_EndSec = sb_end_sec s,
     sc_TextEN = sb_text_en s, sc_TextVI = sb_text_vi s\<rparr>"

definition cues_of :: "string \<Rightarrow> db \<Rightarrow> SubtitleCue list" where
  "cues_of videoID d = map cue_of_row (order_asc sb_seq (filter (\<lambda>s. sb_video_id s = videoID) (video_subtitles d)))"

definition SubtitleRepo_GetByVideoID :: "env \<Rightarrow> string \<Rightarrow> world \<Rightarrow> SubtitleCue list res \<times> world" where
  "SubtitleRepo_GetByVideoID E videoID w =
     (case Query E (\<lambda>d. Inr (cues_of videoID d)) w of
        (Inl err, w) \<Rightarrow> (Inl (Errorf ''SubtitleRepo - GetByVideoID - Query'' err), w)
      | (Inr cues, w) \<Rightarrow> (Inr cues, w))"

section \<open>Mapper and use case\<close>

definition ToSubtitleCueResponses :: "SubtitleCue list \<Rightarrow> SubtitleCueResponse list" where
  "ToSubtitleCueResponses cues =
     map (\<lambda>c. \<lparr>scr_ID = sc_ID c, scr_StartSec = sc_StartSec c, scr_EndSec = sc_EndSec c,
                scr_TextEN = sc_TextEN c, scr_TextVI = sc_TextVI c, scr_TextOther = []\<rparr>) cues"

definition Subtitle_GetSubtitles :: "env \<Rightarrow> string \<Rightarrow> world \<Rightarrow> (string \<times> SubtitleCueResponse list) res \<times> world" where
  "Subtitle_GetSubtitles E videoID w =
     (case SubtitleRepo_GetByVideoID E videoID w of
        (Inl err, w) \<Rightarrow> (Inl (Errorf ''SubtitleUseCase - GetSubtitles'' err), w)
      | (Inr cues, w) \<Rightarrow> (Inr (videoID, ToSubtitleCueResponses cues), w))"

text \<open>The loop that pairs the two tracks.\<close>

fun pair_cues :: "env \<Rightarrow> vttCue list \<Rightarrow> vttCue list \<Rightarrow> world \<Rightarrow> SubtitleCue list \<times> world" where
  "pair_cues E [] vis w = ([], w)"
| "pair_cues E (en # ens) vis w =
     (case NewUUID E w of (i, w) \<Rightarrow>
      let cue = \<lparr>sc_ID = i, sc_StartSec = cue_Start en, sc_EndSec = cue_End en, sc_TextEN = cue_Text en,
                 sc_TextVI = (case vis of [] \<Rightarrow> [] | vi # _ \<Rightarrow> cue_Text vi)\<rparr>
      in case pair_cues E ens (tl vis) w of (cues, w) \<Rightarrow> (cue # cues, w))"

definition Subtitle_UploadSubtitles :: "env \<Rightarrow> string \<Rightarrow> string \<Rightarrow> string \<Rightarrow> string \<Rightarrow> world \<Rightarrow> unit res \<times> world" where
  "Subtitle_UploadSubtitles E userID videoID vttEN vttVI w =
     (case VideoRepo_GetByID E videoID w of
        (Inl err, w) \<Rightarrow> (Inl err, w)
      | (Inr video, w) \<Rightarrow>
          if v_UserID video \<noteq> userID then (Inl ErrVideoForbidden, w)
          else (case parseVTT E vttEN of
                  Inl err \<Rightarrow> (Inl (Errorf ''SubtitleUseCase - UploadSubtitles - parse English VTT'' err), w)
                | Inr [] \<Rightarrow> (Inl (NewErr ''SubtitleUseCase - UploadSubtitles: no cues found in English VTT''), w)
                | Inr enCues \<Rightarrow>
                    (case (if vttVI = [] then Inr [] else parseVTT E vttVI) of
                       Inl err \<Rightarrow> (Inl (Errorf ''SubtitleUseCase - UploadSubtitles - parse Vietnamese VTT'' err), w)
                     | Inr viCues \<Rightarrow>
                         (case pair_cues E enCues viCues w of (cues, w) \<Rightarrow>
                          case SubtitleRepo_ReplaceCues E videoID cues w of
                            (Inl err, w) \<Rightarrow> (Inl (Errorf ''SubtitleUseCase - UploadSubtitles - ReplaceCues'' err), w)
                          | (Inr _, w) \<Rightarrow> (Inr (), w)))))"

section \<open>Writing a track\<close>

text \<open>The inverse of the parser on well-formed tracks: the header, then per cue a block with its timing line
  and its text.\<close>

record stamp =
  st_hours :: nat
  st_minutes :: nat
  st_seconds :: string

type_synonym cue_text = "stamp \<times> stamp \<times> string"

definition render_stamp :: "stamp \<Rightarrow> string" where
  "render_stamp t = Join '':'' [pad2 (int (st_hours t)), pad2 (int (st_minutes t)), st_seconds t]"

definition render_cue :: "cue_text \<Rightarrow> string" where
  "render_cue = (\<lambda>(a, b, tx). Join [newline] [render_stamp a @ '' --> '' @ render_stamp b, tx])"

definition render_track :: "cue_text list \<Rightarrow> string" where
  "render_track cues = Join [newline, newline] (''WEBVTT'' # map render_cue cues)"

text \<open>What such a cue must satisfy: the seconds are digits and a point that the float parser accepts,
  hours and minutes are small, the text is one line that begins and ends with a printing ASCII character.\<close>

definition clean :: "string \<Rightarrow> bool" where
  "clean s \<longleftrightarrow> s \<noteq> [] \<and> graphic (hd s) \<and> graphic (last s)"

definition line :: "string \<Rightarrow> bool" where
  "line s \<longleftrightarrow> clean s \<and> newline \<notin> set s \<and> return \<notin> set s"

definition stamp_ok :: "env \<Rightarrow> stamp \<Rightarrow> bool" where
  "stamp_ok E t \<longleftrightarrow> st_hours t < 10 ^ 6 \<and> st_minutes t < 10 ^ 6 \<and> st_seconds t \<noteq> [] \<and>
     list_all (\<lambda>c. is_digit c \<or> c = CHR ''.'') (st_seconds t) \<and> fparse E (st_seconds t) \<noteq> None"

definition cue_ok :: "env \<Rightarrow> cue_text \<Rightarrow> bool" where
  "cue_ok E = (\<lambda>(a, b, tx). stamp_ok E a \<and> stamp_ok E b \<and> line tx)"

definition stamp_value :: "env \<Rightarrow> stamp \<Rightarrow> float64" where
  "stamp_value E t = fadd E (fof_int E (int (st_hours t * 3600 + st_minutes t * 60))) (the (fparse E (st_seconds t)))"

definition cue_value :: "env \<Rightarrow> cue_text \<Rightarrow> vttCue" where
  "cue_value E = (\<lambda>(a, b, tx). \<lparr>cue_Start = stamp_value E a, cue_End = stamp_value E b, cue_Text = tx\<rparr>)"

subsection \<open>Separators and white space\<close>

lemma Cut_hd_append:
  assumes "sep \<noteq> []" "hd sep \<notin> set a"
  shows "Cut sep (a @ sep @ b) = Some (a, b)"
  using assms(2)
proof (induction a)
  case Nil
  obtain x xs where "sep = x # xs" using assms(1) by (cases sep) auto
  then show ?case by (simp add: HasPrefix_def)
next
  case (Cons c a)
  then have "\<not> HasPrefix (c # a @ sep @ b) sep" using assms(1) by (cases sep) (auto simp: HasPrefix_def)
  then show ?case using Cons by simp
qed

lemma Cut_hd_None: "sep \<noteq> [] \<Longrightarrow> hd sep \<notin> set a \<Longrightarrow> Cut sep a = None"
  by (induction a) (auto simp: HasPrefix_def neq_Nil_conv)

lemma ReplaceAll_none: "old \<noteq> [] \<Longrightarrow> hd old \<notin> set s \<Longrightarrow> ReplaceAll s old new = s"
  by (simp add: ReplaceAll_def Split.simps Cut_hd_None)

text \<open>A text in which \<open>x\<close> never stands twice in a row, and not at the end.\<close>

fun single :: "char \<Rightarrow> string \<Rightarrow> bool" where
  "single x [] = True"
| "single x [c] = (c \<noteq> x)"
| "single x (c # d # cs) = ((c = x \<longrightarrow> d \<noteq> x) \<and> single x (d # cs))"

lemma Cut_double_append: "single x a \<Longrightarrow> Cut [x, x] (a @ x # x # b) = Some (a, b)"
  by (induction x a rule: single.induct) (auto simp: HasPrefix_def)

lemma Cut_double_None: "single x a \<Longrightarrow> Cut [x, x] a = None"
  by (induction x a rule: single.induct) (auto simp: HasPrefix_def)

lemma single_notin: "x \<notin> set s \<Longrightarrow> single x s"
  by (induction x s rule: single.induct) auto

lemma single_append: "x \<notin> set a \<Longrightarrow> a \<noteq> [] \<Longrightarrow> single x b \<Longrightarrow> b \<noteq> [] \<Longrightarrow> hd b \<noteq> x \<Longrightarrow> single x (a @ x # b)"
proof (induction a)
  case (Cons c a)
  then show ?case by (cases a; cases b) auto
qed simp

lemma Split_Join_double:
  assumes "xs \<noteq> []" "\<And>s. s \<in> set xs \<Longrightarrow> single x s"
  shows "Split [x, x] (Join [x, x] xs) = xs"
  using assms
proof (induction "[x, x]" xs rule: Join.induct)
  case (2 s)
  then show ?case by (simp add: Split.simps Cut_double_None)
next
  case (3 s y ys)
  then have "Split [x, x] (Join [x, x] (y # ys)) = y # ys" and "single x s" by auto
  then show ?case by (subst Split.simps) (simp add: Cut_double_append)
qed simp

lemma TrimSpace_clean: "clean s \<Longrightarrow> TrimSpace s = s"
proof -
  assume "clean s"
  then obtain c cs d ds where "s = c # cs" "graphic c" "rev s = d # ds" "graphic d"
    by (cases s; cases "rev s") (auto simp: clean_def hd_rev [symmetric])
  then have "trim_left space_codes s = s" "trim_left (map rev space_codes) (rev s) = rev s"
    by (simp_all add: trim_left_id)
  then show ?thesis by (simp add: TrimSpace_def)
qed

lemma TrimSpace_blanks: "clean s \<Longrightarrow> TrimSpace (s @ '' '') = s" "clean s \<Longrightarrow> TrimSpace (CHR '' '' # s) = s"
proof -
  assume "clean s"
  then obtain c cs d ds where s: "s = c # cs" "graphic c" "rev s = d # ds" "graphic d"
    by (cases s; cases "rev s") (auto simp: clean_def hd_rev [symmetric])
  then have t: "trim_left space_codes (s @ '' '') = s @ '' ''" "trim_left (map rev space_codes) (rev s) = rev s"
    by (simp_all add: trim_left_id)
  have l: "leading space_codes (c # cs) = None" "leading (map rev space_codes) (d # ds) = None"
    using s by simp_all
  have "rev (s @ '' '') = CHR '' '' # d # ds" using s(3) by simp
  then have "TrimSpace (s @ '' '') = rev (d # ds)"
    unfolding TrimSpace_def t(1) using trim_left_blank [OF space_codes_blank(2) l(2)] by simp
  then show "TrimSpace (s @ '' '') = s" using s(3) by (metis rev_rev_ident)
  show "TrimSpace (CHR '' '' # s) = s"
    using trim_left_blank [OF space_codes_blank(1) l(1)] t(2) unfolding TrimSpace_def s(1) by simp
qed

text \<open>A string of printing characters is one field.\<close>

lemma span_word_graphic: "list_all graphic s \<Longrightarrow> span_word s = (s, [])"
  by (induction s) simp_all

lemma Fields_graphic:
  assumes "list_all graphic s" "s \<noteq> []"
  shows "Fields s = [s]"
proof -
  obtain c cs where s: "s = c # cs" using assms(2) by (cases s) auto
  then have "trim_left space_codes s = s" using assms(1) by (simp add: trim_left_id)
  moreover have "Fields [] = []" by (simp add: Fields.simps [of "[]"] trim_left_id leading_def HasPrefix_def find_None_iff)
  ultimately show ?thesis using span_word_graphic [OF assms(1)] assms(2) by (simp add: Fields.simps [of s])
qed

subsection \<open>Timestamps\<close>

lemma digits_value_zeros: "digits_value 0 (replicate n (CHR ''0'') @ s) = digits_value 0 s"
  by (induction n) (simp_all add: is_digit_def)

lemma pad2_digits: "0 \<le> x \<Longrightarrow> list_all is_digit (pad2 x) \<and> pad2 x \<noteq> []"
  using nat_digits_digits [of "nat x"] by (auto simp: pad2_def pad_to_def itoa_def is_digit_def list_all_iff)

lemma ParseInt_digits:
  assumes "list_all is_digit s" "s \<noteq> []" "digits_value 0 s = Some n" "int n < 2 ^ 63"
  shows "ParseInt s = NumOk (int n)"
proof -
  obtain c cs where s: "s = c # cs" using assms(2) by (cases s) auto
  then have "c \<noteq> CHR ''-''" "c \<noteq> CHR ''+''" using assms(1) by auto
  then show ?thesis using assms s by (simp add: ParseInt_def in_int64_def)
qed

lemma Atoi_pad2: "0 \<le> x \<Longrightarrow> x < 2 ^ 63 \<Longrightarrow> Atoi (pad2 x) = Inr x"
proof -
  assume x: "0 \<le> x" "x < 2 ^ 63"
  have "digits_value 0 (pad2 x) = Some (nat x)"
    using x(1) by (simp add: pad2_def pad_to_def itoa_def digits_value_zeros digits_value_nat_digits)
  with ParseInt_digits [of "pad2 x" "nat x"] pad2_digits [OF x(1)] x show ?thesis by (simp add: Atoi_def)
qed

lemma digit_graphic: "is_digit c \<Longrightarrow> graphic c \<and> c \<notin> {CHR ''-'', CHR '':'', CHR '','', newline, return}"
  by (auto simp: is_digit_def graphic_def)

lemma render_stamp_graphic:
  assumes "stamp_ok E t"
  shows "list_all graphic (render_stamp t)" "render_stamp t \<noteq> []"
    "set (render_stamp t) \<inter> {CHR ''-'', CHR '','', newline, return} = {}"
proof -
  have s: "list_all (\<lambda>c. graphic c \<and> c \<notin> {CHR ''-'', CHR '','', newline, return}) (st_seconds t)"
    using assms digit_graphic unfolding stamp_ok_def list_all_iff by (fastforce simp: graphic_def)
  have p: "list_all (\<lambda>c. graphic c \<and> c \<notin> {CHR ''-'', CHR '','', newline, return}) (pad2 (int n))" for n
    using pad2_digits [of "int n"] digit_graphic by (auto simp: list_all_iff)
  have "list_all (\<lambda>c. graphic c \<and> c \<notin> {CHR ''-'', CHR '','', newline, return}) (render_stamp t)"
    using s p by (simp add: render_stamp_def) (simp add: graphic_def)
  then show "list_all graphic (render_stamp t)" "set (render_stamp t) \<inter> {CHR ''-'', CHR '','', newline, return} = {}"
    by (auto simp: list_all_iff)
  show "render_stamp t \<noteq> []" by (simp add: render_stamp_def)
qed

lemma parseTimestamp_render:
  assumes "stamp_ok E t"
  shows "parseTimestamp E (render_stamp t) = Inr (stamp_value E t)"
proof -
  have r: "ReplaceAll (render_stamp t) '','' ''.'' = render_stamp t"
    using render_stamp_graphic(3) [OF assms] by (simp add: ReplaceAll_none)
  have nc: "CHR '':'' \<notin> set (pad2 (int n))" for n
    using pad2_digits [of "int n"] digit_graphic by (fastforce simp: list_all_iff)
  moreover have "CHR '':'' \<notin> set (st_seconds t)"
    using assms digit_graphic unfolding stamp_ok_def list_all_iff by fastforce
  ultimately have sp: "Split '':'' (render_stamp t) = [pad2 (int (st_hours t)), pad2 (int (st_minutes t)), st_seconds t]"
    unfolding render_stamp_def by (intro Split_Join_char) auto
  have b: "st_hours t < 10 ^ 6" "st_minutes t < 10 ^ 6" using assms by (simp_all add: stamp_ok_def)
  then have "wrap64 (wrap64 (int (st_hours t) * 3600) + wrap64 (int (st_minutes t) * 60)) = int (st_hours t * 3600 + st_minutes t * 60)"
    by (simp add: in_int64_def)
  then show ?thesis
    using b assms by (auto simp: parseTimestamp_def Let_def r sp Atoi_pad2 seconds_of_def stamp_value_def stamp_ok_def)
qed

subsection \<open>Blocks\<close>

lemma graphic_clean: "list_all graphic s \<Longrightarrow> s \<noteq> [] \<Longrightarrow> clean s"
  by (auto simp: clean_def list_all_iff)

definition timing :: "stamp \<Rightarrow> stamp \<Rightarrow> string" where
  "timing a b = render_stamp a @ '' --> '' @ render_stamp b"

lemma timing_line:
  assumes "stamp_ok E a" "stamp_ok E b"
  shows "line (timing a b)" "Contains (timing a b) ''-->''" "\<not> HasPrefix (ToUpper (timing a b)) ''WEBVTT''"
    "parseTimingLine E (timing a b) = Inr (stamp_value E a, stamp_value E b)"
proof -
  note ra = render_stamp_graphic [OF assms(1)] and rb = render_stamp_graphic [OF assms(2)]
  have ca: "clean (render_stamp a)" and cb: "clean (render_stamp b)" using ra rb graphic_clean by blast+
  show "line (timing a b)"
    using ca cb ra(3) rb(3) by (auto simp: line_def clean_def timing_def)
  have "timing a b = (render_stamp a @ '' '') @ ''-->'' @ (CHR '' '' # render_stamp b)" by (simp add: timing_def)
  then have cut: "Cut ''-->'' (timing a b) = Some (render_stamp a @ '' '', CHR '' '' # render_stamp b)"
    using Cut_hd_append [of "''-->''" "render_stamp a @ '' ''"] ra(3) by auto
  then show "Contains (timing a b) ''-->''" by (simp add: Contains_def)
  show "parseTimingLine E (timing a b) = Inr (stamp_value E a, stamp_value E b)"
    using ca cb Fields_graphic [OF rb(1,2)]
    by (simp add: parseTimingLine_def cut TrimSpace_blanks parseTimestamp_render assms)
  obtain c cs where h: "pad2 (int (st_hours a)) = c # cs" "is_digit c"
    using pad2_digits [of "int (st_hours a)"] by (cases "pad2 (int (st_hours a))") auto
  then have t: "timing a b = c # (cs @ '':'' @ pad2 (int (st_minutes a)) @ '':'' @ st_seconds a @ '' --> '' @ render_stamp b)"
    by (simp add: timing_def render_stamp_def)
  have "hd (ToUpper (c # d # rest)) = c" for d rest using h(2) by (auto simp: is_digit_def upper_ascii_def Let_def)
  moreover have "\<exists>d rest. timing a b = c # d # rest" using t by (cases cs) auto
  ultimately have "hd (ToUpper (timing a b)) = c" by metis
  moreover have "c \<noteq> CHR ''W''" using h(2) by (auto simp: is_digit_def)
  ultimately show "\<not> HasPrefix (ToUpper (timing a b)) ''WEBVTT''"
    by (cases "ToUpper (timing a b)") (auto simp: HasPrefix_def)
qed

lemma parse_render_cue:
  assumes "cue_ok E c"
  shows "parse_block E (render_cue c) = Inr (Some (cue_value E c))"
proof -
  obtain a b tx where c: "c = (a, b, tx)" by (cases c)
  with assms have ok: "stamp_ok E a" "stamp_ok E b" "line tx" by (simp_all add: cue_ok_def)
  note t = timing_line [OF ok(1,2)]
  have "Split [newline] (render_cue c) = [timing a b, tx]"
    unfolding c render_cue_def using t(1) ok(3) by (simp only: prod.case timing_def [symmetric], intro Split_Join_char) (auto simp: line_def)
  then have "splitNonEmptyLines (render_cue c) = [timing a b, tx]"
    using t(1) ok(3) by (auto simp: splitNonEmptyLines_def TrimSpace_clean line_def clean_def)
  then show ?thesis
    using t(2-4) ok(3) by (simp add: parse_block_def c cue_value_def TrimSpace_clean line_def)
qed

lemma render_cue_single:
  assumes "cue_ok E c"
  shows "single newline (render_cue c)" "return \<notin> set (render_cue c)" "render_cue c \<noteq> []" "graphic (last (render_cue c))"
proof -
  obtain a b tx where c: "c = (a, b, tx)" by (cases c)
  with assms have ok: "stamp_ok E a" "stamp_ok E b" "line tx" by (simp_all add: cue_ok_def)
  note t = timing_line(1) [OF ok(1,2)]
  have r: "render_cue c = timing a b @ newline # tx" by (simp add: c render_cue_def timing_def)
  show "single newline (render_cue c)"
    unfolding r
  proof (rule single_append)
    show "single newline tx" using ok(3) by (simp add: single_notin line_def)
    show "hd tx \<noteq> newline" using ok(3) by (auto simp: line_def clean_def graphic_def)
  qed (use t ok(3) in \<open>auto simp: line_def clean_def\<close>)
  show "return \<notin> set (render_cue c)" "render_cue c \<noteq> []" using t ok(3) by (auto simp: r line_def)
  show "graphic (last (render_cue c))" using ok(3) by (simp add: r line_def clean_def)
qed

lemma Join_last: "xs \<noteq> [] \<Longrightarrow> (\<And>x. x \<in> set xs \<Longrightarrow> x \<noteq> []) \<Longrightarrow> Join sep xs \<noteq> [] \<and> last (Join sep xs) = last (last xs)"
  by (induction sep xs rule: Join.induct) auto

lemma set_Join: "set (Join sep xs) \<subseteq> \<Union> (set ` set xs) \<union> set sep"
  by (induction sep xs rule: Join.induct) auto

lemma hd_Join: "x \<noteq> [] \<Longrightarrow> hd (Join sep (x # xs)) = hd x"
  by (cases xs) auto

lemma parse_header: "parse_block E ''WEBVTT'' = Inr None"
proof -
  have "splitNonEmptyLines ''WEBVTT'' = [''WEBVTT'']"
  proof -
    have "newline \<notin> set ''WEBVTT''" by simp
    then have "Split [newline] ''WEBVTT'' = [''WEBVTT'']" by (simp add: Split.simps [of _ "''WEBVTT''"] Cut_char_None del: Cut.simps)
    moreover have "TrimSpace ''WEBVTT'' = ''WEBVTT''" by (rule TrimSpace_clean) (simp add: clean_def graphic_def)
    ultimately show ?thesis by (simp add: splitNonEmptyLines_def)
  qed
  moreover have "HasPrefix (ToUpper ''WEBVTT'') ''WEBVTT''" by code_simp
  ultimately show ?thesis by (simp add: parse_block_def)
qed

lemma parse_render_track:
  assumes "list_all (cue_ok E) cues"
  shows "parseVTT E (render_track cues) = Inr (map (cue_value E) cues)"
proof -
  let ?bs = "''WEBVTT'' # map render_cue cues"
  have c: "cue_ok E x" if "x \<in> set cues" for x using assms that by (simp add: list_all_iff)
  have ne: "x \<noteq> []" if "x \<in> set ?bs" for x using that render_cue_single(3) c by fastforce
  have "return \<notin> \<Union> (set ` set ?bs)" using render_cue_single(2) c by fastforce
  then have "return \<notin> set (render_track cues)" unfolding render_track_def using set_Join [of "[newline, newline]" ?bs] by auto
  then have r: "ReplaceAll (render_track cues) [return, newline] [newline] = render_track cues" by (simp add: ReplaceAll_none)
  have "graphic (last (last ?bs))"
  proof (cases "cues = []")
    case False
    then show ?thesis using render_cue_single(4) [OF c [OF last_in_set [OF False]]] by (simp add: last_map)
  qed (simp add: graphic_def)
  then have "clean (render_track cues)"
    using Join_last [of ?bs "[newline, newline]"] ne hd_Join [of "''WEBVTT''" "[newline, newline]" "map render_cue cues"]
    unfolding clean_def render_track_def by (simp add: graphic_def)
  then have t: "TrimSpace (render_track cues) = render_track cues" by (rule TrimSpace_clean)
  have s: "single newline x" if "x \<in> set ?bs" for x
  proof -
    from that consider "x = ''WEBVTT''" | y where "y \<in> set cues" "x = render_cue y" by auto
    then show ?thesis by cases (simp, use render_cue_single(1) c in blast)
  qed
  have "Split [newline, newline] (render_track cues) = ?bs"
    unfolding render_track_def by (rule Split_Join_double) (use s in auto)
  moreover have "parse_blocks E (map render_cue cues) = Inr (map (cue_value E) cues)"
    using assms by (induction cues) (simp_all add: parse_render_cue)
  ultimately show ?thesis by (simp add: parseVTT_def Let_def r t parse_header)
qed

text \<open>C25: round trip of the WebVTT parser: every well-formed track, written out, is parsed back to exactly
  its cues, in order, whatever the float library is.\<close>

theorem vtt_round_trip:
  assumes "list_all (cue_ok E) cues"
  shows "parseVTT E (render_track cues) = Inr (map (cue_value E) cues)"
  using assms by (rule parse_render_track)

definition sample_track :: "cue_text list" where
  "sample_track =
     [(\<lparr>st_hours = 0, st_minutes = 0, st_seconds = ''1''\<rparr>, \<lparr>st_hours = 0, st_minutes = 0, st_seconds = ''4''\<rparr>, ''Hello --> there''),
      (\<lparr>st_hours = 1, st_minutes = 2, st_seconds = ''5''\<rparr>, \<lparr>st_hours = 1, st_minutes = 2, st_seconds = ''9''\<rparr>, ''Bye'')]"

lemma sample_track_ok: "list_all (cue_ok test_env) sample_track"
  by (simp add: sample_track_def cue_ok_def stamp_ok_def line_def clean_def graphic_def is_digit_def test_env_def)

lemma sample_track_value: "map (cue_value test_env) sample_track =
    [\<lparr>cue_Start = 1, cue_End = 4, cue_Text = ''Hello --> there''\<rparr>, \<lparr>cue_Start = 3725, cue_End = 3729, cue_Text = ''Bye''\<rparr>]"
  by (simp add: sample_track_def cue_value_def stamp_value_def test_env_def is_digit_def)

theorem vtt_round_trip_witness:
  "parseVTT test_env (render_track sample_track) =
     Inr [\<lparr>cue_Start = 1, cue_End = 4, cue_Text = ''Hello --> there''\<rparr>, \<lparr>cue_Start = 3725, cue_End = 3729, cue_Text = ''Bye''\<rparr>]"
  using vtt_round_trip [OF sample_track_ok] unfolding sample_track_value .

section \<open>Replacing a track\<close>

text \<open>A cue without its identifier.\<close>

definition content :: "SubtitleCue \<Rightarrow> float64 \<times> float64 \<times> string \<times> string" where
  "content c = (sc_StartSec c, sc_EndSec c, sc_TextEN c, sc_TextVI c)"

text \<open>The rows of a track, numbered from \<open>i\<close>.\<close>

fun numbered :: "string \<Rightarrow> int \<Rightarrow> SubtitleCue list \<Rightarrow> subtitle_row list \<Rightarrow> bool" where
  "numbered v i (c # cs) (r # rs) \<longleftrightarrow>
     sb_video_id r = v \<and> sb_seq r = i \<and> content (cue_of_row r) = content c \<and> numbered v (i + 1) cs rs"
| "numbered v i cs rs \<longleftrightarrow> cs = [] \<and> rs = []"

lemma numbered_rows:
  "numbered v i cs rs \<Longrightarrow> map (\<lambda>r. content (cue_of_row r)) rs = map content cs \<and> (\<forall>r \<in> set rs. sb_video_id r = v \<and> i \<le> sb_seq r) \<and>
     sorted (map sb_seq rs)"
  by (induction v i cs rs rule: numbered.induct) fastforce+

lemma insert_cues_spec:
  assumes "insert_cues E v i cues w = (r, w')"
  shows "only_db w w' \<and> runs subtitle_stmts (db w) (db w') \<and> (r = Inr () \<longrightarrow>
     (\<exists>rs. numbered v i cues rs \<and> db w' = (db w)\<lparr>video_subtitles := video_subtitles (db w) @ rs\<rparr>))"
  using assms
proof (induction cues arbitrary: i w)
  case Nil
  then show ?case by auto
next
  case (Cons cue cues)
  obtain k w0 where k: "(if sc_ID cue = [] then NewUUID E w else (sc_ID cue, w)) = (k, w0)" by fastforce
  then have q: "quiet w w0" by (auto simp: NewUUID_def split: if_splits)
  let ?row = "\<lparr>sb_id = k, sb_video_id = v, sb_seq = i, sb_start_sec = sc_StartSec cue,
       sb_end_sec = sc_EndSec cue, sb_text_en = sc_TextEN cue, sb_text_vi = sc_TextVI cue\<rparr>"
  obtain r1 w1 where x: "Exec E (insert_cue ?row) w0 = (r1, w1)" by fastforce
  have e1: "effect subtitle_stmts w w1" using Exec_effect [OF x] quiet_then [OF _ q] by simp
  show ?case
  proof (cases r1)
    case (Inl err)
    then show ?thesis using Cons.prems k x e1 by (auto simp: effect_def)
  next
    case (Inr n)
    then have l: "insert_cues E v (i + 1) cues w1 = (r, w')" using Cons.prems k x by simp
    from Cons.IH [OF l] have ih: "only_db w1 w'" "runs subtitle_stmts (db w1) (db w')" and
      rs: "r = Inr () \<longrightarrow> (\<exists>rs. numbered v (i + 1) cues rs \<and> db w' = (db w1)\<lparr>video_subtitles := video_subtitles (db w1) @ rs\<rparr>)"
      by auto
    have e2: "effect subtitle_stmts w w'" using effect_trans [OF e1] ih by (simp add: effect_def)
    have d1: "db w1 = (db w)\<lparr>video_subtitles := video_subtitles (db w) @ [?row]\<rparr>"
      using x Inr quietD(1) [OF q] by (auto simp: insert_cue_Inr elim!: Exec_cases)
    have "\<exists>rs. numbered v i (cue # cues) rs \<and> db w' = (db w)\<lparr>video_subtitles := video_subtitles (db w) @ rs\<rparr>" if "r = Inr ()"
    proof -
      from rs that obtain rs where "numbered v (i + 1) cues rs" "db w' = (db w1)\<lparr>video_subtitles := video_subtitles (db w1) @ rs\<rparr>"
        by blast
      then show ?thesis by (intro exI [of _ "?row # rs"]) (simp add: d1 content_def cue_of_row_def)
    qed
    then show ?thesis using e2 by (simp add: effect_def)
  qed
qed

text \<open>The replacement is all or nothing.\<close>

lemma runs_delete_cues: "s d = Inr (n, d') \<Longrightarrow> s \<in> S \<Longrightarrow> runs S d' d'' \<Longrightarrow> runs S d d''"
  using runs_step [OF runs_refl] runs_trans by blast

lemma ReplaceCues_spec:
  assumes "SubtitleRepo_ReplaceCues E v cues w = (r, w')"
  shows "effect subtitle_stmts w w' \<and>
    (case r of
       Inl e \<Rightarrow> db w' = db w
     | Inr _ \<Rightarrow> (\<exists>rs. numbered v 0 cues rs \<and>
         db w' = (db w)\<lparr>video_subtitles := filter (\<lambda>s. sb_video_id s \<noteq> v) (video_subtitles (db w)) @ rs\<rparr>))"
proof (cases "pg_fail E (tick w)")
  case (Some m)
  then show ?thesis using assms by (auto simp: SubtitleRepo_ReplaceCues_def Begin_def)
next
  case None
  have rb: "effect subtitle_stmts w (Rollback (db w) w2) \<and> db (Rollback (db w) w2) = db w" if "only_db w w2" for w2
    using that by (cases w; cases w2) (auto simp: effect_def only_db_def Rollback_def)
  obtain r1 w1 where x: "Exec E (delete_cues v) (bump w) = (r1, w1)" by fastforce
  then have e1: "effect subtitle_stmts w w1" using Exec_effect by fastforce
  show ?thesis
  proof (cases r1)
    case (Inl err)
    then show ?thesis using assms None x rb e1 by (auto simp: SubtitleRepo_ReplaceCues_def Begin_def Let_def effect_def)
  next
    case (Inr n)
    then have d1: "db w1 = (db w)\<lparr>video_subtitles := filter (\<lambda>s. sb_video_id s \<noteq> v) (video_subtitles (db w))\<rparr>"
      using x by (auto simp: delete_cues_def sql_delete_def elim!: Exec_cases)
    obtain r2 w2 where l: "insert_cues E v 0 cues w1 = (r2, w2)" by fastforce
    note sp = insert_cues_spec [OF l]
    have e2: "effect subtitle_stmts w w2" using effect_trans [OF e1] sp by (simp add: effect_def)
    then have rb2: "effect subtitle_stmts w (Rollback (db w) w2) \<and> db (Rollback (db w) w2) = db w"
      "effect subtitle_stmts w (Rollback (db w) (bump w2)) \<and> db (Rollback (db w) (bump w2)) = db w"
      using rb [of w2] rb [of "bump w2"] by (simp_all add: effect_def)
    show ?thesis
      using assms None x Inr l sp d1 e2 rb2
      by (auto simp: SubtitleRepo_ReplaceCues_def Begin_def Commit_def Let_def split: sum.splits option.splits)
  qed
qed

definition paired :: "vttCue list \<Rightarrow> vttCue list \<Rightarrow> (float64 \<times> float64 \<times> string \<times> string) list" where
  "paired ens vis = map (\<lambda>i. (cue_Start (ens ! i), cue_End (ens ! i), cue_Text (ens ! i),
     if i < length vis then cue_Text (vis ! i) else [])) [0..<length ens]"

lemma paired_Cons: "paired (e # es) vis =
    (cue_Start e, cue_End e, cue_Text e, case vis of [] \<Rightarrow> [] | v # _ \<Rightarrow> cue_Text v) # paired es (tl vis)"
  by (cases vis) (simp_all add: paired_def upt_rec [of 0 "Suc _"] map_Suc_upt [symmetric] o_def del: upt_Suc)

lemma pair_cues_content: "pair_cues E ens vis w = (cues, w') \<Longrightarrow> map content cues = paired ens vis \<and> quiet w w'"
proof (induction ens arbitrary: vis w cues w')
  case Nil
  then show ?case by (simp add: paired_def)
next
  case (Cons e ens)
  obtain cs w1 where p: "pair_cues E ens (tl vis) (bump w) = (cs, w1)" by fastforce
  from Cons.IH [OF p] Cons.prems p show ?case by (auto simp: NewUUID_def Let_def content_def paired_Cons)
qed

lemma numbered_cues:
  assumes "numbered v 0 cues rs"
  shows "map content (map cue_of_row (order_asc sb_seq rs)) = map content cues" "\<forall>s \<in> set rs. sb_video_id s = v"
  using numbered_rows [OF assms] by (simp_all add: order_asc_def sort_key_id_if_sorted o_def)

lemma GetSubtitles_quiet: "Subtitle_GetSubtitles E v w = (r, w') \<Longrightarrow> quiet w w'"
  by (auto simp: Subtitle_GetSubtitles_def SubtitleRepo_GetByVideoID_def split: prod.splits sum.splits dest!: driver_bump)

text \<open>C24: an upload of subtitles replaces the track of one video as a whole.  It succeeds only for the owner
  and only with a parseable English track that has a cue; the cues of the video are then the English cues in
  their order, each with the Vietnamese text of the same position if there is one; the tracks of other
  videos and all other tables stay.  An upload that fails, wherever it fails, leaves the database as it was.\<close>

theorem upload_subtitles_exact:
  "case Subtitle_UploadSubtitles E u v en vi w of
     (Inr _, w') \<Rightarrow>
       (\<exists>r. row_at vd_id v (videos (db w)) = Some r \<and> vd_user_id r = u) \<and>
       (\<exists>ens vis. parseVTT E en = Inr ens \<and> ens \<noteq> [] \<and> (if vi = [] then vis = [] else parseVTT E vi = Inr vis) \<and>
          map content (cues_of v (db w')) = paired ens vis) \<and>
       (\<forall>v'. v' \<noteq> v \<longrightarrow> cues_of v' (db w') = cues_of v' (db w)) \<and>
       db w' = (db w)\<lparr>video_subtitles := video_subtitles (db w')\<rparr>
   | (Inl _, w') \<Rightarrow> db w' = db w"
proof -
  obtain g w1 where g: "VideoRepo_GetByID E v w = (g, w1)" by fastforce
  have d1: "db w1 = db w" using VideoRepo_GetByID_quiet [OF g] quietD(1) by blast
  obtain res w' where r: "Subtitle_UploadSubtitles E u v en vi w = (res, w')" by fastforce
  consider (fail) "\<exists>e. res = Inl e" "db w' = db w"
    | (replace) video ens vis cues w2 res1 where "g = Inr video" "v_UserID video = u" "parseVTT E en = Inr ens" "ens \<noteq> []"
        "if vi = [] then vis = [] else parseVTT E vi = Inr vis" "pair_cues E ens vis w1 = (cues, w2)"
        "SubtitleRepo_ReplaceCues E v cues w2 = (res1, w')" "isl res1 = isl res"
    using r g d1
    by (auto simp: Subtitle_UploadSubtitles_def split: sum.splits if_splits list.splits prod.splits)
  then show ?thesis
  proof cases
    case fail
    then show ?thesis using r by auto
  next
    case replace
    have p: "map content cues = paired ens vis" and q: "quiet w1 w2" using pair_cues_content [OF replace(6)] by auto
    have d2: "db w2 = db w" using quietD(1) [OF q] d1 by simp
    from VideoRepo_GetByID_Inr [of E v w video w1] g replace(1) obtain r0 where
      r0: "row_at vd_id v (videos (db w)) = Some r0" "video = video_of_row (db w) r0" by blast
    note sp = ReplaceCues_spec [OF replace(7)]
    show ?thesis
    proof (cases res)
      case (Inl e)
      then show ?thesis using r sp replace(8) d2 by (cases res1) auto
    next
      case (Inr x)
      with sp replace(8) d2 obtain rs where rs: "numbered v 0 cues rs"
        "db w' = (db w)\<lparr>video_subtitles := filter (\<lambda>s. sb_video_id s \<noteq> v) (video_subtitles (db w)) @ rs\<rparr>"
        by (cases res1) auto
      note n = numbered_cues [OF rs(1)]
      have f: "filter (\<lambda>s. sb_video_id s = v) rs = rs" "v' \<noteq> v \<Longrightarrow> filter (\<lambda>s. sb_video_id s = v') rs = []" for v'
        using n(2) by (auto simp: filter_id_conv filter_empty_conv)
      have "cues_of v (db w') = map cue_of_row (order_asc sb_seq rs)"
        by (simp add: cues_of_def rs(2) f(1))
      moreover have "cues_of v' (db w') = cues_of v' (db w)" if "v' \<noteq> v" for v'
      proof -
        have "filter (\<lambda>s. sb_video_id s = v') (filter (\<lambda>s. sb_video_id s \<noteq> v) xs) = filter (\<lambda>s. sb_video_id s = v') xs" for xs :: "subtitle_row list"
          using that by (induction xs) auto
        then show ?thesis by (simp add: cues_of_def rs(2) f(2) [OF that] del: filter_filter)
      qed
      moreover have "\<exists>r. row_at vd_id v (videos (db w)) = Some r \<and> vd_user_id r = u"
        using r0 replace(2) by (auto simp: video_of_row_def)
      ultimately show ?thesis
        using r Inr n(1) p replace(3-5) rs(2) by auto
    qed
  qed
qed

theorem upload_subtitles_exact_witness:
  "\<exists>x w'. Subtitle_UploadSubtitles test_env ''u-ann'' ''v'' (render_track sample_track) [] clip_world = (Inr x, w') \<and>
     map content (cues_of ''v'' (db w')) = [(1, 4, ''Hello --> there'', []), (3725, 3729, ''Bye'', [])]"
proof -
  let ?r = "Subtitle_UploadSubtitles test_env ''u-ann'' ''v'' (render_track sample_track) [] clip_world"
  have p: "parseVTT test_env (render_track sample_track) =
     Inr [\<lparr>cue_Start = 1, cue_End = 4, cue_Text = ''Hello --> there''\<rparr>, \<lparr>cue_Start = 3725, cue_End = 3729, cue_Text = ''Bye''\<rparr>]"
    using parse_render_track [OF sample_track_ok] unfolding sample_track_value .
  have ids: "varchar_ok [(64, test_uuid (Suc 0)), (64, ''v'')]" "varchar_ok [(64, test_uuid (Suc (Suc 0))), (64, ''v'')]"
    "test_uuid (Suc (Suc 0)) \<noteq> test_uuid (Suc 0)" "test_uuid (Suc 0) \<noteq> []" "test_uuid (Suc (Suc 0)) \<noteq> []"
    by code_simp+
  have u: "uuid test_env = test_uuid" by (simp add: test_env_def)
  have "\<not> isl (fst ?r)"
    by (simp add: Subtitle_UploadSubtitles_def VideoRepo_GetByID_healthy p NewUUID_def Let_def SubtitleRepo_ReplaceCues_def
        driver_healthy delete_cues_def insert_cue_def clip_world_def clip_def video_of_row_def u ids ann_world_def init_world_def
        empty_db_def sql_delete_def)
  then obtain x w' where r: "?r = (Inr x, w')" using Inr_result by blast
  with upload_subtitles_exact [where E = test_env and u = "''u-ann''" and v = "''v''" and en = "render_track sample_track"
      and vi = "[]" and w = clip_world] p
  show ?thesis by (auto simp: paired_def)
qed

end
