(* ===== verification/Posts.thy ===== *)
theory Posts
  imports VideoUse
begin

text \<open>
  Posts on a channel's wall: the repository \<^verbatim>\<open>internal/repo/persistent/post\<close>, the use case
  \<^verbatim>\<open>internal/usecase/post\<close> and \<^verbatim>\<open>internal/mapper/post.go\<close>.
\<close>

section \<open>Table posts\<close>

definition post_varchar :: "Post \<Rightarrow> bool" where
  "post_varchar p \<longleftrightarrow> varchar_ok [(64, p_ID p), (64, p_UserID p), (128, p_UserName p), (512, p_UserAvatar p), (512, p_ImageURL p)]"

definition insert_post :: "Post \<Rightarrow> stmt" where
  "insert_post p d =
     check (post_varchar p) ''22001''
      (check (p_ID p \<notin> p_ID ` set (posts d)) ''23505'' (Inr (1, d\<lparr>posts := posts d @ [p]\<rparr>)))"

text \<open>\<^verbatim>\<open>post_likes.post_id REFERENCES posts(id) ON DELETE CASCADE\<close>\<close>

definition delete_post :: "string \<Rightarrow> stmt" where
  "delete_post i d =
     Inr (length (filter (\<lambda>p. p_ID p = i) (posts d)),
          d\<lparr>posts := sql_delete (\<lambda>p. p_ID p = i) (posts d),
            post_likes := sql_delete (\<lambda>m. mk_target_id m = i) (post_likes d)\<rparr>)"

definition post_stmts :: "stmt set" where
  "post_stmts = range insert_post \<union> range delete_post"

lemma post_stmtsI [simp, intro]: "insert_post p \<in> post_stmts" "delete_post i \<in> post_stmts"
  by (simp_all add: post_stmts_def)

lemma insert_post_Inr:
  "insert_post p d = Inr (n, d') \<longleftrightarrow>
     post_varchar p \<and> p_ID p \<notin> p_ID ` set (posts d) \<and> n = 1 \<and> d' = d\<lparr>posts := posts d @ [p]\<rparr>"
  by (auto simp: insert_post_def)

interpretation post_table: deletable_table posts p_ID "\<lambda>p. p" insert_post delete_post
  by unfold_locales (auto simp: insert_post_Inr delete_post_def)

text \<open>Keys, lengths, and that a like belongs to a post.\<close>

definition posts_ok :: "db \<Rightarrow> bool" where
  "posts_ok d \<longleftrightarrow> distinct (map p_ID (posts d)) \<and> (\<forall>p \<in> set (posts d). post_varchar p) \<and>
     marks_ok (post_likes d) \<and> (\<forall>m \<in> set (post_likes d). \<exists>p \<in> set (posts d). p_ID p = mk_target_id m)"

lemma post_stmts_ok: "s \<in> post_stmts \<Longrightarrow> posts_ok d \<Longrightarrow> s d = Inr (n, d') \<Longrightarrow> posts_ok d'"
  by (fastforce simp: post_stmts_def posts_ok_def insert_post_Inr delete_post_def distinct_map_delete del_mark_ok)

lemma post_stmts_frame:
  "s \<in> post_stmts \<Longrightarrow> s d = Inr (n, d') \<Longrightarrow> d' = d\<lparr>posts := posts d', post_likes := post_likes d'\<rparr>"
  by (auto simp: post_stmts_def insert_post_Inr delete_post_def)

section \<open>Repository\<close>

definition PostRepo_Store :: "env \<Rightarrow> Post \<Rightarrow> world \<Rightarrow> unit res \<times> world" where
  "PostRepo_Store E p w =
     (case Exec E (insert_post p) w of
        (Inl err, w) \<Rightarrow> (Inl (Errorf ''PostRepo - Store - Exec'' err), w)
      | (Inr _, w) \<Rightarrow> (Inr (), w))"

definition PostRepo_GetByID :: "env \<Rightarrow> string \<Rightarrow> world \<Rightarrow> Post res \<times> world" where
  "PostRepo_GetByID E i w =
     (case QueryRow E (\<lambda>d. Inr (row_at p_ID i (posts d))) w of
        (Inl err, w) \<Rightarrow>
          if errors_Is err ErrNoRows then (Inl ErrPostNotFound, w)
          else (Inl (Errorf ''PostRepo - GetByID - Scan'' err), w)
      | (Inr p, w) \<Rightarrow> (Inr p, w))"

definition wall_posts :: "string \<Rightarrow> db \<Rightarrow> Post list" where
  "wall_posts userID d = order_desc p_CreatedAt (filter (\<lambda>p. p_UserID p = userID) (posts d))"

definition PostRepo_ListByUser :: "env \<Rightarrow> string \<Rightarrow> nat \<Rightarrow> nat \<Rightarrow> world \<Rightarrow> (Post list \<times> int) res \<times> world" where
  "PostRepo_ListByUser E userID limit offset w =
     (case QueryRow E (\<lambda>d. Inr (Some (sql_count (\<lambda>p. p_UserID p = userID) (posts d)))) w of
        (Inl err, w) \<Rightarrow> (Inl (Errorf ''PostRepo - ListByUser - countQuery'' err), w)
      | (Inr n, w) \<Rightarrow>
          (case Query E (\<lambda>d. sql_page limit offset (wall_posts userID d)) w of
             (Inl err, w) \<Rightarrow> (Inl (Errorf ''PostRepo - ListByUser - Query'' err), w)
           | (Inr ps, w) \<Rightarrow> (Inr (ps, n), w)))"

definition PostRepo_Delete :: "env \<Rightarrow> string \<Rightarrow> world \<Rightarrow> unit res \<times> world" where
  "PostRepo_Delete E i w =
     (case Exec E (delete_post i) w of
        (Inl err, w) \<Rightarrow> (Inl (Errorf ''PostRepo - Delete - Exec'' err), w)
      | (Inr _, w) \<Rightarrow> (Inr (), w))"

section \<open>Mapper\<close>

definition ToPostEntity :: "string \<Rightarrow> string \<Rightarrow> string \<Rightarrow> CreatePostRequest \<Rightarrow> string \<Rightarrow> Post" where
  "ToPostEntity userID userName userAvatar req i =
     \<lparr>p_ID = i, p_UserID = userID, p_UserName = userName, p_UserAvatar = userAvatar,
      p_Content = cpr_Content req, p_ImageURL = cpr_ImageURL req, p_CreatedAt = 0, p_UpdatedAt = 0\<rparr>"

definition ToPostResponse :: "Post \<Rightarrow> PostResponse" where
  "ToPostResponse p =
     \<lparr>pr_ID = p_ID p, pr_Author = \<lparr>cr_ID = p_UserID p, cr_Name = p_UserName p, cr_Avatar = p_UserAvatar p\<rparr>,
      pr_Content = p_Content p, pr_ImageURL = p_ImageURL p, pr_LikeCount = 0, pr_IsLiked = False, pr_CreatedAt = p_CreatedAt p\<rparr>"

definition ToPostResponses :: "Post list \<Rightarrow> PostResponse list" where
  "ToPostResponses ps = map ToPostResponse ps"

definition ToPostPageResponse :: "Post list \<Rightarrow> int \<Rightarrow> int \<Rightarrow> int \<Rightarrow> PostResponse PageResponse" where
  "ToPostPageResponse ps totalItems page limit = page_response (ToPostResponses ps) totalItems page limit"

section \<open>Use case\<close>

definition post_like_info :: "env \<Rightarrow> string \<Rightarrow> PostResponse \<Rightarrow> world \<Rightarrow> PostResponse \<times> world" where
  "post_like_info E viewerID p w =
     (case PostLikeRepo_GetLikeCount E (pr_ID p) w of (n, w) \<Rightarrow>
      let p = (case n of Inl _ \<Rightarrow> p | Inr n \<Rightarrow> p\<lparr>pr_LikeCount := n\<rparr>) in
      case PostLikeRepo_IsLikedByUser E (pr_ID p) viewerID w of (l, w) \<Rightarrow>
        (case l of Inl _ \<Rightarrow> p | Inr b \<Rightarrow> p\<lparr>pr_IsLiked := b\<rparr>, w))"

fun post_like_loop :: "env \<Rightarrow> string \<Rightarrow> PostResponse list \<Rightarrow> world \<Rightarrow> PostResponse list \<times> world" where
  "post_like_loop E viewerID [] w = ([], w)"
| "post_like_loop E viewerID (p # ps) w =
     (case post_like_info E viewerID p w of (p, w) \<Rightarrow>
      case post_like_loop E viewerID ps w of (ps, w) \<Rightarrow> (p # ps, w))"

definition Post_withLikeInfo :: "env \<Rightarrow> PostResponse list \<Rightarrow> string \<Rightarrow> world \<Rightarrow> PostResponse list \<times> world" where
  "Post_withLikeInfo E ps viewerID w =
     (if \<not> has_postLikeRepo E then (ps, w) else post_like_loop E viewerID ps w)"

definition new_post_call :: "Post \<Rightarrow> notify_call" where
  "new_post_call p =
     \<lparr>nc_sender_id = p_UserID p, nc_sender_name = p_UserName p, nc_sender_avatar = p_UserAvatar p,
      nc_type = NotificationTypeNewPost, nc_title = p_UserName p @ '' posted an update'', nc_message = p_Content p,
      nc_target_url = ''/channels/'' @ p_UserID p\<rparr>"

definition Post_CreatePost :: "env \<Rightarrow> string \<Rightarrow> string \<Rightarrow> string \<Rightarrow> CreatePostRequest \<Rightarrow> world \<Rightarrow> PostResponse res \<times> world" where
  "Post_CreatePost E userID userName userAvatar req w =
     (case NewUUID E w of (postID, w) \<Rightarrow>
      let p = ToPostEntity userID userName userAvatar req postID in
      case Now E w of (now, w) \<Rightarrow>
      let p = p\<lparr>p_CreatedAt := now, p_UpdatedAt := now\<rparr> in
      (case PostRepo_Store E p w of
         (Inl err, w) \<Rightarrow> (Inl (Errorf ''PostUseCase - CreatePost - Store'' err), w)
       | (Inr _, w) \<Rightarrow>
           let w = (if has_notifUc E then go_notify (new_post_call p) w else w)
           in (Inr (ToPostResponse p), w)))"

definition Post_ListPostsByUser :: "env \<Rightarrow> string \<Rightarrow> string \<Rightarrow> int \<Rightarrow> int \<Rightarrow> world \<Rightarrow> PostResponse PageResponse res \<times> world" where
  "Post_ListPostsByUser E userID viewerID page limit w =
     (let offset = to_uint64 (page_offset page limit) in
      case PostRepo_ListByUser E userID (to_uint64 limit) offset w of
        (Inl err, w) \<Rightarrow> (Inl (Errorf ''PostUseCase - ListPostsByUser'' err), w)
      | (Inr (ps, n), w) \<Rightarrow>
          let pageRes = ToPostPageResponse ps n page limit in
          (case Post_withLikeInfo E (Data pageRes) viewerID w of (ps, w) \<Rightarrow> (Inr (pageRes\<lparr>Data := ps\<rparr>), w)))"

definition Post_TogglePostLike :: "env \<Rightarrow> string \<Rightarrow> string \<Rightarrow> world \<Rightarrow> LikeToggleResponse res \<times> world" where
  "Post_TogglePostLike E postID userID w =
     (case PostLikeRepo_ToggleLike E postID userID w of
        (Inl err, w) \<Rightarrow> (Inl (Errorf ''PostUseCase - TogglePostLike'' err), w)
      | (Inr (liked, n), w) \<Rightarrow> (Inr \<lparr>lt_ID = postID, lt_Liked = liked, lt_TotalLikes = n\<rparr>, w))"

definition Post_DeletePost :: "env \<Rightarrow> string \<Rightarrow> string \<Rightarrow> world \<Rightarrow> unit res \<times> world" where
  "Post_DeletePost E userID postID w =
     (case PostRepo_GetByID E postID w of
        (Inl err, w) \<Rightarrow> (Inl err, w)
      | (Inr p, w) \<Rightarrow>
          if p_UserID p \<noteq> userID then (Inl ErrPostForbidden, w)
          else PostRepo_Delete E postID w)"

section \<open>Effects\<close>

lemma PostRepo_reads_quiet:
  "PostRepo_GetByID E i w = (r1, w') \<Longrightarrow> quiet w w'"
  "PostRepo_ListByUser E u l k w = (r2, w') \<Longrightarrow> quiet w w'"
  by (auto simp: PostRepo_GetByID_def PostRepo_ListByUser_def split: prod.splits sum.splits if_splits dest!: driver_bump)

lemma PostRepo_writes_run:
  "PostRepo_Store E p w = (r, w') \<Longrightarrow> effect post_stmts w w'"
  "PostRepo_Delete E i w = (r, w') \<Longrightarrow> effect post_stmts w w'"
  by (auto simp: PostRepo_Store_def PostRepo_Delete_def split: prod.splits sum.splits intro: Exec_effect)

lemma Post_DeletePost_runs: "Post_DeletePost E u i w = (r, w') \<Longrightarrow> effect post_stmts w w'"
  by (auto simp: Post_DeletePost_def split: prod.splits sum.splits if_splits
      dest!: PostRepo_reads_quiet(1) PostRepo_writes_run(2) intro: quiet_then quiet_effect)

lemma Post_CreatePost_runs: "Post_CreatePost E u n a req w = (r, w') \<Longrightarrow> runs post_stmts (db w) (db w')"
  by (auto simp: Post_CreatePost_def NewUUID_def Now_def Let_def effect_def go_notify_def split: prod.splits sum.splits if_splits
      dest!: PostRepo_writes_run(1))

lemma post_like_info_quiet: "post_like_info E u p w = (p', w') \<Longrightarrow> quiet w w'"
  by (auto simp: post_like_info_def PostLikeRepo_GetLikeCount_def PostLikeRepo_IsLikedByUser_def Let_def
      split: prod.splits sum.splits if_splits dest!: driver_bump)

lemma Post_withLikeInfo_quiet: "Post_withLikeInfo E ps u w = (ps', w') \<Longrightarrow> quiet w w'"
proof -
  have "post_like_loop E u ps w = (ps', w') \<Longrightarrow> quiet w w'" for ps' w'
    by (induction ps arbitrary: w ps' w') (auto split: prod.splits dest!: post_like_info_quiet intro: quiet_trans)
  then show "Post_withLikeInfo E ps u w = (ps', w') \<Longrightarrow> quiet w w'"
    by (auto simp: Post_withLikeInfo_def split: if_splits)
qed

lemma Post_ListPostsByUser_quiet: "Post_ListPostsByUser E u v p l w = (r, w') \<Longrightarrow> quiet w w'"
  by (auto simp: Post_ListPostsByUser_def Let_def
      split: prod.splits sum.splits dest!: PostRepo_reads_quiet Post_withLikeInfo_quiet intro: quiet_trans)

text \<open>The toggle of the repository is the toggle of the use case.\<close>

lemma Post_TogglePostLike_Inr:
  "Post_TogglePostLike E i u w = (Inr r, w') \<longleftrightarrow>
   (\<exists>l n. PostLikeRepo_ToggleLike E i u w = (Inr (l, n), w') \<and> r = \<lparr>lt_ID = i, lt_Liked = l, lt_TotalLikes = n\<rparr>)"
  by (auto simp: Post_TogglePostLike_def split: prod.splits sum.splits)

section \<open>Properties\<close>

text \<open>A created post is one new row of its author, with the content of the request, and starts exactly
  one notification of the followers; when the row cannot be stored nothing changes and nobody is told.\<close>

theorem create_post_exact:
  assumes "has_notifUc E"
  shows "case Post_CreatePost E userID userName userAvatar req w of
       (Inr res, w') \<Rightarrow>
         (\<exists>p. posts (db w') = posts (db w) @ [p] \<and> db w' = (db w)\<lparr>posts := posts (db w')\<rparr> \<and>
            p_ID p = pr_ID res \<and> row_at p_ID (pr_ID res) (posts (db w)) = None \<and> p_UserID p = userID \<and>
            p_Content p = cpr_Content req \<and> p_ImageURL p = cpr_ImageURL req \<and>
            spawned w' = spawned w @ [\<lparr>nc_sender_id = userID, nc_sender_name = userName, nc_sender_avatar = userAvatar,
              nc_type = NotificationTypeNewPost, nc_title = userName @ '' posted an update'', nc_message = cpr_Content req,
              nc_target_url = ''/channels/'' @ userID\<rparr>])
     | (Inl err, w') \<Rightarrow> quiet w w'"
  using assms
  by (auto simp: Post_CreatePost_def PostRepo_Store_def NewUUID_def Now_def Let_def insert_post_Inr row_at_None
      ToPostEntity_def ToPostResponse_def new_post_call_def go_notify_def
      split: prod.splits sum.splits elim!: Exec_cases)

theorem create_post_exact_witness:
  "\<exists>res w'. Post_CreatePost test_env ''u-ann'' ''ann'' [] \<lparr>cpr_Content = ''hi'', cpr_ImageURL = []\<rparr> ann_world = (Inr res, w') \<and>
     length (posts (db w')) = 1 \<and> length (spawned w') = 1"
proof -
  let ?req = "\<lparr>cpr_Content = ''hi'', cpr_ImageURL = []\<rparr>"
  have "\<not> isl (fst (Post_CreatePost test_env ''u-ann'' ''ann'' [] ?req ann_world))" by code_simp
  then obtain res w' where r: "Post_CreatePost test_env ''u-ann'' ''ann'' [] ?req ann_world = (Inr res, w')"
    using Inr_result by blast
  have "has_notifUc test_env" by (simp add: test_env_def)
  from create_post_exact [OF this, where userID = "''u-ann''" and userName = "''ann''" and userAvatar = "[]" and req = ?req
      and w = ann_world] r
  show ?thesis by (auto simp: ann_world_def empty_db_def init_world_def)
qed

text \<open>C38: only its author deletes a post, and the deletion takes away exactly the post and its likes; anyone
  else is refused without effect, and so is the deletion of a post that does not exist.\<close>

theorem delete_post_exact:
  "case Post_DeletePost E userID postID w of
     (Inr _, w') \<Rightarrow>
       (\<exists>p. row_at p_ID postID (posts (db w)) = Some p \<and> p_UserID p = userID) \<and>
       db w' = (db w)\<lparr>posts := filter (\<lambda>p. p_ID p \<noteq> postID) (posts (db w)),
                      post_likes := filter (\<lambda>m. mk_target_id m \<noteq> postID) (post_likes (db w))\<rparr>
   | (Inl err, w') \<Rightarrow> quiet w w' \<and>
       (\<forall>p. healthy E \<and> row_at p_ID postID (posts (db w)) = Some p \<longrightarrow> p_UserID p \<noteq> userID \<and> err = ErrPostForbidden) \<and>
       (healthy E \<and> row_at p_ID postID (posts (db w)) = None \<longrightarrow> err = ErrPostNotFound)"
proof -
  obtain r w1 where g: "PostRepo_GetByID E postID w = (r, w1)" by fastforce
  note q = PostRepo_reads_quiet(1) [OF g]
  have some: "row_at p_ID postID (posts (db w)) = Some p" if "r = Inr p" for p
    using g that by (auto simp: PostRepo_GetByID_def split: prod.splits sum.splits if_splits dest!: QueryRow_InrD)
  have none: "row_at p_ID postID (posts (db w)) = None \<and> e = ErrPostNotFound" if "r = Inl e" "healthy E" for e
    using g that by (auto simp: PostRepo_GetByID_def driver_healthy split: option.splits)
  show ?thesis
  proof (cases r)
    case (Inl e)
    then show ?thesis using g q none by (auto simp: Post_DeletePost_def)
  next
    case (Inr p)
    then show ?thesis
      using g q some quietD(1) [OF q]
      by (auto simp: Post_DeletePost_def PostRepo_Delete_def delete_post_def sql_delete_def Exec_def healthy_def
          split: option.splits)
  qed
qed

definition wall_world :: world where
  "wall_world = ann_world\<lparr>db := empty_db\<lparr>users := [ann], posts := [\<lparr>p_ID = ''p1'', p_UserID = ''u-ann'', p_UserName = ''ann'',
     p_UserAvatar = [], p_Content = ''hi'', p_ImageURL = [], p_CreatedAt = 3, p_UpdatedAt = 3\<rparr>]\<rparr>\<rparr>"

theorem delete_post_exact_witness:
  "\<exists>e w'. Post_DeletePost test_env ''someone'' ''p1'' wall_world = (Inl e, w') \<and> e = ErrPostForbidden \<and> quiet wall_world w'"
proof -
  have "isl (fst (Post_DeletePost test_env ''someone'' ''p1'' wall_world))" by code_simp
  then obtain e w' where r: "Post_DeletePost test_env ''someone'' ''p1'' wall_world = (Inl e, w')"
    by (cases "Post_DeletePost test_env ''someone'' ''p1'' wall_world"; cases "fst (Post_DeletePost test_env ''someone'' ''p1'' wall_world)") auto
  have "\<exists>p. row_at p_ID ''p1'' (posts (db wall_world)) = Some p" by (simp add: wall_world_def)
  with delete_post_exact [where E = test_env and userID = "''someone''" and postID = "''p1''" and w = wall_world] r show ?thesis by auto
qed

end
