(* ===== verification/Notifications.thy ===== *)
theory Notifications
  imports Follows Posts
begin

text \<open>
  Notifications: the repository \<^verbatim>\<open>internal/repo/persistent/notification\<close>, the use case
  \<^verbatim>\<open>internal/usecase/notification\<close> and \<^verbatim>\<open>internal/mapper/notification.go\<close>.  A publication tells every
  follower: one row per follower in the table, and one message into the channels of the followers
  that are connected.
\<close>

section \<open>Table notifications\<close>

definition notif_varchar :: "Notification \<Rightarrow> bool" where
  "notif_varchar n \<longleftrightarrow> varchar_ok [(64, n_ID n), (64, n_UserID n), (64, n_SenderID n), (128, n_SenderName n),
     (512, n_SenderAvatar n), (32, n_Type n), (255, n_Title n), (1000, n_Message n), (512, n_TargetURL n)]"

definition insert_notif :: "Notification \<Rightarrow> stmt" where
  "insert_notif n d =
     check (notif_varchar n) ''22001''
      (check (n_ID n \<notin> n_ID ` set (notifications d)) ''23505''
        (Inr (1, d\<lparr>notifications := notifications d @ [n]\<rparr>)))"

definition read_notifs :: "(Notification \<Rightarrow> bool) \<Rightarrow> stmt" where
  "read_notifs p d =
     Inr (length (filter p (notifications d)),
          d\<lparr>notifications := sql_update p (\<lambda>n. n\<lparr>n_IsRead := True\<rparr>) (notifications d)\<rparr>)"

definition notif_stmts :: "stmt set" where
  "notif_stmts = range insert_notif \<union> range read_notifs"

lemma notif_stmtsI [simp, intro]: "insert_notif n \<in> notif_stmts" "read_notifs p \<in> notif_stmts"
  by (simp_all add: notif_stmts_def)

lemma insert_notif_Inr:
  "insert_notif x d = Inr (n, d') \<longleftrightarrow>
     notif_varchar x \<and> n_ID x \<notin> n_ID ` set (notifications d) \<and> n = 1 \<and> d' = d\<lparr>notifications := notifications d @ [x]\<rparr>"
  by (auto simp: insert_notif_def)

interpretation notif_table: keyed_table notifications n_ID "\<lambda>n. n" insert_notif
  by unfold_locales (auto simp: insert_notif_Inr)

definition notifs_ok :: "db \<Rightarrow> bool" where
  "notifs_ok d \<longleftrightarrow> distinct (map n_ID (notifications d)) \<and> (\<forall>n \<in> set (notifications d). notif_varchar n)"

lemma notif_stmts_ok: "s \<in> notif_stmts \<Longrightarrow> notifs_ok d \<Longrightarrow> s d = Inr (n, d') \<Longrightarrow> notifs_ok d'"
  by (auto simp: notif_stmts_def notifs_ok_def insert_notif_Inr read_notifs_def map_key_sql_update set_sql_update notif_varchar_def)

lemma notif_stmts_frame: "s \<in> notif_stmts \<Longrightarrow> s d = Inr (n, d') \<Longrightarrow> d' = d\<lparr>notifications := notifications d'\<rparr>"
  by (auto simp: notif_stmts_def insert_notif_Inr read_notifs_def)

section \<open>Repository\<close>

definition NotificationRepo_Store :: "env \<Rightarrow> Notification \<Rightarrow> world \<Rightarrow> unit res \<times> world" where
  "NotificationRepo_Store E notif w =
     (case Exec E (insert_notif notif) w of
        (Inl err, w) \<Rightarrow> (Inl (Errorf ''NotificationRepo - Store - Exec'' err), w)
      | (Inr _, w) \<Rightarrow> (Inr (), w))"

definition inbox :: "string \<Rightarrow> db \<Rightarrow> Notification list" where
  "inbox userID d = order_desc n_CreatedAt (filter (\<lambda>n. n_UserID n = userID) (notifications d))"

definition NotificationRepo_ListByUserID :: "env \<Rightarrow> string \<Rightarrow> int \<Rightarrow> int \<Rightarrow> world \<Rightarrow> (Notification list \<times> int) res \<times> world" where
  "NotificationRepo_ListByUserID E userID limit offset w =
     (case QueryRow E (\<lambda>d. Inr (Some (sql_count (\<lambda>n. n_UserID n = userID) (notifications d)))) w of
        (Inl err, w) \<Rightarrow> (Inl (Errorf ''NotificationRepo - ListByUserID - Count QueryRow'' err), w)
      | (Inr n, w) \<Rightarrow>
          if n = 0 then (Inr ([], 0), w)
          else (case Query E (\<lambda>d. sql_page (to_uint64 limit) (to_uint64 offset) (inbox userID d)) w of
             (Inl err, w) \<Rightarrow> (Inl (Errorf ''NotificationRepo - ListByUserID - Query'' err), w)
           | (Inr ns, w) \<Rightarrow> (Inr (ns, n), w)))"

definition NotificationRepo_MarkAsRead :: "env \<Rightarrow> string \<Rightarrow> string \<Rightarrow> world \<Rightarrow> unit res \<times> world" where
  "NotificationRepo_MarkAsRead E i userID w =
     (case Exec E (read_notifs (\<lambda>n. n_ID n = i \<and> n_UserID n = userID)) w of
        (Inl err, w) \<Rightarrow> (Inl (Errorf ''NotificationRepo - MarkAsRead - Exec'' err), w)
      | (Inr _, w) \<Rightarrow> (Inr (), w))"

definition NotificationRepo_MarkAllAsRead :: "env \<Rightarrow> string \<Rightarrow> world \<Rightarrow> unit res \<times> world" where
  "NotificationRepo_MarkAllAsRead E userID w =
     (case Exec E (read_notifs (\<lambda>n. n_UserID n = userID \<and> \<not> n_IsRead n)) w of
        (Inl err, w) \<Rightarrow> (Inl (Errorf ''NotificationRepo - MarkAllAsRead - Exec'' err), w)
      | (Inr _, w) \<Rightarrow> (Inr (), w))"

definition NotificationRepo_CountUnread :: "env \<Rightarrow> string \<Rightarrow> world \<Rightarrow> int res \<times> world" where
  "NotificationRepo_CountUnread E userID w =
     (case QueryRow E (\<lambda>d. Inr (Some (sql_count (\<lambda>n. n_UserID n = userID \<and> \<not> n_IsRead n) (notifications d)))) w of
        (Inl err, w) \<Rightarrow> (Inl (Errorf ''NotificationRepo - CountUnread - QueryRow'' err), w)
      | (Inr n, w) \<Rightarrow> (Inr n, w))"

section \<open>Mapper\<close>

text \<open>
  A Go \<^verbatim>\<open>time.Time\<close> carries its location: the instants that the driver reads from a
  \<^verbatim>\<open>TIMESTAMP WITH TIME ZONE\<close> column are in the local zone of the server, those of \<^verbatim>\<open>time.Now().UTC()\<close>
  in UTC.  \<^term>\<open>off\<close> is the offset of that location in seconds.
\<close>

definition ToNotificationResponse :: "int \<Rightarrow> Notification \<Rightarrow> NotificationResponse" where
  "ToNotificationResponse off n =
     \<lparr>nr_ID = n_ID n, nr_UserID = n_UserID n,
      nr_Sender = \<lparr>cr_ID = n_SenderID n, cr_Name = n_SenderName n, cr_Avatar = n_SenderAvatar n\<rparr>,
      nr_Type = n_Type n, nr_Title = n_Title n, nr_Message = n_Message n, nr_TargetURL = n_TargetURL n,
      nr_IsRead = n_IsRead n, nr_CreatedAt = format_rfc3339 off (n_CreatedAt n)\<rparr>"

definition ToNotificationListResponse :: "int \<Rightarrow> Notification list \<Rightarrow> int \<Rightarrow> int \<Rightarrow> int \<Rightarrow> int \<Rightarrow> NotificationListResponse" where
  "ToNotificationListResponse off notifs totalItems unreadCount page limit =
     \<lparr>nl_Page = page_response (map (ToNotificationResponse off) notifs) totalItems page limit, nl_UnreadCount = unreadCount\<rparr>"

section \<open>Use case\<close>

definition Notification_ListNotifications :: "env \<Rightarrow> string \<Rightarrow> int \<Rightarrow> int \<Rightarrow> world \<Rightarrow> NotificationListResponse res \<times> world" where
  "Notification_ListNotifications E userID page limit w =
     (let offset = page_offset page limit in
      case NotificationRepo_ListByUserID E userID limit offset w of
        (Inl err, w) \<Rightarrow> (Inl (Errorf ''NotificationUseCase - ListNotifications'' err), w)
      | (Inr (notifs, n), w) \<Rightarrow>
          (case NotificationRepo_CountUnread E userID w of (u, w) \<Rightarrow>
             (Inr (ToNotificationListResponse (local_off E) notifs n (or_zero u) page limit), w)))"

definition Notification_MarkAsRead :: "env \<Rightarrow> string \<Rightarrow> string \<Rightarrow> world \<Rightarrow> unit res \<times> world" where
  "Notification_MarkAsRead E i userID w =
     (case NotificationRepo_MarkAsRead E i userID w of
        (Inl err, w) \<Rightarrow> (Inl (Errorf ''NotificationUseCase - MarkAsRead'' err), w)
      | (Inr _, w) \<Rightarrow> (Inr (), w))"

definition Notification_MarkAllAsRead :: "env \<Rightarrow> string \<Rightarrow> world \<Rightarrow> unit res \<times> world" where
  "Notification_MarkAllAsRead E userID w =
     (case NotificationRepo_MarkAllAsRead E userID w of
        (Inl err, w) \<Rightarrow> (Inl (Errorf ''NotificationUseCase - MarkAllAsRead'' err), w)
      | (Inr _, w) \<Rightarrow> (Inr (), w))"

text \<open>The subscriber reads what the relay goroutine takes out of the raw channel, mapped; the relay ends,
  and closes the mapped channel, when the raw channel is closed and drained.\<close>

definition Notification_SubscribeNotifications :: "env \<Rightarrow> string \<Rightarrow> world \<Rightarrow> nat res \<times> world" where
  "Notification_SubscribeNotifications E userID w =
     (if \<not> has_notifHub E then (Inl (NewErr ''notification hub unavailable''), w)
      else case NotificationHub_Subscribe userID (notifHub w) of (ch, h) \<Rightarrow> (Inr ch, w\<lparr>notifHub := h\<rparr>))"

definition relay :: "nat \<Rightarrow> world \<Rightarrow> (NotificationResponse option \<times> world) option" where
  "relay ch w =
     (case heap_recv ch (notif_heap (notifHub w)) of
        None \<Rightarrow> None
      | Some (m, hp) \<Rightarrow>
          Some (map_option (ToNotificationResponse 0) m, w\<lparr>notifHub := (notifHub w)\<lparr>notif_heap := hp\<rparr>\<rparr>))"

definition followerLimit :: int where
  "followerLimit = 1000"

text \<open>The loop over the followers.  A panic in the goroutine is \<^const>\<open>None\<close>.\<close>

fun notify_loop :: "env \<Rightarrow> notify_call \<Rightarrow> time \<Rightarrow> User list \<Rightarrow> world \<Rightarrow> world option" where
  "notify_loop E c now [] w = Some w"
| "notify_loop E c now (follower # fs) w =
     (case NewUUID E w of (i, w) \<Rightarrow>
      let notif = \<lparr>n_ID = i, n_UserID = u_ID follower, n_SenderID = nc_sender_id c, n_SenderName = nc_sender_name c,
            n_SenderAvatar = nc_sender_avatar c, n_Type = nc_type c, n_Title = nc_title c, n_Message = nc_message c,
            n_TargetURL = nc_target_url c, n_IsRead = False, n_CreatedAt = now\<rparr> in
      case NotificationRepo_Store E notif w of (_, w) \<Rightarrow>
      (case (if has_notifHub E then NotificationHub_SendDirect (u_ID follower) notif (notifHub w) else Some (notifHub w)) of
         None \<Rightarrow> None
       | Some h \<Rightarrow> notify_loop E c now fs (w\<lparr>notifHub := h\<rparr>)))"

definition Notification_NotifyFollowers :: "env \<Rightarrow> notify_call \<Rightarrow> world \<Rightarrow> (unit res \<times> world) option" where
  "Notification_NotifyFollowers E c w =
     (if \<not> has_followRepo E then Some (Inr (), w)
      else case FollowRepo_ListFollowers E (nc_sender_id c) followerLimit w of
        (Inl err, w) \<Rightarrow> Some (Inl (Errorf ''NotificationUseCase - NotifyFollowers - ListFollowers'' err), w)
      | (Inr followers, w) \<Rightarrow>
          (case Now E w of (now, w) \<Rightarrow> map_option (\<lambda>w. (Inr (), w)) (notify_loop E c now followers w)))"

text \<open>The scheduler runs the goroutine that was started first.\<close>

definition run_spawned :: "env \<Rightarrow> world \<Rightarrow> world option" where
  "run_spawned E w =
     (case spawned w of
        [] \<Rightarrow> Some w
      | c # cs \<Rightarrow> map_option snd (Notification_NotifyFollowers E c (w\<lparr>spawned := cs\<rparr>)))"

section \<open>Effects\<close>

lemma NotificationRepo_reads_quiet:
  "NotificationRepo_ListByUserID E u l k w = (r1, w') \<Longrightarrow> quiet w w'"
  "NotificationRepo_CountUnread E u w = (r2, w') \<Longrightarrow> quiet w w'"
  by (auto simp: NotificationRepo_ListByUserID_def NotificationRepo_CountUnread_def
      split: prod.splits sum.splits if_splits dest!: driver_bump)

lemma Notification_ListNotifications_quiet: "Notification_ListNotifications E u p l w = (r, w') \<Longrightarrow> quiet w w'"
  by (auto simp: Notification_ListNotifications_def Let_def split: prod.splits sum.splits
      dest!: NotificationRepo_reads_quiet intro: quiet_trans)

lemma NotificationRepo_Store_runs: "NotificationRepo_Store E n w = (r, w') \<Longrightarrow> effect notif_stmts w w'"
  by (auto simp: NotificationRepo_Store_def split: prod.splits sum.splits intro: Exec_effect)

lemma Notification_marks_run:
  "Notification_MarkAsRead E i u w = (r, w') \<Longrightarrow> effect notif_stmts w w'"
  "Notification_MarkAllAsRead E u w = (r, w') \<Longrightarrow> effect notif_stmts w w'"
  by (auto simp: Notification_MarkAsRead_def Notification_MarkAllAsRead_def NotificationRepo_MarkAsRead_def
      NotificationRepo_MarkAllAsRead_def split: prod.splits sum.splits intro: Exec_effect)

section \<open>Telling the followers\<close>

text \<open>The notifications of a call, one per follower; every round of the loop takes two interactions.\<close>

definition note_for :: "notify_call \<Rightarrow> time \<Rightarrow> string \<Rightarrow> User \<Rightarrow> Notification" where
  "note_for c now i f =
     \<lparr>n_ID = i, n_UserID = u_ID f, n_SenderID = nc_sender_id c, n_SenderName = nc_sender_name c,
      n_SenderAvatar = nc_sender_avatar c, n_Type = nc_type c, n_Title = nc_title c, n_Message = nc_message c,
      n_TargetURL = nc_target_url c, n_IsRead = False, n_CreatedAt = now\<rparr>"

fun call_notes :: "env \<Rightarrow> notify_call \<Rightarrow> time \<Rightarrow> nat \<Rightarrow> User list \<Rightarrow> Notification list" where
  "call_notes E c now k [] = []"
| "call_notes E c now k (f # fs) = note_for c now (uuid E k) f # call_notes E c now (k + 2) fs"

lemma call_notes_users [simp]: "map n_UserID (call_notes E c now k fs) = map u_ID fs"
  by (induction fs arbitrary: k) (simp_all add: note_for_def)

lemma call_notes_in: "n \<in> set (call_notes E c now k fs) \<Longrightarrow>
    \<exists>f \<in> set fs. \<exists>j \<in> {k..<k + 2 * length fs}. n = note_for c now (uuid E j) f"
  by (induction fs arbitrary: k) fastforce+

definition addressed :: "Notification list \<Rightarrow> (string \<times> Notification) list" where
  "addressed ns = map (\<lambda>n. (n_UserID n, n)) ns"

lemma sent_to_addressed [simp]: "sent_to u (addressed ns) = filter (\<lambda>n. n_UserID n = u) ns"
  by (induction ns) (simp_all add: addressed_def)

text \<open>Whatever fails underneath, the loop ends without a panic, sends every notification to the hub, and
  writes the database only by statements on its own table.\<close>

lemma Store_keeps: "NotificationRepo_Store E n w = (r, w') \<Longrightarrow>
    tick w' = Suc (tick w) \<and> notifHub w' = notifHub w \<and> spawned w' = spawned w \<and> runs notif_stmts (db w) (db w')"
  using NotificationRepo_Store_runs [of E n w r w'] only_dbD
  by (auto simp: effect_def NotificationRepo_Store_def split: prod.splits sum.splits elim!: Exec_cases intro: runs_step)

lemma notify_loop_total:
  assumes "NotificationHub_inv (notifHub w)"
  shows "\<exists>w'. notify_loop E c now fs w = Some w' \<and> runs notif_stmts (db w) (db w') \<and> spawned w' = spawned w \<and>
     NotificationHub_inv (notifHub w') \<and>
     (has_notifHub E \<longrightarrow> run_bcasts NotificationHub_SendDirect (addressed (call_notes E c now (tick w) fs)) (notifHub w) = Some (notifHub w'))"
  using assms
proof (induction fs arbitrary: w)
  case Nil
  then show ?case by (simp add: addressed_def)
next
  case (Cons f fs)
  let ?n = "note_for c now (uuid E (tick w)) f"
  obtain r w1 where st: "NotificationRepo_Store E ?n (bump w) = (r, w1)" by fastforce
  note k = Store_keeps [OF st]
  obtain h where h: "NotificationHub_SendDirect (u_ID f) ?n (notifHub w) = Some h" "NotificationHub_inv h"
    using NotificationHub_SendDirect_spec [OF Cons.prems] by blast
  let ?h = "if has_notifHub E then h else notifHub w"
  let ?w = "w1\<lparr>notifHub := ?h\<rparr>"
  have "NotificationHub_inv (notifHub ?w)" using h(2) Cons.prems by simp
  from Cons.IH [OF this] obtain w' where w': "notify_loop E c now fs ?w = Some w'" "runs notif_stmts (db ?w) (db w')"
    "spawned w' = spawned ?w" "NotificationHub_inv (notifHub w')"
    "has_notifHub E \<longrightarrow> run_bcasts NotificationHub_SendDirect (addressed (call_notes E c now (tick ?w) fs)) ?h = Some (notifHub w')"
    by auto
  have "notify_loop E c now (f # fs) w = Some w'"
    using st h(1) w'(1) k by (auto simp: NewUUID_def note_for_def [symmetric] split: if_splits)
  moreover have "runs notif_stmts (db w) (db w')" using runs_trans w'(2) k by simp
  ultimately show ?case using w'(3-5) k h(1) by (auto simp: addressed_def note_for_def)
qed

lemma NotifyFollowers_total:
  assumes "NotificationHub_inv (notifHub w)"
  shows "\<exists>r w'. Notification_NotifyFollowers E c w = Some (r, w') \<and> NotificationHub_inv (notifHub w') \<and>
     runs notif_stmts (db w) (db w') \<and> spawned w' = spawned w"
proof -
  obtain r w1 where l: "FollowRepo_ListFollowers E (nc_sender_id c) followerLimit w = (r, w1)" by fastforce
  then have q: "quiet w w1" by (rule FollowRepo_reads_quiet)
  show ?thesis
  proof (cases r)
    case (Inr fs)
    have "NotificationHub_inv (notifHub (bump w1))" using assms quietD [OF q] by simp
    from notify_loop_total [OF this, of E c "clock E (tick w1)" fs] show ?thesis
      using assms l Inr quietD [OF q] by (auto simp: Notification_NotifyFollowers_def Now_def)
  qed (use assms l quietD [OF q] in \<open>auto simp: Notification_NotifyFollowers_def\<close>)
qed

text \<open>With a healthy database, fresh identifiers and values that fit, every notification is stored.\<close>

lemma notify_loop_rows:
  assumes "healthy E" "NotificationHub_inv (notifHub w)" "notify_loop E c now fs w = Some w'"
    and "\<And>n. n \<in> set (call_notes E c now (tick w) fs) \<Longrightarrow> notif_varchar n"
    and "inj_on (uuid E) {tick w..<tick w + 2 * length fs}"
    and "\<And>j. tick w \<le> j \<Longrightarrow> j < tick w + 2 * length fs \<Longrightarrow> uuid E j \<notin> n_ID ` set (notifications (db w))"
  shows "db w' = (db w)\<lparr>notifications := notifications (db w) @ call_notes E c now (tick w) fs\<rparr>"
  using assms(2-)
proof (induction fs arbitrary: w)
  case Nil
  then show ?case by simp
next
  case (Cons f fs)
  let ?n = "note_for c now (uuid E (tick w)) f"
  have id: "n_ID ?n = uuid E (tick w)" by (simp add: note_for_def)
  have "insert_notif ?n (db w) = Inr (1, (db w)\<lparr>notifications := notifications (db w) @ [?n]\<rparr>)"
    using Cons.prems(3) Cons.prems(5) [of "tick w"] id by (simp add: insert_notif_def)
  then have st: "NotificationRepo_Store E ?n (bump w) =
      (Inr (), bump ((bump w)\<lparr>db := (db w)\<lparr>notifications := notifications (db w) @ [?n]\<rparr>\<rparr>))"
    using assms(1) by (simp add: NotificationRepo_Store_def driver_healthy)
  obtain h where h: "NotificationHub_SendDirect (u_ID f) ?n (notifHub w) = Some h" "NotificationHub_inv h"
    using NotificationHub_SendDirect_spec [OF Cons.prems(1)] by blast
  let ?h = "if has_notifHub E then h else notifHub w"
  let ?w = "(bump ((bump w)\<lparr>db := (db w)\<lparr>notifications := notifications (db w) @ [?n]\<rparr>\<rparr>))\<lparr>notifHub := ?h\<rparr>"
  have l: "notify_loop E c now fs ?w = Some w'"
    using Cons.prems(2) st h(1) by (auto simp: NewUUID_def note_for_def [symmetric] bump_def split: if_splits)
  have u: "inj_on (uuid E) {tick w..<tick w + 2 * length (f # fs)}" by (rule Cons.prems(4))
  have ne: "uuid E j \<noteq> uuid E (tick w)" if "tick w < j" "j < tick w + 2 * length (f # fs)" for j
    using inj_onD [OF u, of j "tick w"] that by auto
  have "db w' = (db ?w)\<lparr>notifications := notifications (db ?w) @ call_notes E c now (tick ?w) fs\<rparr>"
  proof (rule Cons.IH [OF _ l])
    show "NotificationHub_inv (notifHub ?w)" using h(2) Cons.prems(1) by simp
    show "notif_varchar n" if "n \<in> set (call_notes E c now (tick ?w) fs)" for n
      using Cons.prems(3) [of n] that by (simp add: bump_def)
    show "inj_on (uuid E) {tick ?w..<tick ?w + 2 * length fs}"
      by (rule inj_on_subset [OF u]) (auto simp: bump_def)
    show "uuid E j \<notin> n_ID ` set (notifications (db ?w))" if "tick ?w \<le> j" "j < tick ?w + 2 * length fs" for j
      using Cons.prems(5) [of j] ne [of j] that id by (auto simp: bump_def)
  qed
  then show ?case by (simp add: bump_def)
qed

text \<open>The followers a call reaches: distinct users, the latest followers first.\<close>

lemma joined_ids:
  "map u_ID (concat (map (\<lambda>f. joined_user d (fl_follower_id f)) fs)) =
   filter (\<lambda>i. row_at u_ID i (users d) \<noteq> None) (map fl_follower_id fs)"
  by (induction fs) (auto simp: joined_user_def split: option.splits dest: row_at_Some)

lemma followers_distinct:
  assumes "follows_ok d"
  shows "distinct (map u_ID (followers_of i d))"
proof -
  let ?fs = "filter (\<lambda>f. fl_channel_id f = i) (follows d)"
  have "inj_on follow_pair (set ?fs)" "distinct ?fs"
    using assms by (auto simp: follows_ok_def distinct_map inj_on_def)
  then have "inj_on fl_follower_id (set ?fs)" by (auto simp: inj_on_def follow_pair_def)
  with \<open>distinct ?fs\<close> have "distinct (map fl_follower_id (order_desc fl_created_at ?fs))"
    by (simp add: distinct_map order_desc_def)
  then show ?thesis by (simp add: followers_of_def joined_ids)
qed

lemma followers_fit:
  assumes "follows_ok d" "u \<in> set (followers_of i d)"
  shows "rune_count (u_ID u) \<le> 64"
proof -
  have "u_ID u \<in> set (map u_ID (followers_of i d))" using assms(2) by simp
  then obtain f where "f \<in> set (follows d)" "fl_follower_id f = u_ID u"
    unfolding followers_of_def joined_ids by auto
  then show ?thesis using assms(1) by (auto simp: follows_ok_def varchar_ok_def)
qed

text \<open>The values of a call fit their columns, and the identifiers of the next interactions are fresh.\<close>

definition call_fits :: "notify_call \<Rightarrow> bool" where
  "call_fits c \<longleftrightarrow> varchar_ok [(64, nc_sender_id c), (128, nc_sender_name c), (512, nc_sender_avatar c), (32, nc_type c),
     (255, nc_title c), (1000, nc_message c), (512, nc_target_url c)]"

definition fresh_ids :: "env \<Rightarrow> world \<Rightarrow> nat \<Rightarrow> bool" where
  "fresh_ids E w n \<longleftrightarrow> distinct (map (uuid E) [tick w..<tick w + n]) \<and>
     (\<forall>j \<in> {tick w..<tick w + n}. rune_count (uuid E j) \<le> 64 \<and> uuid E j \<notin> n_ID ` set (notifications (db w)))"


definition fan_world :: world where
  "fan_world = ann_world\<lparr>tick := 7, db := empty_db\<lparr>users := [ann, ann\<lparr>u_ID := ''u-bob''\<rparr>],
     follows := [\<lparr>fl_follower_id = ''u-bob'', fl_channel_id = ''u-ann'', fl_created_at = 1\<rparr>]\<rparr>,
     notifHub := snd (NotificationHub_Subscribe ''u-bob'' NewNotificationHub)\<rparr>"

definition hi_call :: notify_call where
  "hi_call = \<lparr>nc_sender_id = ''u-ann'', nc_sender_name = ''ann'', nc_sender_avatar = [], nc_type = NotificationTypeNewPost,
     nc_title = ''ann posted an update'', nc_message = ''hi'', nc_target_url = ''/channels/u-ann''\<rparr>"

lemma NewNotificationHub_inv: "NotificationHub_inv NewNotificationHub"
  by (simp add: NotificationHub_inv_def NewNotificationHub_def table_ok_def room_list_def open_ids_def)



definition long_call :: notify_call where
  "long_call = hi_call\<lparr>nc_message := replicate 1500 (CHR ''a'')\<rparr>"


section \<open>Reading\<close>

lemma all_read:
  assumes "n \<in> set (map (\<lambda>n. if n_UserID n = u then n\<lparr>n_IsRead := True\<rparr> else n) ns)" "n_UserID n = u"
  shows "n_IsRead n"
proof -
  from assms(1) obtain m where "n = (if n_UserID m = u then m\<lparr>n_IsRead := True\<rparr> else m)" by (auto simp only: set_map)
  with assms(2) show ?thesis by (cases "n_UserID m = u") simp_all
qed

lemma MarkAll_exact:
  "NotificationRepo_MarkAllAsRead E u w = (Inr x, w') \<Longrightarrow>
   db w' = (db w)\<lparr>notifications := map (\<lambda>n. if n_UserID n = u then n\<lparr>n_IsRead := True\<rparr> else n) (notifications (db w))\<rparr>"
  by (auto simp: NotificationRepo_MarkAllAsRead_def read_notifs_def sql_update_def
      split: prod.splits sum.splits elim!: Exec_cases)

lemma Mark_exact:
  "NotificationRepo_MarkAsRead E i u w = (Inr x, w') \<Longrightarrow>
   db w' = (db w)\<lparr>notifications := map (\<lambda>n. if n_ID n = i \<and> n_UserID n = u then n\<lparr>n_IsRead := True\<rparr> else n) (notifications (db w))\<rparr>"
  by (auto simp: NotificationRepo_MarkAsRead_def read_notifs_def sql_update_def
      split: prod.splits sum.splits elim!: Exec_cases)

lemma ListNotifications_page:
  assumes "healthy E" "1 \<le> page" "small_int page" "small_int limit"
  shows "fst (Notification_ListNotifications E u page limit w) =
     Inr \<lparr>nl_Page = page_response (page_of page limit (map (ToNotificationResponse (local_off E)) (inbox u (db w))))
            (int (length (inbox u (db w)))) page limit,
          nl_UnreadCount = int (length (filter (\<lambda>n. \<not> n_IsRead n) (inbox u (db w))))\<rparr>"
proof -
  have n: "sql_count (\<lambda>n. n_UserID n = u) (notifications (db w)) = int (length (inbox u (db w)))"
    by (simp add: sql_count_def inbox_def)
  have "mset (filter (\<lambda>n. \<not> n_IsRead n) (inbox u (db w))) =
      mset (filter (\<lambda>n. n_UserID n = u \<and> \<not> n_IsRead n) (notifications (db w)))"
    by (simp add: inbox_def order_desc_def) (simp flip: mset_filter add: conj_commute)
  then have m: "sql_count (\<lambda>n. n_UserID n = u \<and> \<not> n_IsRead n) (notifications (db w)) =
      int (length (filter (\<lambda>n. \<not> n_IsRead n) (inbox u (db w))))"
    unfolding sql_count_def by (metis size_mset)
  have e: "inbox u (db w) = [] \<Longrightarrow> page_of page limit (map f (inbox u (db w))) = []" for f by (simp add: page_of_def)
  show ?thesis
    using assms(1) e
    by (auto simp: Notification_ListNotifications_def NotificationRepo_ListByUserID_def NotificationRepo_CountUnread_def
        driver_healthy Let_def sql_page_request [OF assms(2-4)] n m ToNotificationListResponse_def or_zero_def page_of_map)
qed

interpretation inbox_listing: paged_listing "\<lambda>(E, _). healthy E"
  "\<lambda>(E, u, w). map (ToNotificationResponse (local_off E)) (inbox u (db w))"
  "\<lambda>(E, u, w) page limit. fst (Notification_ListNotifications E u page limit w)"
  "\<lambda>p. Data (nl_Page p)" "\<lambda>p. Pagination (nl_Page p)"
  by unfold_locales (auto simp: ListNotifications_page)

text \<open>Marking is exact: marking one notification or all of them as read changes only the read flag, and
  only of notifications of the caller; after all are marked, the list shows no unread one.\<close>

theorem mark_read_exact:
  "(\<forall>x w'. Notification_MarkAsRead E i u w = (Inr x, w') \<longrightarrow>
      db w' = (db w)\<lparr>notifications := map (\<lambda>n. if n_ID n = i \<and> n_UserID n = u then n\<lparr>n_IsRead := True\<rparr> else n) (notifications (db w))\<rparr>) \<and>
   (\<forall>x w'. Notification_MarkAllAsRead E u w = (Inr x, w') \<longrightarrow>
      db w' = (db w)\<lparr>notifications := map (\<lambda>n. if n_UserID n = u then n\<lparr>n_IsRead := True\<rparr> else n) (notifications (db w))\<rparr> \<and>
      (\<forall>limit. healthy E \<and> small_int limit \<longrightarrow>
         (\<exists>p. fst (Notification_ListNotifications E u 1 limit w') = Inr p \<and> nl_UnreadCount p = 0)))"
proof (intro conjI allI impI)
  fix x w'
  assume "Notification_MarkAsRead E i u w = (Inr x, w')"
  then show "db w' = (db w)\<lparr>notifications :=
      map (\<lambda>n. if n_ID n = i \<and> n_UserID n = u then n\<lparr>n_IsRead := True\<rparr> else n) (notifications (db w))\<rparr>"
    by (auto simp: Notification_MarkAsRead_def split: prod.splits sum.splits dest!: Mark_exact)
next
  fix x w'
  assume "Notification_MarkAllAsRead E u w = (Inr x, w')"
  then show d: "db w' = (db w)\<lparr>notifications := map (\<lambda>n. if n_UserID n = u then n\<lparr>n_IsRead := True\<rparr> else n) (notifications (db w))\<rparr>"
    by (auto simp: Notification_MarkAllAsRead_def split: prod.splits sum.splits dest!: MarkAll_exact)
  fix limit
  assume "healthy E \<and> small_int limit"
  moreover have "notifications (db w') = map (\<lambda>n. if n_UserID n = u then n\<lparr>n_IsRead := True\<rparr> else n) (notifications (db w))"
    by (simp add: d)
  then have "n_IsRead n" if "n \<in> set (inbox u (db w'))" for n
    using that by (intro all_read [of n u "notifications (db w)"]) (simp_all only: inbox_def set_order_desc set_filter mem_Collect_eq)
  then have "filter (\<lambda>n. \<not> n_IsRead n) (inbox u (db w')) = []" by (simp add: filter_empty_conv)
  moreover have "small_int 1" by (simp add: small_int_def)
  ultimately show "\<exists>p. fst (Notification_ListNotifications E u 1 limit w') = Inr p \<and> nl_UnreadCount p = 0"
    by (simp add: ListNotifications_page)
qed

theorem mark_read_exact_witness:
  "\<exists>x w'. Notification_MarkAllAsRead test_env ''u-bob'' fan_world = (Inr x, w') \<and>
     (\<exists>p. fst (Notification_ListNotifications test_env ''u-bob'' 1 10 w') = Inr p \<and> nl_UnreadCount p = 0)"
proof -
  have "\<not> isl (fst (Notification_MarkAllAsRead test_env ''u-bob'' fan_world))" by code_simp
  then obtain x w' where r: "Notification_MarkAllAsRead test_env ''u-bob'' fan_world = (Inr x, w')" using Inr_result by blast
  have "small_int 10" by (simp add: small_int_def)
  then have "\<exists>p. fst (Notification_ListNotifications test_env ''u-bob'' 1 10 w') = Inr p \<and> nl_UnreadCount p = 0"
    using conjunct2 [OF mark_read_exact [where E = test_env and u = "''u-bob''" and w = fan_world and i = "[]"]] r
    by (simp add: test_env_healthy)
  with r show ?thesis by blast
qed

end
