(* ===== verification/Rest.thy ===== *)
theory Rest
  imports Recommend StreamLife Words Admin Subtitles Posts Notifications
begin

text \<open>
  The frame of the REST API: requests and replies, the request DTOs with their validation tags
  (\<^verbatim>\<open>restapi/v1/request\<close>), the response DTOs that only handlers build, and the middleware
  (\<^verbatim>\<open>restapi/middleware\<close>).  Fiber is outside the repository: a request carries what the handlers
  ask of \<^verbatim>\<open>fiber.Ctx\<close>, and \<^verbatim>\<open>BodyParser\<close>, one decoder per DTO, is a parameter.
\<close>

section \<open>Requests\<close>

datatype meth = GET | HEAD | POST | PUT | DELETE

text \<open>
  The path is split at its slashes, without a trailing empty segment.  A query parameter, header or
  form value that is missing reads as the empty string.
\<close>

record request =
  rq_method :: meth
  rq_path :: "string list"
  rq_query :: "string \<Rightarrow> string"
  rq_header :: "string \<Rightarrow> string"
  rq_form :: "string \<Rightarrow> string"
  rq_ip :: string
  rq_body :: string

record Register =
  reg_Username :: string
  reg_Email :: string
  reg_Password :: string

record LoginReq =
  log_Email :: string
  log_Password :: string

record UpdateProfile =
  upr_Username :: string
  upr_Email :: string
  upr_Avatar :: string

record TranscodeCallback =
  tc_VideoID :: string
  tc_Status :: string
  tc_HLSMasterURL :: string
  tc_ErrorMessage :: string

record WorkerHeartbeatReq =
  wr_WorkerID :: string
  wr_Status :: string
  wr_CurrentJob :: string
  wr_CPUUsage :: float64
  wr_RAMUsageMB :: float64

record UploadSubtitles =
  us_VTTEnglish :: string
  us_VTTVietnamese :: string

text \<open>
  The decoders (\<^const>\<open>None\<close> is an error of \<^verbatim>\<open>BodyParser\<close>); a DTO with one field is that field.
  Next to them the validator's notion of an e-mail address, the dictionary services, and whether the
  router was given a hub for video events.
\<close>

record rest =
  dec_Register :: "request \<Rightarrow> Register option"
  dec_Login :: "request \<Rightarrow> LoginReq option"
  dec_RefreshToken :: "request \<Rightarrow> string option"
  dec_UpdateProfile :: "request \<Rightarrow> UpdateProfile option"
  dec_SetPreferences :: "request \<Rightarrow> string list option"
  dec_SaveWord :: "request \<Rightarrow> SaveWordRequest option"
  dec_CreateComment :: "request \<Rightarrow> CreateCommentRequest option"
  dec_CreatePost :: "request \<Rightarrow> CreatePostRequest option"
  dec_CreateVideoUpload :: "request \<Rightarrow> CreateVideoUpload option"
  dec_ConfirmUpload :: "request \<Rightarrow> string option"
  dec_UpdateVideo :: "request \<Rightarrow> UpdateVideoReq option"
  dec_UpdateThumbnail :: "request \<Rightarrow> string option"
  dec_TranscodeCallback :: "request \<Rightarrow> TranscodeCallback option"
  dec_UploadSubtitles :: "request \<Rightarrow> UploadSubtitles option"
  dec_WorkerHeartbeat :: "request \<Rightarrow> WorkerHeartbeatReq option"
  dec_UpdateLivestreamInfo :: "request \<Rightarrow> UpdateLivestreamInfo option"
  dec_SendChatMessage :: "request \<Rightarrow> SendChatMessageReq option"
  dec_StreamKeyAuth :: "request \<Rightarrow> string option"
  email_ok :: "string \<Rightarrow> bool"
  dictionary :: lookup_services
  has_hub :: bool

section \<open>Validation\<close>

text \<open>
  \<^verbatim>\<open>r.v.Struct(body)\<close> on each DTO, tag by tag: \<^verbatim>\<open>required\<close> is a non-empty string,
  \<^verbatim>\<open>min\<close> and \<^verbatim>\<open>max\<close> bound the number of characters of a string or the length of a slice.
\<close>

definition runes_in :: "nat \<Rightarrow> nat \<Rightarrow> string \<Rightarrow> bool" where
  "runes_in lo hi s \<longleftrightarrow> lo \<le> rune_count s \<and> rune_count s \<le> hi"

definition valid_Register :: "rest \<Rightarrow> Register \<Rightarrow> bool" where
  "valid_Register C b \<longleftrightarrow>
     reg_Username b \<noteq> [] \<and> runes_in 3 255 (reg_Username b) \<and>
     reg_Email b \<noteq> [] \<and> email_ok C (reg_Email b) \<and>
     reg_Password b \<noteq> [] \<and> 6 \<le> rune_count (reg_Password b)"

definition valid_Login :: "rest \<Rightarrow> LoginReq \<Rightarrow> bool" where
  "valid_Login C b \<longleftrightarrow> log_Email b \<noteq> [] \<and> email_ok C (log_Email b) \<and> log_Password b \<noteq> []"

definition valid_RefreshToken :: "string \<Rightarrow> bool" where
  "valid_RefreshToken t \<longleftrightarrow> t \<noteq> []"

definition valid_SetPreferences :: "string list \<Rightarrow> bool" where
  "valid_SetPreferences cs \<longleftrightarrow> 1 \<le> length cs \<and> length cs \<le> 6 \<and>
     list_all (\<lambda>c. c \<in> set [''Gaming'', ''Music'', ''Science'', ''Travel'', ''Film'', ''Lifestyle'']) cs"

definition valid_CreateComment :: "CreateCommentRequest \<Rightarrow> bool" where
  "valid_CreateComment b \<longleftrightarrow> ccr_Content b \<noteq> [] \<and> runes_in 1 1000 (ccr_Content b)"

definition valid_CreatePost :: "CreatePostRequest \<Rightarrow> bool" where
  "valid_CreatePost b \<longleftrightarrow> cpr_Content b \<noteq> [] \<and> runes_in 1 2000 (cpr_Content b)"

definition valid_CreateVideoUpload :: "CreateVideoUpload \<Rightarrow> bool" where
  "valid_CreateVideoUpload b \<longleftrightarrow>
     cvu_Title b \<noteq> [] \<and> runes_in 3 255 (cvu_Title b) \<and> rune_count (cvu_Description b) \<le> 1000 \<and>
     cvu_FileName b \<noteq> [] \<and>
     (cvu_Visibility b = [] \<or> cvu_Visibility b \<in> set [''public'', ''private'', ''unlisted''])"

definition valid_TranscodeCallback :: "TranscodeCallback \<Rightarrow> bool" where
  "valid_TranscodeCallback b \<longleftrightarrow> tc_VideoID b \<noteq> [] \<and> tc_Status b \<in> set [''complete'', ''failed'']"

definition valid_UploadSubtitles :: "UploadSubtitles \<Rightarrow> bool" where
  "valid_UploadSubtitles b \<longleftrightarrow> us_VTTEnglish b \<noteq> []"

definition valid_WorkerHeartbeat :: "WorkerHeartbeatReq \<Rightarrow> bool" where
  "valid_WorkerHeartbeat b \<longleftrightarrow> wr_WorkerID b \<noteq> [] \<and> wr_Status b \<in> set [''idle'', ''processing'']"

definition valid_UpdateLivestreamInfo :: "UpdateLivestreamInfo \<Rightarrow> bool" where
  "valid_UpdateLivestreamInfo b \<longleftrightarrow> uli_Title b = [] \<or> runes_in 3 255 (uli_Title b)"

section \<open>Replies\<close>

record ChannelDetailsResponse =
  cd_ID :: string
  cd_Username :: string
  cd_Email :: string
  cd_Avatar :: string
  cd_Bio :: string
  cd_SubscribersCount :: int
  cd_IsFollowing :: bool
  cd_TotalVideos :: int
  cd_TotalViews :: int
  cd_CreatedAt :: string

record RecordViewResponse =
  rv_VideoID :: string
  rv_Recorded :: bool
  rv_TotalViews :: int

text \<open>
  What a reply carries: an error with a literal text, with the text of a Go error, or with the text of
  the validator; a middleware's error; a DTO; an opened event stream (its channel); an SRS
  acknowledgement.  \<^verbatim>\<open>NoRoute\<close> stands for the framework's own answer to a request that no route
  takes, \<^verbatim>\<open>Panicked\<close> for its answer to a recovered panic, \<^verbatim>\<open>Unencodable\<close> for its answer when
  \<^verbatim>\<open>ctx.JSON\<close> fails, which it does for a number that is infinite or NaN.
\<close>

datatype payload =
    JErr string
  | JErrOf goerr
  | JInvalid
  | JMiddleware string
  | JUser User
  | JToken string
  | JUserResponse UserResponse
  | JUsers "UserResponse PageResponse"
  | JChannel ChannelDetailsResponse
  | JFollow FollowToggleResponse
  | JCreators "Creator PageResponse"
  | JLike LikeToggleResponse
  | JHeart HeartResponse
  | JSave SaveVideoResponse
  | JVideo VideoResponse
  | JVideos "VideoResponse PageResponse"
  | JUpload UploadUrlResponse
  | JView RecordViewResponse
  | JFeed "RecommendedVideoItem PageResponse"
  | JComment CommentResponse
  | JComments CommentPageResponse
  | JReplies "CommentResponse PageResponse"
  | JPost PostResponse
  | JPosts "PostResponse PageResponse"
  | JNotifications NotificationListResponse
  | JStream LivestreamResponse
  | JStreams "LivestreamResponse PageResponse"
  | JStreamKey StreamKeyResponse
  | JChat ChatMessageResponse
  | JWord string VocabularyResponse
  | JWords "VocabularyResponse list"
  | JDictionary DictionaryLookupResponse
  | JSubtitles "string \<times> SubtitleCueResponse list"
  | JCategories "string list"
  | JDashboard SystemDashboardResponse
  | JWorkers "WorkerStatusResponse list"
  | JSuccess
  | JSuccessMessage string
  | JMessage string
  | JCode nat
  | JEvents nat
  | JStatus
  | NoRoute
  | Panicked
  | Unencodable

type_synonym reply = "nat \<times> payload"

definition errorResponse :: "nat \<Rightarrow> string \<Rightarrow> reply" where
  "errorResponse code msg = (code, JErr msg)"

text \<open>The JSON of \<^verbatim>\<open>entity.User\<close> omits the password hash (\<^verbatim>\<open>json:"-"\<close>).\<close>

definition json_user :: "User \<Rightarrow> User" where
  "json_user u = u\<lparr>u_PasswordHash := []\<rparr>"

text \<open>\<^verbatim>\<open>ctx.Status(200).JSON(x)\<close> of a DTO with floating-point fields.\<close>

definition json_floats :: "float64 list \<Rightarrow> payload \<Rightarrow> reply" where
  "json_floats xs body = (if list_all f_finite xs then (200, body) else (500, Unencodable))"

section \<open>Query parameters\<close>

text \<open>\<^verbatim>\<open>ctx.Query(key, default)\<close> and \<^verbatim>\<open>ctx.QueryInt(key, default)\<close>; \<^verbatim>\<open>n, _ := strconv.Atoi(...)\<close>.\<close>

definition query_or :: "request \<Rightarrow> string \<Rightarrow> string \<Rightarrow> string" where
  "query_or r key dflt = (if rq_query r key = [] then dflt else rq_query r key)"

definition QueryInt :: "request \<Rightarrow> string \<Rightarrow> int \<Rightarrow> int" where
  "QueryInt r key dflt = (case ParseInt (rq_query r key) of NumOk x \<Rightarrow> x | _ \<Rightarrow> dflt)"

definition clamped_page :: "request \<Rightarrow> int" where
  "clamped_page r = (let page = ParseInt_value (query_or r ''page'' ''1'') in if page < 1 then 1 else page)"

definition clamped_limit :: "request \<Rightarrow> int \<Rightarrow> int" where
  "clamped_limit r dflt =
     (let limit = ParseInt_value (query_or r ''limit'' (itoa dflt)) in
      if limit < 1 \<or> limit > 50 then dflt else limit)"

definition capped_limit :: "request \<Rightarrow> int" where
  "capped_limit r = (let limit = QueryInt r ''limit'' 10 in if limit > 50 then 50 else limit)"

lemma clamped_page_ge: "1 \<le> clamped_page r"
  by (simp add: clamped_page_def Let_def)

lemma clamped_limit_in: "1 \<le> dflt \<Longrightarrow> dflt \<le> 50 \<Longrightarrow> 1 \<le> clamped_limit r dflt \<and> clamped_limit r dflt \<le> 50"
  by (auto simp: clamped_limit_def Let_def)

lemma capped_limit_le: "capped_limit r \<le> 50"
  by (simp add: capped_limit_def Let_def)

section \<open>Middleware\<close>

text \<open>
  \<^verbatim>\<open>ctx.Locals("userID")\<close> is an optional string that the authentication sets.  A middleware
  either answers the request or passes it on.
\<close>

definition bearer :: "request \<Rightarrow> string option" where
  "bearer r =
     (case Cut '' '' (rq_header r ''Authorization'') of
        Some (scheme, token) \<Rightarrow> if scheme = ''Bearer'' then Some token else None
      | None \<Rightarrow> None)"

type_synonym passed = "reply + string option"

definition Auth :: "env \<Rightarrow> request \<Rightarrow> world \<Rightarrow> passed \<times> world" where
  "Auth E r w =
     (if rq_header r ''Authorization'' = [] then (Inl (401, JMiddleware ''missing authorization header''), w)
      else case bearer r of
        None \<Rightarrow> (Inl (401, JMiddleware ''invalid authorization header format''), w)
      | Some token \<Rightarrow>
          (case ParseToken E token w of
             (Inl err, w) \<Rightarrow> (Inl (401, JMiddleware ''invalid or expired token''), w)
           | (Inr userID, w) \<Rightarrow> (Inr (Some userID), w)))"

definition OptionalAuth :: "env \<Rightarrow> request \<Rightarrow> string option \<Rightarrow> world \<Rightarrow> passed \<times> world" where
  "OptionalAuth E r uid w =
     (if rq_header r ''Authorization'' = [] then (Inr uid, w)
      else case bearer r of
        None \<Rightarrow> (Inr uid, w)
      | Some token \<Rightarrow>
          (case ParseToken E token w of
             (Inl err, w) \<Rightarrow> (Inr uid, w)
           | (Inr userID, w) \<Rightarrow> (Inr (Some userID), w)))"

definition RequireAdmin :: "env \<Rightarrow> string option \<Rightarrow> world \<Rightarrow> passed \<times> world" where
  "RequireAdmin E uid w =
     (case uid of
        None \<Rightarrow> (Inl (401, JMiddleware ''missing authorization header''), w)
      | Some userID \<Rightarrow>
          if userID = [] then (Inl (401, JMiddleware ''missing authorization header''), w)
          else (case User_GetUser E userID w of
                  (Inl err, w) \<Rightarrow> (Inl (403, JMiddleware ''admin access required''), w)
                | (Inr user, w) \<Rightarrow>
                    if u_Role user \<noteq> UserRoleAdmin then (Inl (403, JMiddleware ''admin access required''), w)
                    else (Inr uid, w)))"

definition getUserID :: "string option \<Rightarrow> string" where
  "getUserID uid = (case uid of None \<Rightarrow> [] | Some u \<Rightarrow> u)"

lemma Auth_quiet: "Auth E r w = (p, w') \<Longrightarrow> quiet w w'"
  by (auto simp: Auth_def split: if_splits option.splits prod.splits sum.splits dest: ParseToken_quiet)

lemma OptionalAuth_quiet: "OptionalAuth E r uid w = (p, w') \<Longrightarrow> quiet w w'"
  by (auto simp: OptionalAuth_def split: if_splits option.splits prod.splits sum.splits dest: ParseToken_quiet)

lemma RequireAdmin_quiet: "RequireAdmin E uid w = (p, w') \<Longrightarrow> quiet w w'"
  by (auto simp: RequireAdmin_def split: if_splits option.splits prod.splits sum.splits dest: User_GetUser_quiet)

end
