(* ===== verification/RestSocial.thy ===== *)
theory RestSocial
  imports Rest
begin

text \<open>
  The handlers of \<^verbatim>\<open>restapi/v1\<close> for accounts, channels, preferences, vocabulary, saved videos,
  likes, history, recommendations, administration, comments, posts and notifications.  A handler
  takes the request, the path parameter \<^verbatim>\<open>:id\<close> where the route has one, and the user that the
  middleware authenticated.
\<close>

section \<open>Accounts\<close>

definition V1_register :: "env \<Rightarrow> rest \<Rightarrow> request \<Rightarrow> world \<Rightarrow> reply \<times> world" where
  "V1_register E C r w =
     (case dec_Register C r of
        None \<Rightarrow> (errorResponse 400 ''invalid request body'', w)
      | Some body \<Rightarrow>
          if \<not> valid_Register C body then (errorResponse 400 ''invalid request body'', w)
          else (case User_Register E (reg_Username body) (reg_Email body) (reg_Password body) w of
                  (Inl err, w) \<Rightarrow>
                    (if errors_Is err ErrUserAlreadyExists then errorResponse 409 ''user already exists''
                     else errorResponse 500 ''internal server error'', w)
                | (Inr user, w) \<Rightarrow> ((201, JUser (json_user user)), w)))"

definition V1_login :: "env \<Rightarrow> rest \<Rightarrow> request \<Rightarrow> world \<Rightarrow> reply \<times> world" where
  "V1_login E C r w =
     (case dec_Login C r of
        None \<Rightarrow> (errorResponse 400 ''invalid request body'', w)
      | Some body \<Rightarrow>
          if \<not> valid_Login C body then (errorResponse 400 ''invalid request body'', w)
          else (case User_Login E (log_Email body) (log_Password body) w of
                  (Inl err, w) \<Rightarrow>
                    (if errors_Is err ErrInvalidCredentials then errorResponse 401 ''invalid credentials''
                     else if errors_Is err ErrUserBanned then (403, JErrOf err)
                     else errorResponse 500 ''internal server error'', w)
                | (Inr token, w) \<Rightarrow> ((200, JToken token), w)))"

definition V1_refreshToken :: "env \<Rightarrow> rest \<Rightarrow> request \<Rightarrow> world \<Rightarrow> reply \<times> world" where
  "V1_refreshToken E C r w =
     (case dec_RefreshToken C r of
        None \<Rightarrow> (errorResponse 400 ''invalid request body'', w)
      | Some body \<Rightarrow>
          if \<not> valid_RefreshToken body then (errorResponse 400 ''invalid request body'', w)
          else (case User_RefreshToken E body w of
                  (Inl err, w) \<Rightarrow>
                    (if errors_Is err ErrInvalidCredentials then errorResponse 401 ''invalid refresh token''
                     else if errors_Is err ErrUserBanned then (403, JErrOf err)
                     else errorResponse 500 ''internal server error'', w)
                | (Inr token, w) \<Rightarrow> ((200, JToken token), w)))"

definition V1_profile :: "env \<Rightarrow> string option \<Rightarrow> world \<Rightarrow> reply \<times> world" where
  "V1_profile E uid w =
     (case uid of
        None \<Rightarrow> (errorResponse 401 ''unauthorized'', w)
      | Some userID \<Rightarrow>
          (case User_GetUser E userID w of
             (Inl err, w) \<Rightarrow>
               (if errors_Is err ErrUserNotFound then errorResponse 404 ''user not found''
                else errorResponse 500 ''internal server error'', w)
           | (Inr user, w) \<Rightarrow> ((200, JUserResponse (ToUserResponse user)), w)))"

definition V1_updateProfile :: "env \<Rightarrow> rest \<Rightarrow> request \<Rightarrow> string option \<Rightarrow> world \<Rightarrow> reply \<times> world" where
  "V1_updateProfile E C r uid w =
     (case uid of
        None \<Rightarrow> (errorResponse 401 ''unauthorized'', w)
      | Some userID \<Rightarrow>
          (case dec_UpdateProfile C r of
             None \<Rightarrow> (errorResponse 400 ''invalid request body'', w)
           | Some body \<Rightarrow>
               (case User_UpdateUser E userID (upr_Username body) (upr_Email body) (upr_Avatar body) w of
                  (Inl err, w) \<Rightarrow>
                    (if errors_Is err ErrUserNotFound then errorResponse 404 ''user not found''
                     else errorResponse 500 ''internal server error'', w)
                | (Inr user, w) \<Rightarrow> ((200, JUserResponse (ToUserResponse user)), w))))"

text \<open>The page and the sum of the views; after an error both are zero.\<close>

definition channel_totals :: "VideoResponse PageResponse res \<Rightarrow> int \<times> int" where
  "channel_totals res =
     (case res of
        Inl err \<Rightarrow> (0, 0)
      | Inr vids \<Rightarrow> (TotalItems (Pagination vids), fold (\<lambda>v totalViews. wrap64 (totalViews + vr_Views v)) (Data vids) 0))"

definition V1_getChannelDetails :: "env \<Rightarrow> string \<Rightarrow> string option \<Rightarrow> world \<Rightarrow> reply \<times> world" where
  "V1_getChannelDetails E identifier uid w =
     (if identifier = [] then (errorResponse 400 ''channel identifier required'', w)
      else (case User_GetUser E identifier w of
        (Inl err, w) \<Rightarrow> (errorResponse 404 ''channel not found'', w)
      | (Inr user, w) \<Rightarrow>
          case Video_ListPublicVideos E (u_ID user) [] [] 1 100 w of (vids, w) \<Rightarrow>
          case Follow_CountFollowers E (u_ID user) w of (subs, w) \<Rightarrow>
          case Follow_IsFollowing E (getUserID uid) (u_ID user) w of (following, w) \<Rightarrow>
            ((200, JChannel
               \<lparr>cd_ID = u_ID user, cd_Username = u_Username user, cd_Email = u_Email user, cd_Avatar = u_Avatar user,
                cd_Bio = ''Verified Content Creator on PipeVid Platform.'',
                cd_SubscribersCount = (case subs of Inl _ \<Rightarrow> 0 | Inr n \<Rightarrow> n),
                cd_IsFollowing = (case following of Inl _ \<Rightarrow> False | Inr b \<Rightarrow> b),
                cd_TotalVideos = fst (channel_totals vids), cd_TotalViews = snd (channel_totals vids),
                cd_CreatedAt = format_date (u_CreatedAt user) @ ''T'' @ format_clock (u_CreatedAt user) @ ''Z''\<rparr>), w)))"

definition V1_toggleFollowChannel :: "env \<Rightarrow> string \<Rightarrow> string option \<Rightarrow> world \<Rightarrow> reply \<times> world" where
  "V1_toggleFollowChannel E channelID uid w =
     (if getUserID uid = [] then (errorResponse 401 ''unauthorized'', w)
      else (case Follow_ToggleFollow E (getUserID uid) channelID w of
        (Inl err, w) \<Rightarrow>
          (if errors_Is err ErrCannotFollowSelf then (400, JErrOf err)
           else errorResponse 500 ''failed to toggle follow'', w)
      | (Inr resDTO, w) \<Rightarrow> ((200, JFollow resDTO), w)))"

definition V1_listFollowedChannels :: "env \<Rightarrow> request \<Rightarrow> string option \<Rightarrow> world \<Rightarrow> reply \<times> world" where
  "V1_listFollowedChannels E r uid w =
     (if getUserID uid = [] then (errorResponse 401 ''unauthorized'', w)
      else (case Follow_ListFollowedChannels E (getUserID uid) (QueryInt r ''page'' 1) (capped_limit r) w of
        (Inl err, w) \<Rightarrow> (errorResponse 500 ''failed to list followed channels'', w)
      | (Inr resDTO, w) \<Rightarrow> ((200, JCreators resDTO), w)))"

section \<open>Preferences, vocabulary\<close>

definition V1_setUserPreferences :: "env \<Rightarrow> rest \<Rightarrow> request \<Rightarrow> string option \<Rightarrow> world \<Rightarrow> reply \<times> world" where
  "V1_setUserPreferences E C r uid w =
     (case dec_SetPreferences C r of
        None \<Rightarrow> (errorResponse 400 ''invalid request body'', w)
      | Some body \<Rightarrow>
          if \<not> valid_SetPreferences body then ((400, JInvalid), w)
          else (case Preference_SetPreferredCategories E (getUserID uid) body w of
                  (Inl err, w) \<Rightarrow> (errorResponse 500 ''failed to save preferences'', w)
                | (Inr _, w) \<Rightarrow> ((200, JSuccess), w)))"

definition V1_getUserPreferences :: "env \<Rightarrow> string option \<Rightarrow> world \<Rightarrow> reply \<times> world" where
  "V1_getUserPreferences E uid w =
     (case Preference_GetPreferredCategories E (getUserID uid) w of
        (Inl err, w) \<Rightarrow> (errorResponse 500 ''failed to load preferences'', w)
      | (Inr categories, w) \<Rightarrow> ((200, JCategories categories), w))"

definition V1_saveWord :: "env \<Rightarrow> rest \<Rightarrow> request \<Rightarrow> string option \<Rightarrow> world \<Rightarrow> reply \<times> world" where
  "V1_saveWord E C r uid w =
     (case uid of
        None \<Rightarrow> (errorResponse 401 ''unauthorized'', w)
      | Some userID \<Rightarrow>
          (case dec_SaveWord C r of
             None \<Rightarrow> (errorResponse 400 ''invalid request body'', w)
           | Some req \<Rightarrow>
               (case Vocabulary_SaveWord E userID req w of
                  (Inl err, w) \<Rightarrow> ((500, JErrOf err), w)
                | (Inr res, w) \<Rightarrow> ((201, JWord ''Word saved to vocabulary notebook'' res), w))))"

definition V1_listWords :: "env \<Rightarrow> string option \<Rightarrow> world \<Rightarrow> reply \<times> world" where
  "V1_listWords E uid w =
     (case uid of
        None \<Rightarrow> (errorResponse 401 ''unauthorized'', w)
      | Some userID \<Rightarrow>
          (case Vocabulary_ListWords E userID w of
             (Inl err, w) \<Rightarrow> ((500, JErrOf err), w)
           | (Inr res, w) \<Rightarrow> ((200, JWords res), w)))"

definition V1_deleteWord :: "env \<Rightarrow> string \<Rightarrow> string option \<Rightarrow> world \<Rightarrow> reply \<times> world" where
  "V1_deleteWord E i uid w =
     (case uid of
        None \<Rightarrow> (errorResponse 401 ''unauthorized'', w)
      | Some userID \<Rightarrow>
          (case Vocabulary_DeleteWord E i userID w of
             (Inl err, w) \<Rightarrow> ((500, JErrOf err), w)
           | (Inr _, w) \<Rightarrow> ((200, JSuccessMessage ''Word deleted successfully''), w)))"

definition V1_lookupDictionary :: "rest \<Rightarrow> request \<Rightarrow> world \<Rightarrow> reply \<times> world" where
  "V1_lookupDictionary C r w =
     (let word = rq_query r ''word'' in
      if word = [] then (errorResponse 400 ''word query parameter required'', w)
      else (case Vocabulary_LookupWord (dictionary C) word of
              Inl err \<Rightarrow> ((500, JErrOf err), w)
            | Inr res \<Rightarrow> ((200, JDictionary res), w)))"

section \<open>Saved videos, likes, history, recommendations\<close>

definition V1_toggleSaveVideo :: "env \<Rightarrow> string \<Rightarrow> string option \<Rightarrow> world \<Rightarrow> reply \<times> world" where
  "V1_toggleSaveVideo E videoID uid w =
     (if videoID = [] then (errorResponse 400 ''video id required'', w)
      else (case SavedVideo_ToggleSaveVideo E (getUserID uid) videoID w of
        (Inl err, w) \<Rightarrow> (errorResponse 500 ''failed to toggle saved video'', w)
      | (Inr resDTO, w) \<Rightarrow> ((200, JSave resDTO), w)))"

definition V1_listSavedVideos :: "env \<Rightarrow> request \<Rightarrow> string option \<Rightarrow> world \<Rightarrow> reply \<times> world" where
  "V1_listSavedVideos E r uid w =
     (case SavedVideo_ListSavedVideos E (getUserID uid) (QueryInt r ''page'' 1) (QueryInt r ''limit'' 10) w of
        (Inl err, w) \<Rightarrow> (errorResponse 500 ''failed to list saved videos'', w)
      | (Inr pageDTO, w) \<Rightarrow> ((200, JVideos pageDTO), w))"

definition V1_toggleLikeVideo :: "env \<Rightarrow> string \<Rightarrow> string option \<Rightarrow> world \<Rightarrow> reply \<times> world" where
  "V1_toggleLikeVideo E videoID uid w =
     (if videoID = [] then (errorResponse 400 ''video id required'', w)
      else (case Like_ToggleLikeVideo E (getUserID uid) videoID w of
        (Inl err, w) \<Rightarrow> (errorResponse 500 ''failed to toggle video like'', w)
      | (Inr resDTO, w) \<Rightarrow> ((200, JLike resDTO), w)))"

definition V1_heartStream :: "env \<Rightarrow> string \<Rightarrow> world \<Rightarrow> reply \<times> world" where
  "V1_heartStream E streamID w =
     (if streamID = [] then (errorResponse 400 ''stream id required'', w)
      else (case Like_HeartStream E streamID w of
        (Inl err, w) \<Rightarrow> (errorResponse 500 ''failed to send stream heart'', w)
      | (Inr resDTO, w) \<Rightarrow> ((200, JHeart resDTO), w)))"

definition V1_getWatchHistory :: "env \<Rightarrow> request \<Rightarrow> string option \<Rightarrow> world \<Rightarrow> reply \<times> world" where
  "V1_getWatchHistory E r uid w =
     (if getUserID uid = [] then (errorResponse 401 ''unauthorized'', w)
      else (case History_ListHistory E (getUserID uid) (QueryInt r ''page'' 1) (capped_limit r) w of
        (Inl err, w) \<Rightarrow> (errorResponse 500 ''failed to load watch history'', w)
      | (Inr resDTO, w) \<Rightarrow> ((200, JVideos resDTO), w)))"

definition V1_getPersonalizedFeed :: "env \<Rightarrow> reclib \<Rightarrow> recmodel \<Rightarrow> request \<Rightarrow> string option \<Rightarrow> world \<Rightarrow> reply \<times> world" where
  "V1_getPersonalizedFeed E L M r uid w =
     (case GetPersonalizedFeed E L M (getUserID uid) (clamped_page r) (clamped_limit r 10) w of
        None \<Rightarrow> ((500, Panicked), w)
      | Some (Inl err, w) \<Rightarrow> (errorResponse 500 ''failed to fetch personalized feed'', w)
      | Some (Inr pageResDTO, w) \<Rightarrow> (json_floats (map ri_PredictedScore (Data pageResDTO)) (JFeed pageResDTO), w))"

section \<open>Administration\<close>

definition V1_getAdminDashboard :: "env \<Rightarrow> world \<Rightarrow> reply \<times> world" where
  "V1_getAdminDashboard E w =
     (case Admin_GetDashboard E w of
        (Inl err, w) \<Rightarrow> (errorResponse 500 ''failed to get dashboard metrics'', w)
      | (Inr dbDTO, w) \<Rightarrow> ((200, JDashboard dbDTO), w))"

definition V1_getAdminWorkers :: "env \<Rightarrow> world \<Rightarrow> reply \<times> world" where
  "V1_getAdminWorkers E w =
     (case Admin_GetWorkersStatus E w of
        (Inl err, w) \<Rightarrow> (errorResponse 500 ''failed to get workers status'', w)
      | (Inr workers, w) \<Rightarrow> ((200, JWorkers workers), w))"

definition V1_banStream :: "env \<Rightarrow> string \<Rightarrow> world \<Rightarrow> reply \<times> world" where
  "V1_banStream E streamID w =
     (case Admin_BanStream E streamID w of
        (Inl err, w) \<Rightarrow> (errorResponse 500 ''failed to ban livestream'', w)
      | (Inr _, w) \<Rightarrow> ((200, JSuccessMessage ''livestream banned successfully''), w))"

definition V1_banVideo :: "env \<Rightarrow> string \<Rightarrow> world \<Rightarrow> reply \<times> world" where
  "V1_banVideo E videoID w =
     (case Admin_BanVideo E videoID w of
        (Inl err, w) \<Rightarrow> (errorResponse 500 ''failed to ban video'', w)
      | (Inr _, w) \<Rightarrow> ((200, JSuccessMessage ''video banned successfully''), w))"

text \<open>The zero value of \<^verbatim>\<open>time.Time\<close>, which the handler leaves in the field it does not set.\<close>

definition zero_time :: time where
  "zero_time = - 62135596800000000"

definition V1_recordWorkerHeartbeat :: "env \<Rightarrow> rest \<Rightarrow> request \<Rightarrow> world \<Rightarrow> reply \<times> world" where
  "V1_recordWorkerHeartbeat E C r w =
     (case dec_WorkerHeartbeat C r of
        None \<Rightarrow> (errorResponse 400 ''invalid request body'', w)
      | Some body \<Rightarrow>
          if \<not> valid_WorkerHeartbeat body then ((400, JInvalid), w)
          else (case Admin_RecordHeartbeat E
                       \<lparr>hb_WorkerID = wr_WorkerID body, hb_Status = wr_Status body, hb_CurrentJob = wr_CurrentJob body,
                        hb_CPUUsage = wr_CPUUsage body, hb_RAMUsageMB = wr_RAMUsageMB body, hb_LastHeartbeat = zero_time\<rparr> w of
                  (Inl err, w) \<Rightarrow> (errorResponse 500 ''failed to record heartbeat'', w)
                | (Inr _, w) \<Rightarrow> ((200, JSuccess), w)))"

definition V1_listAdminUsers :: "env \<Rightarrow> request \<Rightarrow> world \<Rightarrow> reply \<times> world" where
  "V1_listAdminUsers E r w =
     (case Admin_ListUsers E (QueryInt r ''page'' 1) (capped_limit r) w of
        (Inl err, w) \<Rightarrow> (errorResponse 500 ''failed to list users'', w)
      | (Inr pageDTO, w) \<Rightarrow> ((200, JUsers pageDTO), w))"

definition V1_banUser :: "env \<Rightarrow> string \<Rightarrow> world \<Rightarrow> reply \<times> world" where
  "V1_banUser E userID w =
     (case Admin_BanUser E userID w of
        (Inl err, w) \<Rightarrow> (errorResponse 500 ''failed to ban user'', w)
      | (Inr _, w) \<Rightarrow> ((200, JSuccessMessage ''user banned successfully''), w))"

definition V1_unbanUser :: "env \<Rightarrow> string \<Rightarrow> world \<Rightarrow> reply \<times> world" where
  "V1_unbanUser E userID w =
     (case Admin_UnbanUser E userID w of
        (Inl err, w) \<Rightarrow> (errorResponse 500 ''failed to unban user'', w)
      | (Inr _, w) \<Rightarrow> ((200, JSuccessMessage ''user unbanned successfully''), w))"

section \<open>Comments\<close>

text \<open>The name of a commenter: the header of the client, else the last four bytes of the identifier.\<close>

definition comment_user_name :: "request \<Rightarrow> string \<Rightarrow> string" where
  "comment_user_name r userID =
     (let userName = rq_header r ''X-User-Name'' in
      if userName = []
      then (if length userID \<ge> 4 then ''Viewer #'' @ drop (length userID - 4) userID else ''Viewer #'' @ userID)
      else userName)"

definition V1_createComment :: "env \<Rightarrow> rest \<Rightarrow> request \<Rightarrow> string \<Rightarrow> string option \<Rightarrow> world \<Rightarrow> reply \<times> world" where
  "V1_createComment E C r videoID uid w =
     (if videoID = [] then (errorResponse 400 ''video id required'', w)
      else (case dec_CreateComment C r of
        None \<Rightarrow> (errorResponse 400 ''invalid request body'', w)
      | Some body \<Rightarrow>
          if \<not> valid_CreateComment body then ((400, JInvalid), w)
          else (case Comment_CreateComment E videoID (getUserID uid) (comment_user_name r (getUserID uid))
                       (rq_header r ''X-User-Avatar'') body w of
                  (Inl err, w) \<Rightarrow>
                    (if errors_Is err ErrInvalidParentID then (400, JErrOf err)
                     else errorResponse 500 ''failed to post comment'', w)
                | (Inr resDTO, w) \<Rightarrow> ((201, JComment resDTO), w))))"

definition V1_listVideoComments :: "env \<Rightarrow> request \<Rightarrow> string \<Rightarrow> string option \<Rightarrow> world \<Rightarrow> reply \<times> world" where
  "V1_listVideoComments E r videoID uid w =
     (if videoID = [] then (errorResponse 400 ''video id required'', w)
      else (case Comment_ListVideoComments E videoID (getUserID uid) (clamped_page r) (clamped_limit r 10) w of
        (Inl err, w) \<Rightarrow> (errorResponse 500 ''failed to fetch comments'', w)
      | (Inr pageResDTO, w) \<Rightarrow> ((200, JComments pageResDTO), w)))"

definition V1_listCommentReplies :: "env \<Rightarrow> request \<Rightarrow> string \<Rightarrow> string option \<Rightarrow> world \<Rightarrow> reply \<times> world" where
  "V1_listCommentReplies E r parentID uid w =
     (if parentID = [] then (errorResponse 400 ''comment id required'', w)
      else (case Comment_ListReplies E parentID (getUserID uid) (clamped_page r) (clamped_limit r 10) w of
        (Inl err, w) \<Rightarrow> (errorResponse 500 ''failed to fetch replies'', w)
      | (Inr pageResDTO, w) \<Rightarrow> ((200, JReplies pageResDTO), w)))"

definition V1_toggleLikeComment :: "env \<Rightarrow> string \<Rightarrow> string option \<Rightarrow> world \<Rightarrow> reply \<times> world" where
  "V1_toggleLikeComment E commentID uid w =
     (if commentID = [] then (errorResponse 400 ''comment id required'', w)
      else (case Comment_ToggleLikeComment E commentID (getUserID uid) w of
        (Inl err, w) \<Rightarrow> (errorResponse 500 ''failed to toggle comment like'', w)
      | (Inr resDTO, w) \<Rightarrow> ((200, JLike resDTO), w)))"

section \<open>Posts\<close>

definition V1_createPost :: "env \<Rightarrow> rest \<Rightarrow> request \<Rightarrow> string option \<Rightarrow> world \<Rightarrow> reply \<times> world" where
  "V1_createPost E C r uid w =
     (case dec_CreatePost C r of
        None \<Rightarrow> (errorResponse 400 ''invalid request body'', w)
      | Some body \<Rightarrow>
          if \<not> valid_CreatePost body then ((400, JInvalid), w)
          else (case User_GetUser E (getUserID uid) w of (u, w) \<Rightarrow>
            let (userName, userAvatar) = (case u of Inl err \<Rightarrow> (''Viewer'', []) | Inr user \<Rightarrow> (u_Username user, u_Avatar user))
            in (case Post_CreatePost E (getUserID uid) userName userAvatar body w of
                  (Inl err, w) \<Rightarrow> (errorResponse 500 ''failed to create post'', w)
                | (Inr resDTO, w) \<Rightarrow> ((201, JPost resDTO), w))))"

definition V1_listUserPosts :: "env \<Rightarrow> request \<Rightarrow> string \<Rightarrow> string option \<Rightarrow> world \<Rightarrow> reply \<times> world" where
  "V1_listUserPosts E r userID uid w =
     (if userID = [] then (errorResponse 400 ''user id required'', w)
      else (case Post_ListPostsByUser E userID (getUserID uid) (clamped_page r) (clamped_limit r 20) w of
        (Inl err, w) \<Rightarrow> (errorResponse 500 ''failed to fetch posts'', w)
      | (Inr pageResDTO, w) \<Rightarrow> ((200, JPosts pageResDTO), w)))"

definition V1_togglePostLike :: "env \<Rightarrow> string \<Rightarrow> string option \<Rightarrow> world \<Rightarrow> reply \<times> world" where
  "V1_togglePostLike E postID uid w =
     (if postID = [] then (errorResponse 400 ''post id required'', w)
      else (case Post_TogglePostLike E postID (getUserID uid) w of
        (Inl err, w) \<Rightarrow> (errorResponse 500 ''failed to toggle post like'', w)
      | (Inr resDTO, w) \<Rightarrow> ((200, JLike resDTO), w)))"

definition V1_deletePost :: "env \<Rightarrow> string \<Rightarrow> string option \<Rightarrow> world \<Rightarrow> reply \<times> world" where
  "V1_deletePost E postID uid w =
     (if postID = [] then (errorResponse 400 ''post id required'', w)
      else (case Post_DeletePost E (getUserID uid) postID w of
        (Inl err, w) \<Rightarrow>
          (if errors_Is err ErrPostForbidden then (403, JErrOf err)
           else if errors_Is err ErrPostNotFound then (404, JErrOf err)
           else errorResponse 500 ''failed to delete post'', w)
      | (Inr _, w) \<Rightarrow> ((200, JSuccess), w)))"

section \<open>Notifications\<close>

definition V1_listNotifications :: "env \<Rightarrow> request \<Rightarrow> string option \<Rightarrow> world \<Rightarrow> reply \<times> world" where
  "V1_listNotifications E r uid w =
     (case Notification_ListNotifications E (getUserID uid) (QueryInt r ''page'' 1) (QueryInt r ''limit'' 10) w of
        (Inl err, w) \<Rightarrow> (errorResponse 500 ''failed to get notifications'', w)
      | (Inr listDTO, w) \<Rightarrow> ((200, JNotifications listDTO), w))"

definition V1_markNotificationRead :: "env \<Rightarrow> string \<Rightarrow> string option \<Rightarrow> world \<Rightarrow> reply \<times> world" where
  "V1_markNotificationRead E i uid w =
     (case Notification_MarkAsRead E i (getUserID uid) w of
        (Inl err, w) \<Rightarrow> (errorResponse 500 ''failed to mark notification as read'', w)
      | (Inr _, w) \<Rightarrow> ((200, JSuccess), w))"

definition V1_markAllNotificationsRead :: "env \<Rightarrow> string option \<Rightarrow> world \<Rightarrow> reply \<times> world" where
  "V1_markAllNotificationsRead E uid w =
     (case Notification_MarkAllAsRead E (getUserID uid) w of
        (Inl err, w) \<Rightarrow> (errorResponse 500 ''failed to mark all notifications as read'', w)
      | (Inr _, w) \<Rightarrow> ((200, JSuccess), w))"

text \<open>The stream writer then sends whatever its channel receives until the client is gone.\<close>

definition V1_sseNotificationEvents :: "env \<Rightarrow> request \<Rightarrow> string option \<Rightarrow> world \<Rightarrow> reply \<times> world" where
  "V1_sseNotificationEvents E r uid w =
     (let userID = (if getUserID uid = [] then rq_query r ''user_id'' else getUserID uid) in
      case Notification_SubscribeNotifications E userID w of
        (Inl err, w) \<Rightarrow> ((500, JErrOf err), w)
      | (Inr ch, w) \<Rightarrow> ((200, JEvents ch), w))"

end
