(* ===== verification/RestVideo.thy ===== *)
theory RestVideo
  imports Rest
begin

text \<open>The handlers of \<^verbatim>\<open>restapi/v1\<close> for videos, subtitles and livestreams.\<close>

section \<open>Videos\<close>

definition V1_listPublicVideos :: "env \<Rightarrow> request \<Rightarrow> world \<Rightarrow> reply \<times> world" where
  "V1_listPublicVideos E r w =
     (let category = rq_query r ''category'';
          userID = (if rq_query r ''user_id'' = [] then rq_query r ''creator_id'' else rq_query r ''user_id'');
          query = (if rq_query r ''q'' = [] then rq_query r ''query'' else rq_query r ''q'')
      in case Video_ListPublicVideos E userID category query (QueryInt r ''page'' 1) (QueryInt r ''limit'' 10) w of
           (Inl err, w) \<Rightarrow> (errorResponse 500 ''failed to list public videos'', w)
         | (Inr pageDTO, w) \<Rightarrow> ((200, JVideos pageDTO), w))"

definition V1_listTrendingVideos :: "env \<Rightarrow> request \<Rightarrow> string option \<Rightarrow> world \<Rightarrow> reply \<times> world" where
  "V1_listTrendingVideos E r uid w =
     (let window = query_or r ''window'' ''24h'';
          window = (if window \<noteq> ''7d'' then ''24h'' else window)
      in case Video_GetTrending E window (getUserID uid) (QueryInt r ''page'' 1) (QueryInt r ''limit'' 10) w of
           None \<Rightarrow> ((500, Panicked), w)
         | Some (Inl err, w) \<Rightarrow> (errorResponse 500 ''failed to list trending videos'', w)
         | Some (Inr pageDTO, w) \<Rightarrow> ((200, JVideos pageDTO), w))"

definition V1_listReels :: "env \<Rightarrow> request \<Rightarrow> string option \<Rightarrow> world \<Rightarrow> reply \<times> world" where
  "V1_listReels E r uid w =
     (let window = query_or r ''window'' ''7d'';
          window = (if window \<noteq> ''24h'' then ''7d'' else window)
      in case Video_GetReelsFeed E (getUserID uid) window (QueryInt r ''page'' 1) (QueryInt r ''limit'' 10) w of
           None \<Rightarrow> ((500, Panicked), w)
         | Some (Inl err, w) \<Rightarrow> (errorResponse 500 ''failed to list reels'', w)
         | Some (Inr pageDTO, w) \<Rightarrow> ((200, JVideos pageDTO), w))"

definition V1_getVideo :: "env \<Rightarrow> string \<Rightarrow> string option \<Rightarrow> world \<Rightarrow> reply \<times> world" where
  "V1_getVideo E i uid w =
     (case Video_GetByID E i (getUserID uid) w of
        (Inl err, w) \<Rightarrow>
          (if errors_Is err ErrVideoNotFound then errorResponse 404 ''video not found''
           else errorResponse 500 ''internal server error'', w)
      | (Inr resDTO, w) \<Rightarrow> ((200, JVideo resDTO), w))"

definition V1_createVideoUpload :: "env \<Rightarrow> rest \<Rightarrow> request \<Rightarrow> string option \<Rightarrow> world \<Rightarrow> reply \<times> world" where
  "V1_createVideoUpload E C r uid w =
     (case dec_CreateVideoUpload C r of
        None \<Rightarrow> (errorResponse 400 ''invalid request body'', w)
      | Some body \<Rightarrow>
          if \<not> valid_CreateVideoUpload body then ((400, JInvalid), w)
          else (case Video_CreateUpload E (getUserID uid) body w of
                  (Inl err, w) \<Rightarrow>
                    (if errors_Is err ErrUnsupportedVideoFormat then (400, JErrOf err)
                     else errorResponse 500 ''failed to create video upload'', w)
                | (Inr uploadDTO, w) \<Rightarrow> ((201, JUpload uploadDTO), w)))"

definition V1_confirmVideoUpload :: "env \<Rightarrow> rest \<Rightarrow> request \<Rightarrow> string option \<Rightarrow> world \<Rightarrow> reply \<times> world" where
  "V1_confirmVideoUpload E C r uid w =
     (case dec_ConfirmUpload C r of
        None \<Rightarrow> (errorResponse 400 ''invalid request body'', w)
      | Some body \<Rightarrow>
          (case Video_ConfirmUpload E (getUserID uid) body w of
             (Inl err, w) \<Rightarrow> (errorResponse 500 ''failed to confirm upload'', w)
           | (Inr resDTO, w) \<Rightarrow> ((200, JVideo resDTO), w)))"

definition V1_listStudioVideos :: "env \<Rightarrow> request \<Rightarrow> string option \<Rightarrow> world \<Rightarrow> reply \<times> world" where
  "V1_listStudioVideos E r uid w =
     (case Video_ListStudioVideos E (getUserID uid) (rq_query r ''q'') (QueryInt r ''page'' 1) (QueryInt r ''limit'' 10) w of
        (Inl err, w) \<Rightarrow> (errorResponse 500 ''failed to list studio videos'', w)
      | (Inr pageDTO, w) \<Rightarrow> ((200, JVideos pageDTO), w))"

text \<open>The broadcast panics only on a closed channel, which the hub's invariant excludes.\<close>

definition V1_transcodeCallback :: "env \<Rightarrow> rest \<Rightarrow> request \<Rightarrow> world \<Rightarrow> reply \<times> world" where
  "V1_transcodeCallback E C r w =
     (case dec_TranscodeCallback C r of
        None \<Rightarrow> (errorResponse 400 ''invalid payload'', w)
      | Some body \<Rightarrow>
          if \<not> valid_TranscodeCallback body then ((400, JInvalid), w)
          else (case Video_HandleTranscodeCallback E (tc_VideoID body) (tc_Status body) (tc_HLSMasterURL body) w of
                  (Inl err, w) \<Rightarrow> (errorResponse 500 ''failed to update transcode status'', w)
                | (Inr _, w) \<Rightarrow>
                    if has_hub C
                    then (case Hub_Broadcast \<lparr>ve_VideoID = tc_VideoID body, ve_Status = tc_Status body, ve_HLSUrl = tc_HLSMasterURL body\<rparr> (hub w) of
                            None \<Rightarrow> ((500, Panicked), w)
                          | Some h \<Rightarrow> ((200, JMessage ''Transcode status updated successfully''), w\<lparr>hub := h\<rparr>))
                    else ((200, JMessage ''Transcode status updated successfully''), w)))"

definition V1_sseVideoEvents :: "world \<Rightarrow> reply \<times> world" where
  "V1_sseVideoEvents w = (case Hub_Subscribe (hub w) of (ch, h) \<Rightarrow> ((200, JEvents ch), w\<lparr>hub := h\<rparr>))"

definition V1_publishVideo :: "env \<Rightarrow> string \<Rightarrow> string option \<Rightarrow> world \<Rightarrow> reply \<times> world" where
  "V1_publishVideo E i uid w =
     (case Video_PublishVideo E (getUserID uid) i w of
        (Inl err, w) \<Rightarrow> (errorResponse 500 ''failed to publish video'', w)
      | (Inr resDTO, w) \<Rightarrow> ((200, JVideo resDTO), w))"

definition view_client_ip :: "request \<Rightarrow> string" where
  "view_client_ip r =
     (let xff = rq_header r ''X-Forwarded-For'' in if xff \<noteq> [] then hd (Split '','' xff) else rq_ip r)"

definition view_device :: "request \<Rightarrow> string" where
  "view_device r =
     (let deviceID = rq_header r ''X-Device-ID'' in if deviceID = [] then rq_header r ''User-Agent'' else deviceID)"

definition V1_recordVideoView :: "env \<Rightarrow> request \<Rightarrow> string \<Rightarrow> string option \<Rightarrow> world \<Rightarrow> reply \<times> world" where
  "V1_recordVideoView E r videoID uid w =
     (if videoID = [] then (errorResponse 400 ''video id required'', w)
      else (case Video_RecordView E videoID (view_client_ip r) (view_device r) w of
        (Inl err, w) \<Rightarrow> (errorResponse 500 ''failed to record video view'', w)
      | (Inr (recorded, newViews), w) \<Rightarrow>
          let w = (if getUserID uid \<noteq> [] then snd (History_RecordWatch E (getUserID uid) videoID 0 w) else w)
          in ((200, JView \<lparr>rv_VideoID = videoID, rv_Recorded = recorded, rv_TotalViews = newViews\<rparr>), w)))"

definition video_error :: "goerr \<Rightarrow> string \<Rightarrow> reply" where
  "video_error err msg =
     (if errors_Is err ErrVideoForbidden then (403, JErrOf err)
      else if errors_Is err ErrVideoNotFound then (404, JErrOf err)
      else errorResponse 500 msg)"

definition V1_updateVideo :: "env \<Rightarrow> rest \<Rightarrow> request \<Rightarrow> string \<Rightarrow> string option \<Rightarrow> world \<Rightarrow> reply \<times> world" where
  "V1_updateVideo E C r i uid w =
     (case dec_UpdateVideo C r of
        None \<Rightarrow> (errorResponse 400 ''invalid request body'', w)
      | Some body \<Rightarrow>
          (case Video_UpdateVideo E (getUserID uid) i body w of
             (Inl err, w) \<Rightarrow> (video_error err ''failed to update video'', w)
           | (Inr resDTO, w) \<Rightarrow> ((200, JVideo resDTO), w)))"

definition V1_updateThumbnail :: "env \<Rightarrow> rest \<Rightarrow> request \<Rightarrow> string \<Rightarrow> string option \<Rightarrow> world \<Rightarrow> reply \<times> world" where
  "V1_updateThumbnail E C r i uid w =
     (case dec_UpdateThumbnail C r of
        None \<Rightarrow> (errorResponse 400 ''invalid request body'', w)
      | Some body \<Rightarrow>
          (case Video_UpdateThumbnail E (getUserID uid) i body w of
             (Inl err, w) \<Rightarrow> (video_error err ''failed to update thumbnail'', w)
           | (Inr resDTO, w) \<Rightarrow> ((200, JVideo resDTO), w)))"

definition V1_deleteVideo :: "env \<Rightarrow> string \<Rightarrow> string option \<Rightarrow> world \<Rightarrow> reply \<times> world" where
  "V1_deleteVideo E i uid w =
     (case Video_DeleteVideo E (getUserID uid) i w of
        (Inl err, w) \<Rightarrow> (video_error err ''failed to delete video'', w)
      | (Inr _, w) \<Rightarrow> ((200, JMessage ''video deleted successfully''), w))"

definition V1_retryTranscode :: "env \<Rightarrow> string \<Rightarrow> string option \<Rightarrow> world \<Rightarrow> reply \<times> world" where
  "V1_retryTranscode E i uid w =
     (case Video_RetryTranscode E (getUserID uid) i w of
        (Inl err, w) \<Rightarrow>
          (if errors_Is err ErrVideoForbidden then (403, JErrOf err)
           else if errors_Is err ErrVideoNotFound then (404, JErrOf err)
           else if errors_Is err ErrVideoNotFailed then (409, JErrOf err)
           else errorResponse 500 ''failed to retry transcode'', w)
      | (Inr resDTO, w) \<Rightarrow> ((200, JVideo resDTO), w))"

definition V1_getVideoSubtitles :: "env \<Rightarrow> string \<Rightarrow> world \<Rightarrow> reply \<times> world" where
  "V1_getVideoSubtitles E i w =
     (case Subtitle_GetSubtitles E i w of
        (Inl err, w) \<Rightarrow> (errorResponse 500 ''failed to load subtitles'', w)
      | (Inr resDTO, w) \<Rightarrow>
          (json_floats (concat (map (\<lambda>c. [scr_StartSec c, scr_EndSec c]) (snd resDTO))) (JSubtitles resDTO), w))"

definition V1_uploadVideoSubtitles :: "env \<Rightarrow> rest \<Rightarrow> request \<Rightarrow> string \<Rightarrow> string option \<Rightarrow> world \<Rightarrow> reply \<times> world" where
  "V1_uploadVideoSubtitles E C r i uid w =
     (case dec_UploadSubtitles C r of
        None \<Rightarrow> (errorResponse 400 ''invalid request body'', w)
      | Some body \<Rightarrow>
          if \<not> valid_UploadSubtitles body then ((400, JInvalid), w)
          else (case Subtitle_UploadSubtitles E (getUserID uid) i (us_VTTEnglish body) (us_VTTVietnamese body) w of
                  (Inl err, w) \<Rightarrow>
                    (if errors_Is err ErrVideoForbidden then (403, JErrOf err)
                     else if errors_Is err ErrVideoNotFound then (404, JErrOf err)
                     else (400, JErrOf err), w)
                | (Inr _, w) \<Rightarrow> ((200, JSuccess), w)))"

section \<open>Livestreams\<close>

definition V1_listActiveStreams :: "env \<Rightarrow> request \<Rightarrow> world \<Rightarrow> reply \<times> world" where
  "V1_listActiveStreams E r w =
     (case Livestream_ListActiveStreams E (rq_query r ''category'') (QueryInt r ''page'' 1) (QueryInt r ''limit'' 10) w of
        (Inl err, w) \<Rightarrow> (errorResponse 500 ''failed to list active streams'', w)
      | (Inr pageDTO, w) \<Rightarrow> ((200, JStreams pageDTO), w))"

definition V1_getStream :: "env \<Rightarrow> string \<Rightarrow> world \<Rightarrow> reply \<times> world" where
  "V1_getStream E i w =
     (case Livestream_GetStreamByID E i w of
        (Inl err, w) \<Rightarrow>
          (if errors_Is err ErrLivestreamNotFound then errorResponse 404 ''stream not found''
           else errorResponse 500 ''failed to get stream'', w)
      | (Inr resDTO, w) \<Rightarrow> ((200, JStream resDTO), w))"

definition V1_sendChatMessage :: "env \<Rightarrow> rest \<Rightarrow> request \<Rightarrow> string \<Rightarrow> world \<Rightarrow> reply \<times> world" where
  "V1_sendChatMessage E C r i w =
     (case dec_SendChatMessage C r of
        None \<Rightarrow> (errorResponse 400 ''invalid chat payload'', w)
      | Some req \<Rightarrow>
          if scm_Text req = [] then (errorResponse 400 ''text cannot be empty'', w)
          else (case Livestream_SendChatMessage E i req w of
                  (Inl err, w) \<Rightarrow> ((400, JErrOf err), w)
                | (Inr resDTO, w) \<Rightarrow> ((200, JChat resDTO), w)))"

definition V1_sseChatEvents :: "env \<Rightarrow> string \<Rightarrow> world \<Rightarrow> reply \<times> world" where
  "V1_sseChatEvents E streamID w =
     (case Livestream_SubscribeChat E streamID w of
        (Inl err, w) \<Rightarrow> ((500, JErrOf err), w)
      | (Inr ch, w) \<Rightarrow> ((200, JEvents ch), w))"

definition V1_getStreamKey :: "env \<Rightarrow> string option \<Rightarrow> world \<Rightarrow> reply \<times> world" where
  "V1_getStreamKey E uid w =
     (case Livestream_GetStreamKey E (getUserID uid) w of
        (Inl err, w) \<Rightarrow> (errorResponse 500 ''failed to get stream key'', w)
      | (Inr keyDTO, w) \<Rightarrow> ((200, JStreamKey keyDTO), w))"

definition V1_resetStreamKey :: "env \<Rightarrow> string option \<Rightarrow> world \<Rightarrow> reply \<times> world" where
  "V1_resetStreamKey E uid w =
     (case Livestream_ResetStreamKey E (getUserID uid) w of
        (Inl err, w) \<Rightarrow> (errorResponse 500 ''failed to reset stream key'', w)
      | (Inr keyDTO, w) \<Rightarrow> ((200, JStreamKey keyDTO), w))"

definition V1_updateStreamInfo :: "env \<Rightarrow> rest \<Rightarrow> request \<Rightarrow> string option \<Rightarrow> world \<Rightarrow> reply \<times> world" where
  "V1_updateStreamInfo E C r uid w =
     (case dec_UpdateLivestreamInfo C r of
        None \<Rightarrow> (errorResponse 400 ''invalid request body'', w)
      | Some req \<Rightarrow>
          if \<not> valid_UpdateLivestreamInfo req then ((400, JInvalid), w)
          else (case Livestream_UpdateStreamInfo E (getUserID uid) req w of
                  (Inl err, w) \<Rightarrow> (errorResponse 500 ''failed to update stream info'', w)
                | (Inr resDTO, w) \<Rightarrow> ((200, JStream resDTO), w)))"

text \<open>The stream key of an SRS callback: the decoded body, else the form value \<^verbatim>\<open>name\<close>.\<close>

definition hook_key :: "rest \<Rightarrow> request \<Rightarrow> string" where
  "hook_key C r = (case dec_StreamKeyAuth C r of None \<Rightarrow> rq_form r ''name'' | Some key \<Rightarrow> key)"

abbreviation srsHookAccepted :: payload where "srsHookAccepted \<equiv> JCode 0"
abbreviation srsHookRejected :: payload where "srsHookRejected \<equiv> JCode 1"

definition V1_authenticateRTMPStreamKey :: "env \<Rightarrow> rest \<Rightarrow> request \<Rightarrow> world \<Rightarrow> reply \<times> world" where
  "V1_authenticateRTMPStreamKey E C r w =
     (if hook_key C r = [] then ((403, srsHookRejected), w)
      else (case Livestream_AuthenticateStreamKey E (hook_key C r) w of
        (Inl err, w) \<Rightarrow> ((403, srsHookRejected), w)
      | (Inr ok, w) \<Rightarrow> if \<not> ok then ((403, srsHookRejected), w) else ((200, srsHookAccepted), w)))"

definition V1_unpublishRTMPStream :: "env \<Rightarrow> rest \<Rightarrow> request \<Rightarrow> world \<Rightarrow> reply \<times> world" where
  "V1_unpublishRTMPStream E C r w =
     (if hook_key C r = [] then ((200, srsHookAccepted), w)
      else ((200, srsHookAccepted), snd (Livestream_UnpublishStream E (hook_key C r) w)))"

definition V1_handleDVRComplete :: "env \<Rightarrow> rest \<Rightarrow> request \<Rightarrow> world \<Rightarrow> reply \<times> world" where
  "V1_handleDVRComplete E C r w =
     (if hook_key C r = [] then ((200, srsHookAccepted), w)
      else ((200, srsHookAccepted), snd (Livestream_HandleDVRComplete E (hook_key C r) w)))"

end
