(* ===== verification/Router.thy ===== *)
theory Router
  imports RestSocial RestVideo
begin

text \<open>
  The router: \<^verbatim>\<open>restapi/router.go\<close> and \<^verbatim>\<open>restapi/v1/router.go\<close>.  The routes and the
  middleware of the groups are one list, in the order of their registration, which is the order in
  which Fiber tries them.  A request that a middleware answers, or that a route takes, goes no
  further.  CORS, logging, metrics, tracing and the Swagger pages are not in the list.
\<close>

section \<open>Routes\<close>

datatype middleware = M_OptionalAuth | M_Auth | M_RequireAdmin

datatype endpoint =
    H_healthz
  | H_register | H_login | H_refreshToken
  | H_lookupDictionary
  | H_listPublicVideos | H_listTrendingVideos | H_listReels | H_getPersonalizedFeed | H_getVideo
  | H_getVideoSubtitles | H_recordVideoView | H_listVideoComments
  | H_listCommentReplies
  | H_toggleLikeVideo | H_createComment | H_toggleSaveVideo
  | H_toggleLikeComment
  | H_createPost | H_togglePostLike | H_deletePost
  | H_getChannelDetails | H_listUserPosts
  | H_transcodeCallback | H_recordWorkerHeartbeat | H_sseVideoEvents | H_sseChatEvents | H_sseNotificationEvents
  | H_listActiveStreams | H_getStream | H_sendChatMessage | H_heartStream
  | H_authenticateRTMPStreamKey | H_unpublishRTMPStream | H_handleDVRComplete
  | H_saveWord | H_listWords | H_deleteWord
  | H_listNotifications | H_markAllNotificationsRead | H_markNotificationRead
  | H_profile | H_updateProfile | H_getWatchHistory | H_listFollowedChannels
  | H_setUserPreferences | H_getUserPreferences | H_listSavedVideos
  | H_toggleFollowChannel
  | H_listStudioVideos | H_createVideoUpload | H_confirmVideoUpload | H_publishVideo | H_uploadVideoSubtitles
  | H_updateVideo | H_updateThumbnail | H_deleteVideo | H_retryTranscode
  | H_getStreamKey | H_resetStreamKey | H_updateStreamInfo
  | H_getAdminDashboard | H_getAdminWorkers | H_banStream | H_banVideo | H_listAdminUsers | H_banUser | H_unbanUser

datatype layer = Use "string list" middleware | Route meth "string list" endpoint

definition NewRoutes :: "layer list" where
  "NewRoutes =
    [Route POST [''v1'', ''auth'', ''register''] H_register,
     Route POST [''v1'', ''auth'', ''login''] H_login,
     Route POST [''v1'', ''auth'', ''refresh''] H_refreshToken,
     Route GET [''v1'', ''dictionary'', ''lookup''] H_lookupDictionary,
     Use [''v1'', ''videos''] M_OptionalAuth,
     Route GET [''v1'', ''videos''] H_listPublicVideos,
     Route GET [''v1'', ''videos'', ''trending''] H_listTrendingVideos,
     Route GET [''v1'', ''videos'', ''reels''] H_listReels,
     Route GET [''v1'', ''videos'', ''feed'', ''personalized''] H_getPersonalizedFeed,
     Route GET [''v1'', ''videos'', '':id''] H_getVideo,
     Route GET [''v1'', ''videos'', '':id'', ''subtitles''] H_getVideoSubtitles,
     Route POST [''v1'', ''videos'', '':id'', ''views''] H_recordVideoView,
     Route GET [''v1'', ''videos'', '':id'', ''comments''] H_listVideoComments,
     Use [''v1'', ''comments''] M_OptionalAuth,
     Route GET [''v1'', ''comments'', '':id'', ''replies''] H_listCommentReplies,
     Use [''v1'', ''videos''] M_Auth,
     Route POST [''v1'', ''videos'', '':id'', ''like''] H_toggleLikeVideo,
     Route POST [''v1'', ''videos'', '':id'', ''comments''] H_createComment,
     Route POST [''v1'', ''videos'', '':id'', ''save''] H_toggleSaveVideo,
     Use [''v1'', ''comments''] M_Auth,
     Route POST [''v1'', ''comments'', '':id'', ''like''] H_toggleLikeComment,
     Use [''v1'', ''posts''] M_Auth,
     Route POST [''v1'', ''posts''] H_createPost,
     Route POST [''v1'', ''posts'', '':id'', ''like''] H_togglePostLike,
     Route DELETE [''v1'', ''posts'', '':id''] H_deletePost,
     Use [''v1'', ''channels''] M_OptionalAuth,
     Route GET [''v1'', ''channels'', '':id''] H_getChannelDetails,
     Route GET [''v1'', ''channels'', '':id'', ''posts''] H_listUserPosts,
     Route POST [''v1'', ''transcode'', ''callback''] H_transcodeCallback,
     Route POST [''v1'', ''admin'', ''workers'', ''heartbeat''] H_recordWorkerHeartbeat,
     Route GET [''v1'', ''events'', ''videos''] H_sseVideoEvents,
     Route GET [''v1'', ''events'', ''chat'', '':id''] H_sseChatEvents,
     Route GET [''v1'', ''events'', ''notifications''] H_sseNotificationEvents,
     Route GET [''v1'', ''live'', ''streams''] H_listActiveStreams,
     Route GET [''v1'', ''live'', ''streams'', '':id''] H_getStream,
     Route POST [''v1'', ''live'', ''streams'', '':id'', ''chat''] H_sendChatMessage,
     Route POST [''v1'', ''live'', ''streams'', '':id'', ''heart''] H_heartStream,
     Route POST [''v1'', ''live'', ''auth''] H_authenticateRTMPStreamKey,
     Route POST [''v1'', ''live'', ''unpublish''] H_unpublishRTMPStream,
     Route POST [''v1'', ''live'', ''dvr''] H_handleDVRComplete,
     Use [''v1''] M_Auth,
     Route POST [''v1'', ''vocabulary''] H_saveWord,
     Route GET [''v1'', ''vocabulary''] H_listWords,
     Route DELETE [''v1'', ''vocabulary'', '':id''] H_deleteWord,
     Route GET [''v1'', ''notifications''] H_listNotifications,
     Route POST [''v1'', ''notifications'', ''read-all''] H_markAllNotificationsRead,
     Route POST [''v1'', ''notifications'', '':id'', ''read''] H_markNotificationRead,
     Route GET [''v1'', ''user'', ''profile''] H_profile,
     Route PUT [''v1'', ''user'', ''profile''] H_updateProfile,
     Route GET [''v1'', ''user'', ''history''] H_getWatchHistory,
     Route GET [''v1'', ''user'', ''following''] H_listFollowedChannels,
     Route PUT [''v1'', ''user'', ''preferences''] H_setUserPreferences,
     Route GET [''v1'', ''user'', ''preferences''] H_getUserPreferences,
     Route GET [''v1'', ''user'', ''saved''] H_listSavedVideos,
     Route POST [''v1'', ''channels'', '':id'', ''follow''] H_toggleFollowChannel,
     Route GET [''v1'', ''studio'', ''videos''] H_listStudioVideos,
     Route POST [''v1'', ''studio'', ''upload-url''] H_createVideoUpload,
     Route POST [''v1'', ''studio'', ''confirm-upload''] H_confirmVideoUpload,
     Route POST [''v1'', ''studio'', ''videos'', '':id'', ''publish''] H_publishVideo,
     Route POST [''v1'', ''studio'', ''videos'', '':id'', ''subtitles''] H_uploadVideoSubtitles,
     Route PUT [''v1'', ''studio'', ''videos'', '':id''] H_updateVideo,
     Route PUT [''v1'', ''studio'', ''videos'', '':id'', ''thumbnail''] H_updateThumbnail,
     Route DELETE [''v1'', ''studio'', ''videos'', '':id''] H_deleteVideo,
     Route POST [''v1'', ''studio'', ''videos'', '':id'', ''retry''] H_retryTranscode,
     Route GET [''v1'', ''studio'', ''live'', ''key''] H_getStreamKey,
     Route POST [''v1'', ''studio'', ''live'', ''reset-key''] H_resetStreamKey,
     Route PUT [''v1'', ''studio'', ''live'', ''info''] H_updateStreamInfo,
     Use [''v1'', ''admin''] M_RequireAdmin,
     Route GET [''v1'', ''admin'', ''dashboard''] H_getAdminDashboard,
     Route GET [''v1'', ''admin'', ''workers''] H_getAdminWorkers,
     Route POST [''v1'', ''admin'', ''streams'', '':id'', ''ban''] H_banStream,
     Route POST [''v1'', ''admin'', ''videos'', '':id'', ''ban''] H_banVideo,
     Route GET [''v1'', ''admin'', ''users''] H_listAdminUsers,
     Route POST [''v1'', ''admin'', ''users'', '':id'', ''ban''] H_banUser,
     Route POST [''v1'', ''admin'', ''users'', '':id'', ''unban''] H_unbanUser]"

definition NewRouter :: "layer list" where
  "NewRouter = Route GET [''healthz''] H_healthz # NewRoutes"

section \<open>Matching\<close>

text \<open>
  Fiber's documented defaults: paths are compared without regard to case, the parameter \<^verbatim>\<open>:id\<close> takes one
  segment that is not empty, as it stands in the request; a middleware takes every path that its prefix
  begins, also within a segment; a \<^verbatim>\<open>GET\<close> route also takes \<^verbatim>\<open>HEAD\<close>.
\<close>

definition fold_case :: "string \<Rightarrow> string" where
  "fold_case s = map lower_ascii s"

fun match_path :: "string list \<Rightarrow> string list \<Rightarrow> string option" where
  "match_path [] [] = Some []"
| "match_path (p # ps) (s # ss) =
     (case match_path ps ss of
        None \<Rightarrow> None
      | Some i \<Rightarrow> if p = '':id'' then (if s = [] then None else Some s)
                  else if fold_case s = p then Some i else None)"
| "match_path _ _ = None"

fun match_use :: "string list \<Rightarrow> string list \<Rightarrow> bool" where
  "match_use [] ss \<longleftrightarrow> True"
| "match_use [p] (s # ss) \<longleftrightarrow> HasPrefix (fold_case s) p"
| "match_use (p # q # ps) (s # ss) \<longleftrightarrow> fold_case s = p \<and> match_use (q # ps) ss"
| "match_use _ [] \<longleftrightarrow> False"

definition match_meth :: "meth \<Rightarrow> meth \<Rightarrow> bool" where
  "match_meth m rm \<longleftrightarrow> m = rm \<or> (m = GET \<and> rm = HEAD)"

section \<open>Serving a request\<close>

definition run_middleware :: "env \<Rightarrow> middleware \<Rightarrow> request \<Rightarrow> string option \<Rightarrow> world \<Rightarrow> passed \<times> world" where
  "run_middleware E m r uid w =
     (case m of
        M_OptionalAuth \<Rightarrow> OptionalAuth E r uid w
      | M_Auth \<Rightarrow> Auth E r w
      | M_RequireAdmin \<Rightarrow> RequireAdmin E uid w)"

datatype outcome = Answered reply | Reached endpoint string "string option" | Unrouted

fun route :: "env \<Rightarrow> layer list \<Rightarrow> request \<Rightarrow> string option \<Rightarrow> world \<Rightarrow> outcome \<times> world" where
  "route E [] r uid w = (Unrouted, w)"
| "route E (Use p m # ls) r uid w =
     (if match_use p (rq_path r)
      then (case run_middleware E m r uid w of
              (Inl rep, w) \<Rightarrow> (Answered rep, w)
            | (Inr uid', w) \<Rightarrow> route E ls r uid' w)
      else route E ls r uid w)"
| "route E (Route m p ep # ls) r uid w =
     (if match_meth m (rq_method r)
      then (case match_path p (rq_path r) of
              Some i \<Rightarrow> (Reached ep i uid, w)
            | None \<Rightarrow> route E ls r uid w)
      else route E ls r uid w)"

primrec handle :: "env \<Rightarrow> rest \<Rightarrow> reclib \<Rightarrow> recmodel \<Rightarrow> endpoint \<Rightarrow> request \<Rightarrow> string \<Rightarrow> string option \<Rightarrow> world \<Rightarrow> reply \<times> world" where
  "handle E C L M H_healthz r i uid w = ((200, JStatus), w)"
| "handle E C L M H_register r i uid w = V1_register E C r w"
| "handle E C L M H_login r i uid w = V1_login E C r w"
| "handle E C L M H_refreshToken r i uid w = V1_refreshToken E C r w"
| "handle E C L M H_lookupDictionary r i uid w = V1_lookupDictionary C r w"
| "handle E C L M H_listPublicVideos r i uid w = V1_listPublicVideos E r w"
| "handle E C L M H_listTrendingVideos r i uid w = V1_listTrendingVideos E r uid w"
| "handle E C L M H_listReels r i uid w = V1_listReels E r uid w"
| "handle E C L M H_getPersonalizedFeed r i uid w = V1_getPersonalizedFeed E L M r uid w"
| "handle E C L M H_getVideo r i uid w = V1_getVideo E i uid w"
| "handle E C L M H_getVideoSubtitles r i uid w = V1_getVideoSubtitles E i w"
| "handle E C L M H_recordVideoView r i uid w = V1_recordVideoView E r i uid w"
| "handle E C L M H_listVideoComments r i uid w = V1_listVideoComments E r i uid w"
| "handle E C L M H_listCommentReplies r i uid w = V1_listCommentReplies E r i uid w"
| "handle E C L M H_toggleLikeVideo r i uid w = V1_toggleLikeVideo E i uid w"
| "handle E C L M H_createComment r i uid w = V1_createComment E C r i uid w"
| "handle E C L M H_toggleSaveVideo r i uid w = V1_toggleSaveVideo E i uid w"
| "handle E C L M H_toggleLikeComment r i uid w = V1_toggleLikeComment E i uid w"
| "handle E C L M H_createPost r i uid w = V1_createPost E C r uid w"
| "handle E C L M H_togglePostLike r i uid w = V1_togglePostLike E i uid w"
| "handle E C L M H_deletePost r i uid w = V1_deletePost E i uid w"
| "handle E C L M H_getChannelDetails r i uid w = V1_getChannelDetails E i uid w"
| "handle E C L M H_listUserPosts r i uid w = V1_listUserPosts E r i uid w"
| "handle E C L M H_transcodeCallback r i uid w = V1_transcodeCallback E C r w"
| "handle E C L M H_recordWorkerHeartbeat r i uid w = V1_recordWorkerHeartbeat E C r w"
| "handle E C L M H_sseVideoEvents r i uid w = V1_sseVideoEvents w"
| "handle E C L M H_sseChatEvents r i uid w = V1_sseChatEvents E i w"
| "handle E C L M H_sseNotificationEvents r i uid w = V1_sseNotificationEvents E r uid w"
| "handle E C L M H_listActiveStreams r i uid w = V1_listActiveStreams E r w"
| "handle E C L M H_getStream r i uid w = V1_getStream E i w"
| "handle E C L M H_sendChatMessage r i uid w = V1_sendChatMessage E C r i w"
| "handle E C L M H_heartStream r i uid w = V1_heartStream E i w"
| "handle E C L M H_authenticateRTMPStreamKey r i uid w = V1_authenticateRTMPStreamKey E C r w"
| "handle E C L M H_unpublishRTMPStream r i uid w = V1_unpublishRTMPStream E C r w"
| "handle E C L M H_handleDVRComplete r i uid w = V1_handleDVRComplete E C r w"
| "handle E C L M H_saveWord r i uid w = V1_saveWord E C r uid w"
| "handle E C L M H_listWords r i uid w = V1_listWords E uid w"
| "handle E C L M H_deleteWord r i uid w = V1_deleteWord E i uid w"
| "handle E C L M H_listNotifications r i uid w = V1_listNotifications E r uid w"
| "handle E C L M H_markAllNotificationsRead r i uid w = V1_markAllNotificationsRead E uid w"
| "handle E C L M H_markNotificationRead r i uid w = V1_markNotificationRead E i uid w"
| "handle E C L M H_profile r i uid w = V1_profile E uid w"
| "handle E C L M H_updateProfile r i uid w = V1_updateProfile E C r uid w"
| "handle E C L M H_getWatchHistory r i uid w = V1_getWatchHistory E r uid w"
| "handle E C L M H_listFollowedChannels r i uid w = V1_listFollowedChannels E r uid w"
| "handle E C L M H_setUserPreferences r i uid w = V1_setUserPreferences E C r uid w"
| "handle E C L M H_getUserPreferences r i uid w = V1_getUserPreferences E uid w"
| "handle E C L M H_listSavedVideos r i uid w = V1_listSavedVideos E r uid w"
| "handle E C L M H_toggleFollowChannel r i uid w = V1_toggleFollowChannel E i uid w"
| "handle E C L M H_listStudioVideos r i uid w = V1_listStudioVideos E r uid w"
| "handle E C L M H_createVideoUpload r i uid w = V1_createVideoUpload E C r uid w"
| "handle E C L M H_confirmVideoUpload r i uid w = V1_confirmVideoUpload E C r uid w"
| "handle E C L M H_publishVideo r i uid w = V1_publishVideo E i uid w"
| "handle E C L M H_uploadVideoSubtitles r i uid w = V1_uploadVideoSubtitles E C r i uid w"
| "handle E C L M H_updateVideo r i uid w = V1_updateVideo E C r i uid w"
| "handle E C L M H_updateThumbnail r i uid w = V1_updateThumbnail E C r i uid w"
| "handle E C L M H_deleteVideo r i uid w = V1_deleteVideo E i uid w"
| "handle E C L M H_retryTranscode r i uid w = V1_retryTranscode E i uid w"
| "handle E C L M H_getStreamKey r i uid w = V1_getStreamKey E uid w"
| "handle E C L M H_resetStreamKey r i uid w = V1_resetStreamKey E uid w"
| "handle E C L M H_updateStreamInfo r i uid w = V1_updateStreamInfo E C r uid w"
| "handle E C L M H_getAdminDashboard r i uid w = V1_getAdminDashboard E w"
| "handle E C L M H_getAdminWorkers r i uid w = V1_getAdminWorkers E w"
| "handle E C L M H_banStream r i uid w = V1_banStream E i w"
| "handle E C L M H_banVideo r i uid w = V1_banVideo E i w"
| "handle E C L M H_listAdminUsers r i uid w = V1_listAdminUsers E r w"
| "handle E C L M H_banUser r i uid w = V1_banUser E i w"
| "handle E C L M H_unbanUser r i uid w = V1_unbanUser E i w"

text \<open>The answer to a request that nothing takes: 405 when the path has a route for another method.\<close>

definition path_known :: "layer list \<Rightarrow> request \<Rightarrow> bool" where
  "path_known ls r \<longleftrightarrow> list_ex (\<lambda>l. case l of Route m p ep \<Rightarrow> match_path p (rq_path r) \<noteq> None | Use p m \<Rightarrow> False) ls"

definition serve :: "env \<Rightarrow> rest \<Rightarrow> reclib \<Rightarrow> recmodel \<Rightarrow> request \<Rightarrow> world \<Rightarrow> reply \<times> world" where
  "serve E C L M r w =
     (case route E NewRouter r None w of
        (Answered rep, w) \<Rightarrow> (rep, w)
      | (Reached ep i uid, w) \<Rightarrow> handle E C L M ep r i uid w
      | (Unrouted, w) \<Rightarrow> ((if path_known NewRouter r then 405 else 404, NoRoute), w))"


section \<open>Who reaches what\<close>

text \<open>The endpoints whose route stands before every middleware of a kind that covers it.\<close>

definition static_prefix :: "string list \<Rightarrow> string list \<Rightarrow> bool" where
  "static_prefix q p \<longleftrightarrow> take (length q) p = q \<and> '':id'' \<notin> set q"

fun open_for :: "middleware \<Rightarrow> string list list \<Rightarrow> layer list \<Rightarrow> endpoint list" where
  "open_for g ps [] = []"
| "open_for g ps (Use p m # ls) = open_for g (if m = g then p # ps else ps) ls"
| "open_for g ps (Route m p ep # ls) =
     (if list_ex (\<lambda>q. static_prefix q p) ps then open_for g ps ls else ep # open_for g ps ls)"

definition public_endpoints :: "endpoint list" where
  "public_endpoints =
     [H_healthz, H_register, H_login, H_refreshToken, H_lookupDictionary,
      H_listPublicVideos, H_listTrendingVideos, H_listReels, H_getPersonalizedFeed, H_getVideo,
      H_getVideoSubtitles, H_recordVideoView, H_listVideoComments, H_listCommentReplies,
      H_getChannelDetails, H_listUserPosts,
      H_transcodeCallback, H_recordWorkerHeartbeat, H_sseVideoEvents, H_sseChatEvents, H_sseNotificationEvents,
      H_listActiveStreams, H_getStream, H_sendChatMessage, H_heartStream,
      H_authenticateRTMPStreamKey, H_unpublishRTMPStream, H_handleDVRComplete]"

definition admin_endpoints :: "endpoint list" where
  "admin_endpoints =
     [H_getAdminDashboard, H_getAdminWorkers, H_banStream, H_banVideo, H_listAdminUsers, H_banUser, H_unbanUser]"

definition member_endpoints :: "endpoint list" where
  "member_endpoints =
     [H_toggleLikeVideo, H_createComment, H_toggleSaveVideo, H_toggleLikeComment,
      H_createPost, H_togglePostLike, H_deletePost,
      H_saveWord, H_listWords, H_deleteWord,
      H_listNotifications, H_markAllNotificationsRead, H_markNotificationRead,
      H_profile, H_updateProfile, H_getWatchHistory, H_listFollowedChannels,
      H_setUserPreferences, H_getUserPreferences, H_listSavedVideos, H_toggleFollowChannel,
      H_listStudioVideos, H_createVideoUpload, H_confirmVideoUpload, H_publishVideo, H_uploadVideoSubtitles,
      H_updateVideo, H_updateThumbnail, H_deleteVideo, H_retryTranscode,
      H_getStreamKey, H_resetStreamKey, H_updateStreamInfo]"

lemma open_for_Auth: "open_for M_Auth [] NewRouter = public_endpoints"
  by (simp add: NewRouter_def NewRoutes_def static_prefix_def public_endpoints_def)

lemma open_for_RequireAdmin: "set (open_for M_RequireAdmin [] NewRouter) = set public_endpoints \<union> set member_endpoints"
  by (simp add: NewRouter_def NewRoutes_def static_prefix_def public_endpoints_def member_endpoints_def) blast

lemma every_endpoint: "ep \<in> set public_endpoints \<or> ep \<in> set member_endpoints \<or> ep \<in> set admin_endpoints"
  by (cases ep) (simp_all add: public_endpoints_def member_endpoints_def admin_endpoints_def)

lemma static_prefix_match: "static_prefix q p \<Longrightarrow> match_path p ss = Some i \<Longrightarrow> match_use q ss"
proof (induction q ss arbitrary: p i rule: match_use.induct)
  case (2 a s ss)
  then show ?case by (cases p) (auto simp: static_prefix_def HasPrefix_def split: option.splits if_splits)
next
  case (3 a b qs s ss)
  then obtain ps where p: "p = a # ps" "take (length (b # qs)) ps = b # qs" "a \<noteq> '':id''" "'':id'' \<notin> set (b # qs)"
    by (cases p) (auto simp: static_prefix_def)
  then obtain j where "match_path ps ss = Some j" "fold_case s = a"
    using "3.prems"(2) by (auto split: option.splits if_splits)
  then show ?case using "3.IH" p by (auto simp: static_prefix_def)
next
  case (4 a qs)
  then show ?case by (cases p) (auto simp: static_prefix_def)
qed simp

text \<open>The user of the request's token, at some instant of its processing.\<close>

definition token_user :: "env \<Rightarrow> request \<Rightarrow> world \<Rightarrow> string \<Rightarrow> bool" where
  "token_user E r w u \<longleftrightarrow> (\<exists>w1 w2. quiet w w1 \<and> Auth E r w1 = (Inr (Some u), w2))"

definition admin_user :: "env \<Rightarrow> string \<Rightarrow> db \<Rightarrow> bool" where
  "admin_user E u d \<longleftrightarrow> (\<exists>x \<in> set (users d). u_Role x = UserRoleAdmin \<and> (u_ID x = canon_id E u \<or> u_Username x = u))"

definition admin_request :: "env \<Rightarrow> request \<Rightarrow> world \<Rightarrow> string \<Rightarrow> bool" where
  "admin_request E r w u \<longleftrightarrow> token_user E r w u \<and> admin_user E u (db w)"

lemma OptionalAuth_user:
  assumes "OptionalAuth E r uid w1 = (Inr uid', w2)" "quiet w w1"
  shows "uid' = uid \<or> (\<exists>u. uid' = Some u \<and> token_user E r w u)"
proof (cases "uid' = uid")
  case False
  then obtain t u where "bearer r = Some t" "rq_header r ''Authorization'' \<noteq> []" "ParseToken E t w1 = (Inr u, w2)" "uid' = Some u"
    using assms(1) by (auto simp: OptionalAuth_def split: if_splits option.splits prod.splits sum.splits)
  then have "Auth E r w1 = (Inr (Some u), w2)" by (simp add: Auth_def)
  then show ?thesis using assms(2) \<open>uid' = Some u\<close> unfolding token_user_def by blast
qed simp

lemma Auth_user:
  assumes "Auth E r w1 = (Inr uid', w2)" "quiet w w1"
  shows "\<exists>u. uid' = Some u \<and> token_user E r w u"
proof -
  have "\<exists>u. uid' = Some u" using assms(1) by (auto simp: Auth_def split: if_splits option.splits prod.splits sum.splits)
  then show ?thesis using assms unfolding token_user_def by blast
qed

lemma GetUser_row:
  assumes "User_GetUser E u w = (Inr x, w')"
  shows "x \<in> set (users (db w)) \<and> (u_ID x = canon_id E u \<or> u_Username x = u)"
proof (cases "UserRepo_GetByID E u w")
  case (Pair res w1)
  show ?thesis
  proof (cases res)
    case (Inr y)
    then have "x = y" using assms Pair by (simp add: User_GetUser_def)
    moreover have "select_user E Col_id u (db w) = Inr (Some y)"
      using Pair Inr UserRepo_getUser_Inr by (simp add: UserRepo_GetByID_def)
    ultimately show ?thesis by (auto simp: select_user_def canon_id_def dest: row_at_Some split: option.splits)
  next
    case (Inl e)
    have "db w1 = db w" using Pair UserRepo_getUser_quiet quietD(1) by (fastforce simp: UserRepo_GetByID_def)
    moreover have "UserRepo_GetByUsername E u w1 = (Inr x, w')"
      using assms Pair Inl by (auto simp: User_GetUser_def split: prod.splits sum.splits)
    ultimately have "row_at u_Username u (users (db w)) = Some x"
      using UserRepo_getUser_Inr [of E Col_username u w1 x w'] by (simp add: UserRepo_GetByUsername_def select_user_def)
    then show ?thesis by (auto dest: row_at_Some)
  qed
qed

lemma RequireAdmin_user:
  assumes "RequireAdmin E uid w1 = (Inr uid', w2)"
  shows "uid' = uid \<and> (\<exists>u. uid = Some u \<and> admin_user E u (db w1))"
  using assms unfolding admin_user_def
  by (auto simp: RequireAdmin_def split: option.splits if_splits prod.splits sum.splits dest!: GetUser_row)

lemma middleware_blocks:
  assumes "run_middleware E m r uid w = (Inl rep, w')"
  shows "fst rep = 401 \<or> fst rep = 403"
  using assms by (cases m)
    (auto simp: run_middleware_def Auth_def OptionalAuth_def RequireAdmin_def split: if_splits option.splits prod.splits sum.splits)

lemma middleware_quiet: "run_middleware E m r uid w = (p, w') \<Longrightarrow> quiet w w'"
  by (cases m) (auto simp: run_middleware_def dest: Auth_quiet OptionalAuth_quiet RequireAdmin_quiet)

text \<open>What is known when the rest of the list is tried: the user is that of the token, and a middleware
  that covered the path has passed.\<close>

definition known :: "env \<Rightarrow> request \<Rightarrow> world \<Rightarrow> string list list \<Rightarrow> string list list \<Rightarrow> string option \<Rightarrow> bool" where
  "known E r w pa pd uid \<longleftrightarrow>
     (uid = None \<or> (\<exists>u. uid = Some u \<and> token_user E r w u)) \<and>
     (list_ex (\<lambda>q. match_use q (rq_path r)) pa \<longrightarrow> uid \<noteq> None) \<and>
     (list_ex (\<lambda>q. match_use q (rq_path r)) pd \<longrightarrow> (\<exists>u. admin_request E r w u))"

lemma middleware_known:
  assumes "run_middleware E m r uid w1 = (Inr uid', w2)" "quiet w w1" "known E r w pa pd uid"
  shows "known E r w (if m = M_Auth then p # pa else pa) (if m = M_RequireAdmin then p # pd else pd) uid'"
proof (cases m)
  case M_OptionalAuth
  then show ?thesis
    using assms OptionalAuth_user [OF _ assms(2), of E r uid uid' w2] by (auto simp: run_middleware_def known_def)
next
  case M_Auth
  then show ?thesis
    using assms Auth_user [OF _ assms(2), of E r uid' w2] by (auto simp: run_middleware_def known_def)
next
  case M_RequireAdmin
  then have "uid' = uid" "\<exists>u. uid = Some u \<and> admin_user E u (db w)"
    using assms(1) RequireAdmin_user [of E uid w1 uid' w2] quietD(1) [OF assms(2)] by (auto simp: run_middleware_def)
  then show ?thesis using M_RequireAdmin assms(3) by (auto simp: known_def admin_request_def)
qed

lemma route_guarded:
  assumes "route E ls r uid w1 = (out, w2)" "quiet w w1" "known E r w pa pd uid"
  shows "quiet w w2 \<and>
    (case out of
       Answered rep \<Rightarrow> fst rep = 401 \<or> fst rep = 403
     | Unrouted \<Rightarrow> True
     | Reached ep i uid' \<Rightarrow>
         (ep \<in> set (open_for M_Auth pa ls) \<or> (\<exists>u. uid' = Some u \<and> token_user E r w u)) \<and>
         (ep \<in> set (open_for M_RequireAdmin pd ls) \<or> (\<exists>u. admin_request E r w u)))"
  using assms
proof (induction ls arbitrary: uid w1 pa pd)
  case Nil
  then show ?case by auto
next
  case (Cons l ls)
  show ?case
  proof (cases l)
    case (Use p m)
    show ?thesis
    proof (cases "match_use p (rq_path r)")
      case False
      then have "known E r w (if m = M_Auth then p # pa else pa) (if m = M_RequireAdmin then p # pd else pd) uid"
        using Cons.prems(3) by (auto simp: known_def)
      from Cons.IH [OF _ Cons.prems(2) this] show ?thesis using Cons.prems(1) Use False by (cases out) simp_all
    next
      case True
      obtain res w3 where m: "run_middleware E m r uid w1 = (res, w3)" by (cases "run_middleware E m r uid w1")
      have q: "quiet w w3" using middleware_quiet [OF m] Cons.prems(2) quiet_trans by blast
      show ?thesis
      proof (cases res)
        case (Inl rep)
        then show ?thesis using Cons.prems(1) Use True m q middleware_blocks [OF m [unfolded Inl]] by auto
      next
        case (Inr uid')
        from Cons.IH [OF _ q middleware_known [OF m [unfolded Inr] Cons.prems(2,3)]]
        show ?thesis using Cons.prems(1) Use True m Inr by (cases out) simp_all
      qed
    qed
  next
    case (Route m p ep)
    show ?thesis
    proof (cases "match_meth m (rq_method r) \<and> match_path p (rq_path r) \<noteq> None")
      case False
      then have "route E ls r uid w1 = (out, w2)" using Cons.prems(1) Route by (auto split: if_splits)
      from Cons.IH [OF this Cons.prems(2,3)] show ?thesis using Route by (auto split: outcome.splits)
    next
      case True
      then obtain i where i: "match_path p (rq_path r) = Some i" by blast
      then have out: "out = Reached ep i uid" "w2 = w1" using Cons.prems(1) Route True by auto
      have "list_ex (\<lambda>q. static_prefix q p) ps \<Longrightarrow> list_ex (\<lambda>q. match_use q (rq_path r)) ps" for ps
        using static_prefix_match [OF _ i] by (auto simp: list_ex_iff)
      then show ?thesis using Cons.prems(2,3) Route out by (auto simp: known_def)
    qed
  qed
qed

text \<open>C3: Whatever the request, either it is turned away with 401, 403, 404 or 405 and nothing but the
  clock has moved, or it reaches the handler of one endpoint: a public one, or one that runs
  as the user whom the token of the request names, and the administration endpoints only when an account
  with the role \<^verbatim>\<open>admin\<close> stands in the database for that token at that moment.\<close>

theorem endpoints_guarded:
  "case serve E C L M r w of (rep, w') \<Rightarrow>
     (quiet w w' \<and> fst rep \<in> {401, 403, 404, 405}) \<or>
     (\<exists>ep i uid w1. quiet w w1 \<and> handle E C L M ep r i uid w1 = (rep, w') \<and>
        (ep \<in> set public_endpoints \<or>
         (\<exists>u. uid = Some u \<and> token_user E r w u \<and>
            (ep \<in> set member_endpoints \<or> (ep \<in> set admin_endpoints \<and> (\<exists>a. admin_request E r w a))))))"
proof -
  obtain out w1 where rt: "route E NewRouter r None w = (out, w1)" by (cases "route E NewRouter r None w")
  have "known E r w [] [] None" by (simp add: known_def)
  note g = route_guarded [OF rt quiet_refl this, unfolded open_for_Auth open_for_RequireAdmin]
  show ?thesis
  proof (cases out)
    case (Answered rep)
    then show ?thesis using g rt by (auto simp: serve_def)
  next
    case Unrouted
    then show ?thesis using g rt by (auto simp: serve_def)
  next
    case (Reached ep i uid)
    obtain rep w' where h: "handle E C L M ep r i uid w1 = (rep, w')" by (cases "handle E C L M ep r i uid w1")
    then have "serve E C L M r w = (rep, w')" using rt Reached by (simp add: serve_def)
    then show ?thesis using g h Reached every_endpoint [of ep] by (auto 0 4)
  qed
qed

end
