(* ===== verification/StreamSync.thy ===== *)
theory StreamSync
  imports StreamLife
begin

text \<open>
  What the grace periods and the reconciliation achieve: a pending end comes to its end, a reconciliation
  pass leaves exactly the streams on air that it should, and the list of live streams is paged.
\<close>

section \<open>The end of a grace period\<close>

lemma replay_keeps_livestreams: "replay_effect w w' \<Longrightarrow> livestreams (db w') = livestreams (db w)"
  unfolding replay_effect_def
  by (elim conjE, erule runs_keeps [where f = livestreams]) (drule (1) video_stmts_frame, erule ssubst, simp)

lemma row_at_change_key:
  assumes "\<And>r. lv_stream_key (f r) = lv_stream_key r" "row_at lv_stream_key k (livestreams d) = Some r"
  shows "row_at lv_stream_key k (livestreams (change_streams (\<lambda>y. lv_stream_key y = k) f d)) = Some (f r)"
  using assms row_at_Some [OF assms(2)] by (simp add: change_streams_def row_at_update)

lemma finalize_goes_offline:
  assumes "healthy E" "livestreams_ok (db w)" "pending w k = Some p" "row_at lv_stream_key k (livestreams (db w)) = Some r"
  shows "pending (finalizeStreamEnd E k w) k = None"
    "row_at lv_stream_key k (livestreams (db (finalizeStreamEnd E k w))) = Some (go_offline (clock E (tick w + 1)) r)"
proof -
  show "pending (finalizeStreamEnd E k w) k = None"
    using finalize_timing [of E k w] by (simp add: timing_def)
  let ?t = "clock E (tick w + 1)"
  define w1 ls where "w1 = w\<lparr>pending := (pending w)(k := None), db := change_streams (\<lambda>y. lv_stream_key y = k) (go_offline ?t) (db w), tick := tick w + 3\<rparr>"
    and "ls = (livestream_of_row (db w) r)\<lparr>ls_IsLive := False, ls_EndedAt := Some ?t, ls_UpdatedAt := ?t\<rparr>"
  have "finalizeStreamEnd E k w = (if pe_dvrPath p = [] then w1 else snd (processDVR E ls (pe_dvrPath p) w1))"
    using finalize_row [OF assms] unfolding w1_def ls_def Let_def .
  moreover have "livestreams (db (snd (processDVR E ls (pe_dvrPath p) w1))) = livestreams (db w1)"
    using replay_keeps_livestreams [OF processDVR_effect [OF prod.collapse [symmetric]]] .
  moreover have "row_at lv_stream_key k (livestreams (db w1)) = Some (go_offline ?t r)"
    unfolding w1_def using row_at_change_key [OF go_offline_row(3) assms(4)] by simp
  ultimately show "row_at lv_stream_key k (livestreams (db (finalizeStreamEnd E k w))) = Some (go_offline ?t r)"
    by simp
qed

lemma run_callback_at:
  "n < length (firing w) \<Longrightarrow> firing w ! n = k \<Longrightarrow>
   run_callback E n w = finalizeStreamEnd E k (w\<lparr>firing := take n (firing w) @ drop (Suc n) (firing w)\<rparr>)"
  by (simp add: run_callback_def)



section \<open>Reconciliation\<close>

lemma live_in_all: "live_in [] = lv_is_live"
  by (rule ext) (simp add: live_in_def)

lemma reconcile_rows_exact:
  assumes "healthy E" "livestreams_ok (db w)" "distinct (map lv_id rs)" "set rs \<subseteq> set (livestreams (db w))"
  shows "\<exists>n. reconcile_rows E ks t (map (livestream_of_row d) rs) w =
     w\<lparr>db := change_streams (\<lambda>y. lv_id y \<in> lv_id ` set rs \<and> lv_stream_key y \<notin> ks \<and> pending w (lv_stream_key y) = None) (go_offline t) (db w),
       tick := n\<rparr>"
  using assms(2-4)
proof (induction rs arbitrary: w)
  case Nil
  have "change_streams (\<lambda>y. False) f (db w) = db w" for f by (simp add: change_streams_def sql_update_def)
  then show ?case by (intro exI [of _ "tick w"]) simp
next
  case (Cons r rs)
  let ?p = "\<lambda>rs y. lv_id y \<in> lv_id ` set rs \<and> lv_stream_key y \<notin> ks \<and> pending w (lv_stream_key y) = None"
  have r: "r \<in> set (livestreams (db w))" using Cons.prems(3) by simp
  have same: "lv_id y = lv_id r \<longleftrightarrow> lv_stream_key y = lv_stream_key r" if "y \<in> set (livestreams (db w))" for y
    using that r Cons.prems(1) distinct_key_eq [of lv_id _ y r] distinct_key_eq [of lv_stream_key _ y r] by (auto simp: livestreams_ok_def)
  show ?case
  proof (cases "lv_stream_key r \<in> ks \<or> pending w (lv_stream_key r) \<noteq> None")
    case True
    then have "?p (r # rs) y = ?p rs y" if "y \<in> set (livestreams (db w))" for y using same [OF that] by auto
    then have "change_streams (?p (r # rs)) (go_offline t) (db w) = change_streams (?p rs) (go_offline t) (db w)"
      by (auto simp: change_streams_def sql_update_def)
    then show ?thesis using True Cons by auto
  next
    case False
    define w1 where "w1 = bump (w\<lparr>db := change_streams (\<lambda>y. lv_stream_key y = lv_stream_key r) (go_offline t) (db w)\<rparr>)"
    have u: "LivestreamRepo_Update E ((livestream_of_row d r)\<lparr>ls_IsLive := False, ls_EndedAt := Some t, ls_UpdatedAt := t\<rparr>) w = (Inr (), w1)"
      unfolding w1_def by (rule offline_update [OF assms(1) Cons.prems(1) r])
    have ok1: "livestreams_ok (db w1)"
      using effect_invariant [OF LivestreamRepo_writes_run(2) [OF u], of livestreams_ok, OF Cons.prems(1)] livestream_stmts_ok by blast
    have "lv_id x \<noteq> lv_id r" if "x \<in> set rs" for x using Cons.prems(2) that by (auto simp: image_iff)
    then have sub: "set rs \<subseteq> set (livestreams (db w1))"
      using Cons.prems(3) same by (fastforce simp: w1_def change_streams_def set_sql_update)
    obtain n where n: "reconcile_rows E ks t (map (livestream_of_row d) rs) w1 =
        w1\<lparr>db := change_streams (?p rs) (go_offline t) (db w1), tick := n\<rparr>"
      using Cons.IH [OF ok1 _ sub] Cons.prems(2) by (auto simp: w1_def)
    have "change_streams (?p rs) (go_offline t) (db w1) = change_streams (?p (r # rs)) (go_offline t) (db w)"
    proof -
      have "map (\<lambda>y. if ?p rs y then go_offline t y else y)
              (map (\<lambda>y. if lv_stream_key y = lv_stream_key r then go_offline t y else y) (livestreams (db w))) =
            map (\<lambda>y. if ?p (r # rs) y then go_offline t y else y) (livestreams (db w))"
        using same False by (auto simp: go_offline_def)
      then show ?thesis by (simp add: w1_def change_streams_def sql_update_def)
    qed
    then have "w1\<lparr>db := change_streams (?p rs) (go_offline t) (db w1), tick := n\<rparr> =
        w\<lparr>db := change_streams (?p (r # rs)) (go_offline t) (db w), tick := n\<rparr>" by (simp add: w1_def bump_def)
    moreover have "reconcile_rows E ks t (map (livestream_of_row d) (r # rs)) w = reconcile_rows E ks t (map (livestream_of_row d) rs) w1"
      using False u by (simp add: Let_def)
    ultimately show ?thesis using n by auto
  qed
qed



section \<open>The list of live streams\<close>

definition live_response :: "env \<Rightarrow> db \<Rightarrow> LivestreamResponse \<Rightarrow> LivestreamResponse" where
  "live_response E d r = (if has_followRepo E
     then r\<lparr>lr_Streamer := (lr_Streamer r)\<lparr>st_FollowersCount := sql_count (\<lambda>f. fl_channel_id f = st_ID (lr_Streamer r)) (follows d)\<rparr>\<rparr> else r)"

lemma with_followers_loop_healthy:
  assumes "healthy E"
  shows "fst (with_followers_loop E rs w) = map (live_response E (db w)) rs"
proof (induction rs arbitrary: w)
  case (Cons r rs)
  have "fst (withFollowersCount E r w) = live_response E (db w) r \<and> db (snd (withFollowersCount E r w)) = db w"
    by (simp add: withFollowersCount_def live_response_def FollowRepo_CountFollowers_def QueryRow_healthy [OF assms])
  moreover have "fst (with_followers_loop E (r # rs) w) =
      fst (withFollowersCount E r w) # fst (with_followers_loop E rs (snd (withFollowersCount E r w)))"
    by (simp split: prod.split)
  ultimately show ?case using Cons.IH [of "snd (withFollowersCount E r w)"] by simp
qed simp

definition live_list :: "env \<Rightarrow> string \<Rightarrow> db \<Rightarrow> LivestreamResponse list" where
  "live_list E category d = map (live_response E d) (ToLivestreamResponses (active_streams category d))"

lemma ListActiveStreams_page:
  assumes "healthy E" "1 \<le> page" "small_int page" "small_int limit"
  shows "\<exists>p. fst (Livestream_ListActiveStreams E category page limit w) = Inr p \<and>
     Data p = page_of page limit (live_list E category (db w)) \<and>
     Pagination p = page_meta (int (length (live_list E category (db w)))) page limit"
proof -
  have n: "sql_count (live_in category) (livestreams (db w)) = int (length (live_list E category (db w)))"
    by (simp add: sql_count_def live_list_def ToLivestreamResponses_def active_streams_def)
  have l: "map (live_response E (db w)) (ToLivestreamResponses (page_of page limit (active_streams category (db w)))) =
      page_of page limit (live_list E category (db w))"
    by (simp add: ToLivestreamResponses_def live_list_def page_of_map)
  obtain v where "with_followers_loop E (ToLivestreamResponses (page_of page limit (active_streams category (db w)))) (bump (bump w)) =
      (page_of page limit (live_list E category (db w)), v)"
    using with_followers_loop_healthy [OF assms(1), of _ "bump (bump w)"] l by (metis bump_simps(1) prod.collapse)
  then show ?thesis
    by (simp add: Livestream_ListActiveStreams_def LivestreamRepo_ListActive_def driver_healthy [OF assms(1)] Let_def
        sql_page_request [OF assms(2-4)] n ToLivestreamPageResponse_def page_response_def page_meta_def split: prod.splits)
qed

interpretation live_listing: paged_listing "\<lambda>(E, _). healthy E" "\<lambda>(E, category, w). live_list E category (db w)"
  "\<lambda>(E, category, w) page limit. fst (Livestream_ListActiveStreams E category page limit w)" Data Pagination
  by unfold_locales (auto intro: ListActiveStreams_page)

text \<open>The list of live streams shows every stream that is on air (in the category, where one is given) once, the
  most watched first, with the number of followers of the streamer, over its pages.\<close>

theorem active_streams_cover:
  assumes "healthy E" "small_int limit" "0 < limit" "small_int (int (length (livestreams (db w))))"
  shows "let all = live_list E category (db w)
     in covers (\<lambda>page. fst (Livestream_ListActiveStreams E category page limit w)) Data Pagination limit all \<and>
        sorted_wrt (\<lambda>a b. lr_ViewersCount a \<ge> lr_ViewersCount b) all \<and>
        lr_ID ` set all = lv_id ` {r \<in> set (livestreams (db w)). lv_is_live r \<and> (category \<noteq> [] \<longrightarrow> lv_category r = category)}"
proof -
  let ?all = "live_list E category (db w)"
  have eq: "?all = map (\<lambda>r. live_response E (db w) (ToLivestreamResponse (livestream_of_row (db w) r)))
      (order_desc lv_viewers_count (filter (live_in category) (livestreams (db w))))"
    by (simp add: live_list_def ToLivestreamResponses_def active_streams_def)
  have sel: "lr_ViewersCount (live_response E d (ToLivestreamResponse (livestream_of_row d r))) = lv_viewers_count r"
    "lr_ID (live_response E d (ToLivestreamResponse (livestream_of_row d r))) = lv_id r" for d r
    by (simp_all add: live_response_def ToLivestreamResponse_def livestream_of_row_def)
  have "length ?all \<le> length (livestreams (db w))" unfolding eq by simp
  then have "covers (\<lambda>page. fst (Livestream_ListActiveStreams E category page limit w)) Data Pagination limit ?all"
    using live_listing.pages_cover_all [of "(E, category, w)" limit] assms by (simp add: small_int_def)
  moreover have "sorted_wrt (\<lambda>a b. lr_ViewersCount a \<ge> lr_ViewersCount b) ?all"
    unfolding eq sorted_wrt_map sel by (rule order_desc_sorted)
  moreover have "lr_ID ` set ?all = lv_id ` {r \<in> set (livestreams (db w)). lv_is_live r \<and> (category \<noteq> [] \<longrightarrow> lv_category r = category)}"
    unfolding eq by (simp add: image_image sel live_in_def)
  ultimately show ?thesis unfolding Let_def by blast
qed

theorem active_streams_cover_witness:
  "covers (\<lambda>page. fst (Livestream_ListActiveStreams test_env [] page 10 stream_world)) Data Pagination 10 (live_list test_env [] (db stream_world))"
proof -
  have "small_int (10 :: int)" "(0 :: int) < 10" "small_int (int (length (livestreams (db stream_world))))"
    by (simp_all add: small_int_def stream_world_def)
  from active_streams_cover [OF test_env_healthy this, of "[]"] show ?thesis by (simp add: Let_def)
qed

end
