(* ===== verification/Service.thy ===== *)
theory Service
  imports Router StreamSync
begin

text \<open>
  The whole service: requests, the timers of the grace periods, the notification goroutines, the reconciliation
  loop, the training loop and the readers of event streams, as the steps of one relation.  What holds of
  every reachable state: the schema's constraints, the tables of the hubs (so that no broadcast or
  unsubscription panics), the timers of the grace periods, and the recommendation model.
\<close>

section \<open>The constraints of the schema\<close>

definition db_ok :: "env \<Rightarrow> db \<Rightarrow> bool" where
  "db_ok E d \<longleftrightarrow>
     users_ok E d \<and> videos_ok d \<and> livestreams_ok d \<and> marks_ok (likes d) \<and> mark_tables_ok d \<and> follows_ok d \<and>
     comments_ok d \<and> posts_ok d \<and> notifs_ok d \<and> subtitles_ok d \<and> history_ok d \<and> prefs_ok d \<and> words_ok d \<and> workers_ok d"

text \<open>Every statement that the program sends to change the database.\<close>

definition all_stmts :: "env \<Rightarrow> stmt set" where
  "all_stmts E =
     user_stmts E \<union> video_stmts \<union> livestream_stmts \<union> like_stmts \<union> mark_stmts \<union> follow_stmts \<union> comment_stmts \<union>
     post_stmts \<union> notif_stmts \<union> subtitle_stmts \<union> history_stmts \<union> pref_stmts \<union> word_stmts \<union> worker_stmts"

lemma all_stmts_sub:
  "user_stmts E \<subseteq> all_stmts E" "video_stmts \<subseteq> all_stmts E" "livestream_stmts \<subseteq> all_stmts E"
  "like_stmts \<subseteq> all_stmts E" "mark_stmts \<subseteq> all_stmts E" "follow_stmts \<subseteq> all_stmts E"
  "comment_stmts \<subseteq> all_stmts E" "post_stmts \<subseteq> all_stmts E" "notif_stmts \<subseteq> all_stmts E"
  "subtitle_stmts \<subseteq> all_stmts E" "history_stmts \<subseteq> all_stmts E" "pref_stmts \<subseteq> all_stmts E"
  "word_stmts \<subseteq> all_stmts E" "worker_stmts \<subseteq> all_stmts E"
  by (auto simp: all_stmts_def)

text \<open>The invariant of a table looks at the table alone.\<close>

lemmas table_ok_defs = users_ok_def videos_ok_def livestreams_ok_def mark_tables_ok_def follows_ok_def
  comments_ok_def posts_ok_def notifs_ok_def subtitles_ok_def history_ok_def prefs_ok_def words_ok_def workers_ok_def

lemma db_ok_users: "db_ok E d \<Longrightarrow> users_ok E (d\<lparr>users := x\<rparr>) \<Longrightarrow> db_ok E (d\<lparr>users := x\<rparr>)"
  by (simp add: db_ok_def table_ok_defs)

lemma db_ok_videos: "db_ok E d \<Longrightarrow> videos_ok (d\<lparr>videos := x\<rparr>) \<Longrightarrow> db_ok E (d\<lparr>videos := x\<rparr>)"
  by (simp add: db_ok_def table_ok_defs)

lemma db_ok_livestreams: "db_ok E d \<Longrightarrow> livestreams_ok (d\<lparr>livestreams := x\<rparr>) \<Longrightarrow> db_ok E (d\<lparr>livestreams := x\<rparr>)"
  by (simp add: db_ok_def table_ok_defs)

lemma db_ok_likes: "db_ok E d \<Longrightarrow> marks_ok x \<Longrightarrow> db_ok E (d\<lparr>likes := x\<rparr>)"
  by (simp add: db_ok_def table_ok_defs)

lemma db_ok_follows: "db_ok E d \<Longrightarrow> follows_ok (d\<lparr>follows := x\<rparr>) \<Longrightarrow> db_ok E (d\<lparr>follows := x\<rparr>)"
  by (simp add: db_ok_def table_ok_defs)

lemma db_ok_comments: "db_ok E d \<Longrightarrow> comments_ok (d\<lparr>comments := x\<rparr>) \<Longrightarrow> db_ok E (d\<lparr>comments := x\<rparr>)"
  by (simp add: db_ok_def table_ok_defs)

lemma db_ok_posts:
  "db_ok E d \<Longrightarrow> posts_ok (d\<lparr>posts := x, post_likes := y\<rparr>) \<Longrightarrow> db_ok E (d\<lparr>posts := x, post_likes := y\<rparr>)"
  by (simp add: db_ok_def table_ok_defs)

lemma db_ok_notifs: "db_ok E d \<Longrightarrow> notifs_ok (d\<lparr>notifications := x\<rparr>) \<Longrightarrow> db_ok E (d\<lparr>notifications := x\<rparr>)"
  by (simp add: db_ok_def table_ok_defs)

lemma db_ok_subtitles: "db_ok E d \<Longrightarrow> subtitles_ok (d\<lparr>video_subtitles := x\<rparr>) \<Longrightarrow> db_ok E (d\<lparr>video_subtitles := x\<rparr>)"
  by (simp add: db_ok_def table_ok_defs)

lemma db_ok_history: "db_ok E d \<Longrightarrow> history_ok (d\<lparr>watch_history := x\<rparr>) \<Longrightarrow> db_ok E (d\<lparr>watch_history := x\<rparr>)"
  by (simp add: db_ok_def table_ok_defs)

lemma db_ok_prefs: "db_ok E d \<Longrightarrow> prefs_ok (d\<lparr>category_preferences := x\<rparr>) \<Longrightarrow> db_ok E (d\<lparr>category_preferences := x\<rparr>)"
  by (simp add: db_ok_def table_ok_defs)

lemma db_ok_words: "db_ok E d \<Longrightarrow> words_ok (d\<lparr>user_vocabulary := x\<rparr>) \<Longrightarrow> db_ok E (d\<lparr>user_vocabulary := x\<rparr>)"
  by (simp add: db_ok_def table_ok_defs)

lemma db_ok_workers: "db_ok E d \<Longrightarrow> workers_ok (d\<lparr>worker_heartbeats := x\<rparr>) \<Longrightarrow> db_ok E (d\<lparr>worker_heartbeats := x\<rparr>)"
  by (simp add: db_ok_def table_ok_defs)

text \<open>The marks of posts also need their post.\<close>

lemma mark_stmts_db_ok:
  assumes "s \<in> mark_stmts" "s d = Inr (n, d')" "db_ok E d"
  shows "db_ok E d'"
proof -
  have ok: "mark_tables_ok d'" using mark_stmts_ok assms by (auto simp: db_ok_def)
  have fr: "d' = d\<lparr>comment_likes := comment_likes d', post_likes := post_likes d', saved_videos := saved_videos d'\<rparr>"
    by (rule mark_stmts_frame [OF assms(1,2)])
  have "\<forall>m \<in> set (post_likes d'). \<exists>p \<in> set (posts d). p_ID p = mk_target_id m"
    using assms by (fastforce simp: mark_stmts_def db_ok_def posts_ok_def insert_comment_like_Inr insert_post_like_Inr
        insert_saved_Inr delete_comment_like_def delete_post_like_def delete_saved_def add_mark_Inr)
  moreover have "posts d' = posts d" by (subst fr) simp
  ultimately have po: "posts_ok d'" using ok assms(3) by (simp add: posts_ok_def mark_tables_ok_def db_ok_def)
  have "users_ok E d'" "videos_ok d'" "livestreams_ok d'" "marks_ok (likes d')" "follows_ok d'" "comments_ok d'"
    "notifs_ok d'" "subtitles_ok d'" "history_ok d'" "prefs_ok d'" "words_ok d'" "workers_ok d'"
    using assms(3) by (subst fr; simp add: db_ok_def table_ok_defs)+
  then show ?thesis using ok po by (simp add: db_ok_def)
qed

lemma all_stmts_ok:
  assumes "uuid_laws E" "s \<in> all_stmts E" "s d = Inr (n, d')" "db_ok E d"
  shows "db_ok E d'"
proof -
  have ok: "users_ok E d" "videos_ok d" "livestreams_ok d" "marks_ok (likes d)" "follows_ok d" "comments_ok d" "posts_ok d"
    "notifs_ok d" "subtitles_ok d" "history_ok d" "prefs_ok d" "words_ok d" "workers_ok d"
    using assms(4) by (simp_all add: db_ok_def)
  from assms(2) consider
    "s \<in> user_stmts E" | "s \<in> video_stmts" | "s \<in> livestream_stmts" | "s \<in> like_stmts" | "s \<in> mark_stmts" | "s \<in> follow_stmts"
    | "s \<in> comment_stmts" | "s \<in> post_stmts" | "s \<in> notif_stmts" | "s \<in> subtitle_stmts" | "s \<in> history_stmts" | "s \<in> pref_stmts"
    | "s \<in> word_stmts" | "s \<in> worker_stmts"
    by (auto simp: all_stmts_def)
  then show ?thesis
  proof cases
    case 1 show ?thesis by (subst user_stmts_frame [OF 1 assms(3)]; intro db_ok_users assms(4))
        (use user_stmts_ok [OF assms(1) 1 ok(1) assms(3)] in \<open>simp add: table_ok_defs\<close>)
  next
    case 2 show ?thesis by (subst video_stmts_frame [OF 2 assms(3)]; intro db_ok_videos assms(4))
        (use video_stmts_ok [OF 2 ok(2) assms(3)] in \<open>simp add: table_ok_defs\<close>)
  next
    case 3 show ?thesis by (subst livestream_stmts_frame [OF 3 assms(3)]; intro db_ok_livestreams assms(4))
        (use livestream_stmts_ok [OF 3 ok(3) assms(3)] in \<open>simp add: table_ok_defs\<close>)
  next
    case 4 show ?thesis by (subst like_stmts_frame [OF 4 assms(3)]; intro db_ok_likes assms(4))
        (use like_stmts_ok [OF 4 ok(4) assms(3)] in simp)
  next
    case 5 show ?thesis by (rule mark_stmts_db_ok [OF 5 assms(3,4)])
  next
    case 6 show ?thesis by (subst follow_stmts_frame [OF 6 assms(3)]; intro db_ok_follows assms(4))
        (use follow_stmts_ok [OF 6 ok(5) assms(3)] in \<open>simp add: table_ok_defs\<close>)
  next
    case 7 show ?thesis by (subst comment_stmts_frame [OF 7 assms(3)]; intro db_ok_comments assms(4))
        (use comment_stmts_ok [OF 7 ok(6) assms(3)] in \<open>simp add: table_ok_defs\<close>)
  next
    case 8 show ?thesis by (subst post_stmts_frame [OF 8 assms(3)]; intro db_ok_posts assms(4))
        (use post_stmts_ok [OF 8 ok(7) assms(3)] in \<open>simp add: table_ok_defs\<close>)
  next
    case 9 show ?thesis by (subst notif_stmts_frame [OF 9 assms(3)]; intro db_ok_notifs assms(4))
        (use notif_stmts_ok [OF 9 ok(8) assms(3)] in \<open>simp add: table_ok_defs\<close>)
  next
    case 10 show ?thesis by (subst subtitle_stmts_frame [OF 10 assms(3)]; intro db_ok_subtitles assms(4))
        (use subtitle_stmts_ok [OF 10 ok(9) assms(3)] in \<open>simp add: table_ok_defs\<close>)
  next
    case 11 show ?thesis by (subst history_stmts_frame [OF 11 assms(3)]; intro db_ok_history assms(4))
        (use history_stmts_ok [OF 11 ok(10) assms(3)] in \<open>simp add: table_ok_defs\<close>)
  next
    case 12 show ?thesis by (subst pref_stmts_frame [OF 12 assms(3)]; intro db_ok_prefs assms(4))
        (use pref_stmts_ok [OF 12 ok(11) assms(3)] in \<open>simp add: table_ok_defs\<close>)
  next
    case 13 show ?thesis by (subst word_stmts_frame [OF 13 assms(3)]; intro db_ok_words assms(4))
        (use word_stmts_ok [OF 13 ok(12) assms(3)] in \<open>simp add: table_ok_defs\<close>)
  next
    case 14 show ?thesis by (subst worker_stmts_frame [OF 14 assms(3)]; intro db_ok_workers assms(4))
        (use worker_stmts_ok [OF 14 ok(13) assms(3)] in \<open>simp add: table_ok_defs\<close>)
  qed
qed


section \<open>What an operation keeps\<close>

definition world_ok :: "env \<Rightarrow> world \<Rightarrow> bool" where
  "world_ok E w \<longleftrightarrow> db_ok E (db w) \<and> Hub_inv (hub w) \<and> ChatHub_inv (chatHub w) \<and> NotificationHub_inv (notifHub w) \<and> timers_ok w"

definition keeps :: "env \<Rightarrow> world \<Rightarrow> world \<Rightarrow> bool" where
  "keeps E w w' \<longleftrightarrow> (uuid_laws E \<longrightarrow> world_ok E w \<longrightarrow> world_ok E w')"

lemma keeps_refl [simp]: "keeps E w w"
  by (simp add: keeps_def)

lemma keeps_trans: "keeps E w w1 \<Longrightarrow> keeps E w1 w2 \<Longrightarrow> keeps E w w2"
  by (simp add: keeps_def)

text \<open>The rest of the state, which most operations leave alone.\<close>

definition same_rest :: "world \<Rightarrow> world \<Rightarrow> bool" where
  "same_rest w w' \<longleftrightarrow> hub w' = hub w \<and> chatHub w' = chatHub w \<and> notifHub w' = notifHub w \<and> StreamLife.timing w' = StreamLife.timing w"

lemma runs_keeps_ok:
  assumes "runs S (db w) (db w')" "S \<subseteq> all_stmts E" "same_rest w w'"
  shows "keeps E w w'"
proof -
  have "db_ok E (db w')" if "uuid_laws E" "db_ok E (db w)"
    using runs_invariant [where P = "db_ok E", OF assms(1)] all_stmts_ok [OF that(1)] assms(2) that(2) by blast
  moreover have "timers_ok w' = timers_ok w" using assms(3) by (intro timers_ok_cong) (simp add: same_rest_def)
  ultimately show ?thesis using assms(3) by (simp add: keeps_def world_ok_def same_rest_def)
qed

lemma world_ok_cong: "db w' = db w \<Longrightarrow> same_rest w w' \<Longrightarrow> world_ok E w' = world_ok E w"
  using timers_ok_cong [of w' w] by (simp add: world_ok_def same_rest_def)

lemma world_ok_simps [simp]:
  "world_ok E (bump w) = world_ok E w" "world_ok E (w\<lparr>jobs := j\<rparr>) = world_ok E w"
  "world_ok E (w\<lparr>spawned := sp\<rparr>) = world_ok E w" "world_ok E (w\<lparr>rlog := rl\<rparr>) = world_ok E w"
  "world_ok E (go_notify c w) = world_ok E w"
  by (intro world_ok_cong; simp add: same_rest_def StreamLife.timing_def go_notify_def bump_def)+

lemma keeps_simps [simp]:
  "keeps E w (bump w') = keeps E w w'" "keeps E (bump w) w' = keeps E w w'"
  "keeps E w (w'\<lparr>jobs := j\<rparr>) = keeps E w w'" "keeps E w (w'\<lparr>spawned := sp\<rparr>) = keeps E w w'"
  "keeps E w (go_notify c w') = keeps E w w'" "keeps E (go_notify c w) w' = keeps E w w'"
  "keeps E (w\<lparr>jobs := j\<rparr>) w' = keeps E w w'" "keeps E (w\<lparr>spawned := sp\<rparr>) w' = keeps E w w'"
  by (simp_all add: keeps_def)

lemma effect_keeps_ok: "effect S w w' \<Longrightarrow> S \<subseteq> all_stmts E \<Longrightarrow> keeps E w w'"
  by (rule runs_keeps_ok) (auto simp: effect_def same_rest_def only_dbD timing_eq)

lemmas effect_all = all_stmts_sub [THEN effect_keeps_ok [rotated]]

lemma quiet_keeps: "quiet w w' \<Longrightarrow> keeps E w w'"
  by (rule effect_keeps_ok [OF quiet_effect all_stmts_sub(1)])

lemma data_only_rest: "data_only w w' \<Longrightarrow> same_rest w w'"
  by (cases w; cases w') (simp add: data_only_def same_rest_def timing_eq)

lemma data_keeps: "data_only w w' \<and> runs S (db w) (db w') \<Longrightarrow> S \<subseteq> all_stmts E \<Longrightarrow> keeps E w w'"
  by (rule runs_keeps_ok) (auto intro: data_only_rest)

lemmas data_all = all_stmts_sub [THEN data_keeps [rotated]]

lemma data_same_keeps: "data_only w w' \<and> db w' = db w \<Longrightarrow> keeps E w w'"
  using data_keeps [of w w' "{}"] by simp

text \<open>Every operation of the use cases, from the lemmas of its component.\<close>

named_theorems op_keeps \<open>what the operations of the use cases keep\<close>

lemma User_keeps [op_keeps]:
  "User_Register E n e p w = (r1, w') \<Longrightarrow> keeps E w w'"
  "User_Login E e p w = (r2, w') \<Longrightarrow> keeps E w w'"
  "User_RefreshToken E t w = (r3, w') \<Longrightarrow> keeps E w w'"
  "User_GetUser E i w = (r4, w') \<Longrightarrow> keeps E w w'"
  "User_UpdateUser E i n e a w = (r4, w') \<Longrightarrow> keeps E w w'"
  by (auto dest: User_Register_runs User_Login_quiet User_RefreshToken_quiet User_GetUser_quiet User_UpdateUser_runs
      intro: effect_all quiet_keeps)

lemma Follow_keeps [op_keeps]:
  "Follow_ToggleFollow E u c w = (r1, w') \<Longrightarrow> keeps E w w'"
  "Follow_CountFollowers E c w = (r2, w') \<Longrightarrow> keeps E w w'"
  "Follow_IsFollowing E u c w = (r3, w') \<Longrightarrow> keeps E w w'"
  "Follow_ListFollowedChannels E u p l w = (r4, w') \<Longrightarrow> keeps E w w'"
  by (auto simp: Follow_CountFollowers_def Follow_IsFollowing_def split: if_splits
      dest: Follow_ToggleFollow_runs FollowRepo_reads_quiet Follow_ListFollowedChannels_quiet
      intro: effect_all quiet_keeps)

lemma History_keeps [op_keeps]:
  "History_RecordWatch E u v s w = (r1, w') \<Longrightarrow> keeps E w w'"
  "History_ListHistory E u p l w = (r2, w') \<Longrightarrow> keeps E w w'"
  "Preference_SetPreferredCategories E u cs w = (r1, w') \<Longrightarrow> keeps E w w'"
  "Preference_GetPreferredCategories E u w = (r3, w') \<Longrightarrow> keeps E w w'"
  by (auto dest: RecordWatch_runs ListHistory_quiet SetPreferredCategories_runs GetPreferredCategories_quiet
      intro: effect_all quiet_keeps)

lemma Vocabulary_keeps [op_keeps]:
  "Vocabulary_SaveWord E u req w = (r1, w') \<Longrightarrow> keeps E w w'"
  "Vocabulary_ListWords E u w = (r2, w') \<Longrightarrow> keeps E w w'"
  "Vocabulary_DeleteWord E i u w = (r3, w') \<Longrightarrow> keeps E w w'"
  by (auto dest: SaveWord_runs ListWords_quiet DeleteWord_runs intro: effect_all quiet_keeps)

lemma Mark_keeps [op_keeps]:
  "SavedVideo_ToggleSaveVideo E u v w = (r1, w') \<Longrightarrow> keeps E w w'"
  "SavedVideo_ListSavedVideos E u p l w = (r2, w') \<Longrightarrow> keeps E w w'"
  "Comment_ToggleLikeComment E c u w = (r3, w') \<Longrightarrow> keeps E w w'"
  "Post_TogglePostLike E c u w = (r3, w') \<Longrightarrow> keeps E w w'"
  by (auto simp: Comment_ToggleLikeComment_def Post_TogglePostLike_def split: prod.splits sum.splits if_splits
      dest!: SavedVideo_ToggleSaveVideo_runs SavedVideo_ListSavedVideos_quiet CommentLikeRepo_ToggleLike_runs PostLikeRepo_ToggleLike_runs
      PostRepo_reads_quiet
      intro: effect_all quiet_keeps)

lemma Like_keeps [op_keeps]: "Like_ToggleLikeVideo E u v w = (r, w') \<Longrightarrow> keeps E w w'"
  by (auto simp: Like_ToggleLikeVideo_def NewUUID_def Let_def split: prod.splits sum.splits
      dest!: LikeRepo_ToggleLike_data LikeRepo_reads_quiet intro: data_all quiet_keeps)

lemma Comment_keeps [op_keeps]:
  "Comment_CreateComment E v u n a req w = (r1, w') \<Longrightarrow> keeps E w w'"
  "Comment_ListVideoComments E v u p l w = (r2, w') \<Longrightarrow> keeps E w w'"
  "Comment_ListReplies E c u p l w = (r3, w') \<Longrightarrow> keeps E w w'"
  by (auto dest: Comment_CreateComment_runs Comment_lists_quiet intro: effect_all quiet_keeps)

lemma Post_keeps [op_keeps]:
  "Post_ListPostsByUser E u v p l w = (r2, w') \<Longrightarrow> keeps E w w'"
  "Post_DeletePost E u i w = (r3, w') \<Longrightarrow> keeps E w w'"
  by (auto dest: Post_ListPostsByUser_quiet Post_DeletePost_runs intro: effect_all quiet_keeps)

lemma Post_CreatePost_keeps [op_keeps]: "Post_CreatePost E u n a req w = (r, w') \<Longrightarrow> keeps E w w'"
  by (auto simp: Post_CreatePost_def NewUUID_def Now_def Let_def split: prod.splits sum.splits if_splits
      dest!: PostRepo_writes_run(1) intro: effect_all)

lemma Notification_keeps [op_keeps]:
  "Notification_ListNotifications E u p l w = (r1, w') \<Longrightarrow> keeps E w w'"
  "Notification_MarkAsRead E i u w = (r2, w') \<Longrightarrow> keeps E w w'"
  "Notification_MarkAllAsRead E u w = (r2, w') \<Longrightarrow> keeps E w w'"
  by (auto dest: Notification_ListNotifications_quiet Notification_marks_run intro: effect_all quiet_keeps)

text \<open>Chains of calls: every call of a repository keeps the invariant, and so does their sequence.\<close>

lemma Video_repo_keeps:
  "VideoRepo_GetByID E i w = (r1, w') \<Longrightarrow> keeps E w w'"
  "VideoRepo_GetByIDs E ids w = (r2, w') \<Longrightarrow> keeps E w w'"
  "VideoRepo_List E f w = (r3, w') \<Longrightarrow> keeps E w w'"
  "VideoRepo_Store E v w = (r4, w') \<Longrightarrow> keeps E w w'"
  "VideoRepo_Update E v w = (r4, w') \<Longrightarrow> keeps E w w'"
  "VideoRepo_Delete E i w = (r4, w') \<Longrightarrow> keeps E w w'"
  "PublishTranscodeJob E i k u w = (r4, w') \<Longrightarrow> keeps E w w'"
  by (auto dest: VideoRepo_GetByID_quiet VideoRepo_GetByIDs_quiet VideoRepo_List_quiet
      VideoRepo_Store_runs VideoRepo_Update_runs VideoRepo_Delete_runs intro: effect_all quiet_keeps)
    (auto simp: PublishTranscodeJob_def split: option.splits)

lemma PublishTranscodeJob_keeps [simp]: "keeps E w0 (snd (PublishTranscodeJob E i k u w)) = keeps E w0 w"
  by (simp add: PublishTranscodeJob_def split: option.splits)

lemma Video_CreateUpload_keeps [op_keeps]: "Video_CreateUpload E u req w = (r, w') \<Longrightarrow> keeps E w w'"
  by (auto simp: Video_CreateUpload_def NewUUID_def Now_def Let_def split: prod.splits sum.splits if_splits
      dest!: Video_repo_keeps)

lemma Video_edits_keep [op_keeps]:
  "Video_UpdateVideo E u i ureq w = (r1, w') \<Longrightarrow> keeps E w w'"
  "Video_UpdateThumbnail E u i th w = (r1, w') \<Longrightarrow> keeps E w w'"
  "Video_PublishVideo E u i w = (r1, w') \<Longrightarrow> keeps E w w'"
  "Video_DeleteVideo E u i w = (r2, w') \<Longrightarrow> keeps E w w'"
  by (auto simp: Video_UpdateVideo_def Video_UpdateThumbnail_def Video_PublishVideo_def Video_DeleteVideo_def Now_def Let_def
      split: prod.splits sum.splits if_splits dest!: Video_repo_keeps intro: keeps_trans)

lemma Video_jobs_keep [op_keeps]:
  "Video_ConfirmUpload E u i w = (r1, w') \<Longrightarrow> keeps E w w'"
  "Video_RetryTranscode E u i w = (r1, w') \<Longrightarrow> keeps E w w'"
  by (auto simp: Video_ConfirmUpload_def Video_RetryTranscode_def Now_def Let_def
      split: prod.splits sum.splits if_splits dest!: Video_repo_keeps intro: keeps_trans)
    (meson keeps_trans)+

lemma Video_HandleTranscodeCallback_keeps [op_keeps]:
  "Video_HandleTranscodeCallback E i st url w = (r, w') \<Longrightarrow> keeps E w w'"
  unfolding Video_HandleTranscodeCallback_def Now_def Let_def
  by (cases "VideoRepo_GetByID E i w"; cases "fst (VideoRepo_GetByID E i w)")
    (auto split: prod.splits sum.splits if_splits dest!: Video_repo_keeps intro: keeps_trans)

lemma View_keeps:
  "ViewRepo_GetTrendingVideoIDs E days l w = (r1, w') \<Longrightarrow> keeps E w w'"
  "ViewRepo_GetPendingViewsForVideo E v w = (r2, w') \<Longrightarrow> keeps E w w'"
  "ViewRepo_RecordView E v ip dev w = (r3, w') \<Longrightarrow> keeps E w w'"
  using ViewRepo_GetTrendingVideoIDs_data ViewRepo_GetPendingViewsForVideo_data ViewRepo_RecordView_effect data_same_keeps
    data_all(2) by metis+

lemma Video_RecordView_keeps [op_keeps]: "Video_RecordView E v ip dev w = (r, w') \<Longrightarrow> keeps E w w'"
  by (auto simp: Video_RecordView_def split: if_splits dest: View_keeps)

lemma Like_repo_keeps:
  "LikeRepo_GetLikeCount E v w = (r1, w') \<Longrightarrow> keeps E w w'"
  "LikeRepo_IsLikedByUser E v u w = (r2, w') \<Longrightarrow> keeps E w w'"
  "SavedVideoRepo_IsSavedByUser E v u w = (r2, w') \<Longrightarrow> keeps E w w'"
  by (auto dest: LikeRepo_reads_quiet SavedVideoRepo_IsSavedByUser_quiet intro: quiet_keeps)

lemma bind_keeps:
  "keeps E w (snd p) \<Longrightarrow> (\<And>a w1. keeps E w1 (snd (f a w1))) \<Longrightarrow> keeps E w (snd (case p of (a, w1) \<Rightarrow> f a w1))"
  by (cases p) (auto intro: keeps_trans)

lemma branch_keeps:
  "(\<And>e. keeps E w (snd (f e))) \<Longrightarrow> (\<And>x. keeps E w (snd (g x))) \<Longrightarrow> keeps E w (snd (case a of Inl e \<Rightarrow> f e | Inr x \<Rightarrow> g x))"
  "(b \<Longrightarrow> keeps E w (snd p)) \<Longrightarrow> (\<not> b \<Longrightarrow> keeps E w (snd q)) \<Longrightarrow> keeps E w (snd (if b then p else q))"
  "keeps E w w1 \<Longrightarrow> keeps E w (snd (r, w1))"
  by (auto split: sum.split)

lemma snd_keeps: "(\<And>r w'. f = (r, w') \<Longrightarrow> keeps E w w') \<Longrightarrow> keeps E w (snd f)"
  by (cases f) simp

lemma calls_keep:
  "keeps E w (snd (VideoRepo_GetByID E i w))" "keeps E w (snd (VideoRepo_GetByIDs E ids w))"
  "keeps E w (snd (ViewRepo_GetPendingViewsForVideo E i w))" "keeps E w (snd (ViewRepo_GetTrendingVideoIDs E days n w))"
  "keeps E w (snd (LikeRepo_GetLikeCount E i w))" "keeps E w (snd (LikeRepo_IsLikedByUser E i u w))"
  "keeps E w (snd (SavedVideoRepo_IsSavedByUser E i u w))"
  by (rule snd_keeps, erule Video_repo_keeps View_keeps Like_repo_keeps)+

lemma Video_GetByID_keeps [op_keeps]: "Video_GetByID E i u w = (r, w') \<Longrightarrow> keeps E w w'"
proof -
  have "keeps E w (snd (Video_GetByID E i u w))"
    unfolding Video_GetByID_def Let_def by (intro bind_keeps branch_keeps keeps_refl calls_keep)
  then show "Video_GetByID E i u w = (r, w') \<Longrightarrow> keeps E w w'" by simp
qed

lemma Video_lists_keep [op_keeps]:
  "Video_ListPublicVideos E u c q p l w = (r1, w') \<Longrightarrow> keeps E w w'"
  "Video_ListStudioVideos E u q p l w = (r1, w') \<Longrightarrow> keeps E w w'"
  "listReelsByRecency E p l w = (r1, w') \<Longrightarrow> keeps E w w'"
  by (auto simp: Video_ListPublicVideos_def Video_ListStudioVideos_def listReelsByRecency_def Let_def
      split: prod.splits sum.splits dest!: Video_repo_keeps)

text \<open>The two feeds may panic; then there is no next state.\<close>

definition opt_keeps :: "env \<Rightarrow> world \<Rightarrow> ('a \<times> world) option \<Rightarrow> bool" where
  "opt_keeps E w p \<longleftrightarrow> (\<forall>r w'. p = Some (r, w') \<longrightarrow> keeps E w w')"

lemma opt_bind_keeps:
  "keeps E w (snd p) \<Longrightarrow> (\<And>a w1. opt_keeps E w1 (f a w1)) \<Longrightarrow> opt_keeps E w (case p of (a, w1) \<Rightarrow> f a w1)"
  by (cases p) (auto simp: opt_keeps_def intro: keeps_trans)

lemma opt_branch_keeps:
  "(\<And>e. opt_keeps E w (f e)) \<Longrightarrow> (\<And>x. opt_keeps E w (g x)) \<Longrightarrow> opt_keeps E w (case a of Inl e \<Rightarrow> f e | Inr x \<Rightarrow> g x)"
  "(b \<Longrightarrow> opt_keeps E w p1) \<Longrightarrow> (\<not> b \<Longrightarrow> opt_keeps E w q1) \<Longrightarrow> opt_keeps E w (if b then p1 else q1)"
  "keeps E w (snd p) \<Longrightarrow> opt_keeps E w (Some p)" "opt_keeps E w None"
  "opt_keeps E w (map_option (\<lambda>x. (h x, w)) y)"
  by (auto simp: opt_keeps_def split: sum.split)

lemma list_calls_keep:
  "keeps E w (snd (Video_ListPublicVideos E u c q p l w))" "keeps E w (snd (listReelsByRecency E p l w))"
  by (rule snd_keeps, erule Video_lists_keep)+

lemma Video_feeds_keep [op_keeps]:
  "Video_GetTrending E win u p l w = Some (r, w') \<Longrightarrow> keeps E w w'"
  "Video_GetReelsFeed E u win p l w = Some (r, w') \<Longrightarrow> keeps E w w'"
proof -
  have "opt_keeps E w (Video_GetTrending E win u p l w)"
    unfolding Video_GetTrending_def Let_def
    by (intro opt_bind_keeps opt_branch_keeps bind_keeps branch_keeps keeps_refl calls_keep list_calls_keep)
  then show "Video_GetTrending E win u p l w = Some (r, w') \<Longrightarrow> keeps E w w'" by (simp add: opt_keeps_def)
  have "opt_keeps E w (Video_GetReelsFeed E u win p l w)"
    unfolding Video_GetReelsFeed_def Let_def
    by (intro opt_bind_keeps opt_branch_keeps bind_keeps branch_keeps keeps_refl calls_keep list_calls_keep)
  then show "Video_GetReelsFeed E u win p l w = Some (r, w') \<Longrightarrow> keeps E w w'" by (simp add: opt_keeps_def)
qed

lemma preferred_quiet: "preferred E u w = (r, w') \<Longrightarrow> quiet w w'"
  by (auto simp: preferred_def UserPreferenceRepo_GetCategories_def split: prod.splits sum.splits if_splits dest!: driver_bump)

lemma GetPersonalizedFeed_keeps [op_keeps]: "GetPersonalizedFeed E L M u p l w = Some (r, w') \<Longrightarrow> keeps E w w'"
  by (auto simp: GetPersonalizedFeed_def Let_def split: prod.splits sum.splits option.splits if_splits
      dest!: Video_repo_keeps preferred_quiet [THEN quiet_keeps] intro: keeps_trans)

lemma Subtitle_keeps [op_keeps]:
  "Subtitle_GetSubtitles E v w = (r1, w') \<Longrightarrow> keeps E w w'"
  "Subtitle_UploadSubtitles E u v en vi w = (r2, w') \<Longrightarrow> keeps E w w'"
proof -
  show "Subtitle_GetSubtitles E v w = (r1, w') \<Longrightarrow> keeps E w w'" by (blast dest: GetSubtitles_quiet intro: quiet_keeps)
  have r: "SubtitleRepo_ReplaceCues E v cues w = (r, w') \<Longrightarrow> keeps E w w'" for cues w r w'
    using ReplaceCues_spec effect_all(10) by blast
  show "Subtitle_UploadSubtitles E u v en vi w = (r2, w') \<Longrightarrow> keeps E w w'"
    by (auto simp: Subtitle_UploadSubtitles_def NewUUID_def split: prod.splits sum.splits list.splits if_splits
        dest!: Video_repo_keeps r pair_cues_content [THEN conjunct2, THEN quiet_keeps [where E = E]])
      (meson keeps_trans)+
qed

lemma Admin_keeps [op_keeps]:
  "Admin_RecordHeartbeat E hb w = (r1, w') \<Longrightarrow> keeps E w w'"
  "Admin_BanStream E i w = (r1, w') \<Longrightarrow> keeps E w w'"
  "Admin_BanVideo E i w = (r1, w') \<Longrightarrow> keeps E w w'"
  "Admin_BanUser E i w = (r1, w') \<Longrightarrow> keeps E w w'"
  "Admin_UnbanUser E i w = (r1, w') \<Longrightarrow> keeps E w w'"
  "Admin_ListUsers E p l w = (r2, w') \<Longrightarrow> keeps E w w'"
  "Admin_GetWorkersStatus E w = (r3, w') \<Longrightarrow> keeps E w w'"
  by (auto simp: Admin_BanUser_def Admin_UnbanUser_def Admin_ListUsers_def Admin_GetWorkersStatus_def
      split: prod.splits sum.splits
      dest!: RecordHeartbeat_runs Admin_BanStream_runs Admin_BanVideo_runs setUserBanned_runs UserRepo_List_quiet
        WorkerRepo_ListActive_quiet
      intro: effect_all quiet_keeps)

lemma stats_calls_keep:
  "keeps E w (snd (VideoRepo_List E f w))" "keeps E w (snd (LivestreamRepo_CountActive E w))"
  "keeps E w (snd (LivestreamRepo_SumActiveViewers E w))" "keeps E w (snd (WorkerRepo_ListActive E s w))"
  "keeps E w (snd (AdminStatsRepo_ChannelStats E w))" "keeps E w (snd (AdminStatsRepo_CategoryBreakdown E w))"
  by (rule snd_keeps, rule quiet_keeps, erule VideoRepo_List_quiet LivestreamRepo_reads_quiet WorkerRepo_ListActive_quiet AdminStats_quiet)+

lemma Admin_GetDashboard_keeps [op_keeps]: "Admin_GetDashboard E w = (r, w') \<Longrightarrow> keeps E w w'"
proof -
  have split_pair: "keeps E w (snd (case q of (a, b) \<Rightarrow> h a b))" if "\<And>a b. keeps E w (snd (h a b))"
    for q :: "Video list \<times> int" and h and w using that by (cases q) auto
  have "keeps E w (snd (Admin_GetDashboard E w))"
    unfolding Admin_GetDashboard_def
    by (rule bind_keeps, rule stats_calls_keep, rule branch_keeps, simp, rule split_pair)
      (intro bind_keeps branch_keeps keeps_refl stats_calls_keep)
  then show "Admin_GetDashboard E w = (r, w') \<Longrightarrow> keeps E w w'" by simp
qed

subsection \<open>Livestreams\<close>

text \<open>The stream operations change the timers; what they do to the rest is stated apart.\<close>

definition off_timers :: "env \<Rightarrow> world \<Rightarrow> world \<Rightarrow> bool" where
  "off_timers E w w' \<longleftrightarrow> runs (all_stmts E) (db w) (db w') \<and> hub w' = hub w \<and> chatHub w' = chatHub w \<and> notifHub w' = notifHub w"

lemma off_timers_refl [simp]: "off_timers E w w"
  by (simp add: off_timers_def)

lemma off_timers_trans: "off_timers E w w1 \<Longrightarrow> off_timers E w1 w2 \<Longrightarrow> off_timers E w w2"
  by (auto simp: off_timers_def intro: runs_trans)

lemma off_timers_simps [simp]:
  "off_timers E w (bump w') = off_timers E w w'" "off_timers E (bump w) w' = off_timers E w w'"
  "off_timers E w (w'\<lparr>pending := p\<rparr>) = off_timers E w w'" "off_timers E (w\<lparr>pending := p\<rparr>) w' = off_timers E w w'"
  "off_timers E w (w'\<lparr>timers := t\<rparr>) = off_timers E w w'" "off_timers E w (w'\<lparr>timer_seq := n\<rparr>) = off_timers E w w'"
  "off_timers E w (w'\<lparr>firing := f\<rparr>) = off_timers E w w'" "off_timers E (w\<lparr>firing := f\<rparr>) w' = off_timers E w w'"
  "off_timers E w (go_notify c w') = off_timers E w w'" "off_timers E w (stop_timer i w') = off_timers E w w'"
  by (simp_all add: off_timers_def bump_def go_notify_def stop_timer_def)

lemma effect_off: "effect S w w' \<Longrightarrow> S \<subseteq> all_stmts E \<Longrightarrow> off_timers E w w'"
  by (auto simp: off_timers_def effect_def only_dbD intro: runs_mono)

lemma replay_off: "replay_effect w w' \<Longrightarrow> off_timers E w w'"
  using runs_mono [OF _ all_stmts_sub(2)] by (cases w; cases w') (auto simp: off_timers_def replay_effect_def)

lemma live_calls_off:
  "LivestreamRepo_GetByStreamKey E k w = (r1, w') \<Longrightarrow> off_timers E w w'"
  "LivestreamRepo_Update E ls w = (r2, w') \<Longrightarrow> off_timers E w w'"
  "processDVR E ls path w = (r3, w') \<Longrightarrow> off_timers E w w'"
  by (auto dest: LivestreamRepo_reads_quiet(3) [THEN quiet_effect] LivestreamRepo_writes_run(2) processDVR_effect
      intro: replay_off effect_off [OF _ all_stmts_sub(3)])

lemma live_calls_off_snd:
  "off_timers E w0 w \<Longrightarrow> off_timers E w0 (snd (LivestreamRepo_Update E ls w))"
  "off_timers E w0 w \<Longrightarrow> off_timers E w0 (snd (processDVR E ls path w))"
  by (cases "LivestreamRepo_Update E ls w"; cases "processDVR E ls path w"; auto dest: live_calls_off intro: off_timers_trans)+

lemma finalize_off: "off_timers E w (finalizeStreamEnd E k w)"
  by (auto simp: finalizeStreamEnd_def Now_def Let_def split: option.splits prod.splits sum.splits
      dest!: live_calls_off(1) intro!: live_calls_off_snd)

lemma stream_ops_off:
  "Livestream_AuthenticateStreamKey E k w = (r1, w') \<Longrightarrow> off_timers E w w'"
  "Livestream_UnpublishStream E k w = (r2, w') \<Longrightarrow> off_timers E w w'"
  "Livestream_HandleDVRComplete E k w = (r3, w') \<Longrightarrow> off_timers E w w'"
  "fire_timer E i w = Some w' \<Longrightarrow> off_timers E w w'"
  "off_timers E w (run_callback E n w)"
proof -
  show "Livestream_AuthenticateStreamKey E k w = (r1, w') \<Longrightarrow> off_timers E w w'"
    by (auto simp: Livestream_AuthenticateStreamKey_def Now_def Let_def split: option.splits prod.splits sum.splits if_splits
        dest!: live_calls_off(1) intro!: live_calls_off_snd)
  show "Livestream_UnpublishStream E k w = (r2, w') \<Longrightarrow> off_timers E w w'"
    by (auto simp: Livestream_UnpublishStream_def Let_def split: option.splits prod.splits sum.splits if_splits
        dest!: live_calls_off(1))
  show "Livestream_HandleDVRComplete E k w = (r3, w') \<Longrightarrow> off_timers E w w'"
    by (auto simp: Livestream_HandleDVRComplete_def Let_def split: option.splits prod.splits sum.splits if_splits
        dest!: live_calls_off intro: off_timers_trans)
  show "fire_timer E i w = Some w' \<Longrightarrow> off_timers E w w'"
    by (auto simp: fire_timer_def split: option.splits if_splits)
  show "off_timers E w (run_callback E n w)"
    using finalize_off [of E "w\<lparr>firing := take n (firing w) @ drop (Suc n) (firing w)\<rparr>" "firing w ! n"]
    by (simp add: run_callback_def)
qed

lemma stream_step_keeps: "stream_step E w w' \<Longrightarrow> off_timers E w w' \<Longrightarrow> keeps E w w'"
  using step_keeps_timers_ok runs_invariant [where P = "db_ok E"] all_stmts_ok
  unfolding keeps_def world_ok_def off_timers_def by (metis (no_types, lifting))

lemma Livestream_keeps [op_keeps]:
  "Livestream_AuthenticateStreamKey E k w = (r1, w') \<Longrightarrow> keeps E w w'"
  "Livestream_UnpublishStream E k w = (r2, w') \<Longrightarrow> keeps E w w'"
  "Livestream_HandleDVRComplete E k w = (r2, w') \<Longrightarrow> keeps E w w'"
  by (blast intro: stream_step_keeps stream_ops_off stream_step.intros)+

lemma timer_steps_keep: "fire_timer E i w = Some w' \<Longrightarrow> keeps E w w'" "keeps E w (run_callback E n w)"
  by (blast intro: stream_step_keeps stream_ops_off stream_step.intros)+

lemma Livestream_rows_keep [op_keeps]:
  "Livestream_GetStreamKey E u w = (r1, w') \<Longrightarrow> keeps E w w'"
  "Livestream_ResetStreamKey E u w = (r1, w') \<Longrightarrow> keeps E w w'"
  "Livestream_UpdateStreamInfo E u req w = (r2, w') \<Longrightarrow> keeps E w w'"
  "Livestream_ReconcileLiveStreams E w = (r3, w') \<Longrightarrow> keeps E w w'"
  "Livestream_GetStreamByID E i w = (r2, w') \<Longrightarrow> keeps E w w'"
  "Livestream_ListActiveStreams E c p l w = (r4, w') \<Longrightarrow> keeps E w w'"
  by (auto dest: Livestream_GetStreamKey_runs Livestream_ResetStreamKey_runs Livestream_UpdateStreamInfo_runs
      Livestream_Reconcile_runs Livestream_lists_quiet intro: effect_all quiet_keeps)

subsection \<open>Hubs\<close>

lemma hub_keeps:
  "Hub_inv (hub w) \<longrightarrow> Hub_inv h \<Longrightarrow> keeps E w (w\<lparr>hub := h\<rparr>)"
  "ChatHub_inv (chatHub w) \<longrightarrow> ChatHub_inv c \<Longrightarrow> keeps E w (w\<lparr>chatHub := c\<rparr>)"
  "NotificationHub_inv (notifHub w) \<longrightarrow> NotificationHub_inv n \<Longrightarrow> keeps E w (w\<lparr>notifHub := n\<rparr>)"
proof -
  have t: "timers_ok (w\<lparr>hub := h\<rparr>) = timers_ok w" "timers_ok (w\<lparr>chatHub := c\<rparr>) = timers_ok w"
    "timers_ok (w\<lparr>notifHub := n\<rparr>) = timers_ok w"
    by (rule timers_ok_cong; simp add: timing_eq)+
  show "Hub_inv (hub w) \<longrightarrow> Hub_inv h \<Longrightarrow> keeps E w (w\<lparr>hub := h\<rparr>)"
    "ChatHub_inv (chatHub w) \<longrightarrow> ChatHub_inv c \<Longrightarrow> keeps E w (w\<lparr>chatHub := c\<rparr>)"
    "NotificationHub_inv (notifHub w) \<longrightarrow> NotificationHub_inv n \<Longrightarrow> keeps E w (w\<lparr>notifHub := n\<rparr>)"
    by (simp_all add: keeps_def world_ok_def t)
qed

lemma Hub_Broadcast_keeps [op_keeps]: "Hub_Broadcast m (hub w) = Some h \<Longrightarrow> keeps E w (w\<lparr>hub := h\<rparr>)"
  using Hub_Broadcast_spec [of "hub w" m] by (intro hub_keeps) auto

lemma subscriptions_keep [op_keeps]:
  "Hub_Subscribe (hub w) = (ch, h) \<Longrightarrow> keeps E w (w\<lparr>hub := h\<rparr>)"
  "Livestream_SubscribeChat E k w = (r1, w') \<Longrightarrow> keeps E w w'"
  "Notification_SubscribeNotifications E k w = (r1, w') \<Longrightarrow> keeps E w w'"
  by (auto simp: Livestream_SubscribeChat_def Notification_SubscribeNotifications_def split: if_splits prod.splits
      intro!: hub_keeps dest: Hub_Subscribe_spec(1) ChatHub_Subscribe_inv NotificationHub_Subscribe_spec(1))

lemma chat_keeps [op_keeps]:
  "Livestream_SendChatMessage E k req w = (r1, w') \<Longrightarrow> keeps E w w'"
  "Like_HeartStream E k w = (r2, w') \<Longrightarrow> keeps E w w'"
proof -
  have b: "keeps E w (Livestream_BroadcastHeart E k n w)" for w n
    using hub_keeps(2) [of "bump w"] ChatHub_Broadcast_spec [of "chatHub w"]
    by (auto simp: Livestream_BroadcastHeart_def Now_def)
  have h: "LikeRepo_IncrementHeart E k w = (r, w1) \<Longrightarrow> keeps E w w1" for r w1
    by (auto simp: LikeRepo_IncrementHeart_def split: if_splits prod.splits dest!: redis_do_data intro: data_same_keeps)
  show "Like_HeartStream E k w = (r2, w') \<Longrightarrow> keeps E w w'"
    by (auto simp: Like_HeartStream_def split: prod.splits sum.splits dest!: h intro: keeps_trans [OF _ b])
  show "Livestream_SendChatMessage E k req w = (r1, w') \<Longrightarrow> keeps E w w'"
    using hub_keeps(2) [of "bump w"] ChatHub_Broadcast_spec [of "chatHub w"]
    by (auto simp: Livestream_SendChatMessage_def Now_def Let_def split: if_splits)
qed

section \<open>Requests\<close>

text \<open>Calls whose answer a handler ignores.\<close>

lemma ignored_calls_keep:
  "keeps E w0 w \<Longrightarrow> keeps E w0 (snd (History_RecordWatch E u v n w))"
  "keeps E w0 w \<Longrightarrow> keeps E w0 (snd (Livestream_UnpublishStream E k w))"
  "keeps E w0 w \<Longrightarrow> keeps E w0 (snd (Livestream_HandleDVRComplete E k w))"
  by (cases "History_RecordWatch E u v n w"; cases "Livestream_UnpublishStream E k w"; cases "Livestream_HandleDVRComplete E k w";
      auto dest: History_keeps(1) Livestream_keeps(2,3) intro: keeps_trans)+


lemmas handler_defs = Let_def json_floats_def video_error_def

lemma social_handlers_keep_1 [op_keeps]:
  "V1_register E C r w = (rep, w') \<Longrightarrow> keeps E w w'"
  "V1_login E C r w = (rep, w') \<Longrightarrow> keeps E w w'"
  "V1_refreshToken E C r w = (rep, w') \<Longrightarrow> keeps E w w'"
  "V1_profile E uid w = (rep, w') \<Longrightarrow> keeps E w w'"
  by (auto simp: V1_register_def V1_login_def V1_refreshToken_def V1_profile_def
      handler_defs split: prod.splits sum.splits option.splits if_splits dest!: op_keeps intro: keeps_trans)

lemma social_handlers_keep_2 [op_keeps]:
  "V1_updateProfile E C r uid w = (rep, w') \<Longrightarrow> keeps E w w'"
  "V1_getChannelDetails E identifier uid w = (rep, w') \<Longrightarrow> keeps E w w'"
  "V1_toggleFollowChannel E channelID uid w = (rep, w') \<Longrightarrow> keeps E w w'"
  "V1_listFollowedChannels E r uid w = (rep, w') \<Longrightarrow> keeps E w w'"
  by (auto simp: V1_updateProfile_def V1_getChannelDetails_def V1_toggleFollowChannel_def V1_listFollowedChannels_def
      handler_defs split: prod.splits sum.splits option.splits if_splits dest!: op_keeps intro: keeps_trans)

lemma social_handlers_keep_3 [op_keeps]:
  "V1_setUserPreferences E C r uid w = (rep, w') \<Longrightarrow> keeps E w w'"
  "V1_getUserPreferences E uid w = (rep, w') \<Longrightarrow> keeps E w w'"
  "V1_saveWord E C r uid w = (rep, w') \<Longrightarrow> keeps E w w'"
  "V1_listWords E uid w = (rep, w') \<Longrightarrow> keeps E w w'"
  by (auto simp: V1_setUserPreferences_def V1_getUserPreferences_def V1_saveWord_def V1_listWords_def
      handler_defs split: prod.splits sum.splits option.splits if_splits dest!: op_keeps intro: keeps_trans)

lemma social_handlers_keep_4 [op_keeps]:
  "V1_deleteWord E i uid w = (rep, w') \<Longrightarrow> keeps E w w'"
  "V1_lookupDictionary C r w = (rep, w') \<Longrightarrow> keeps E w w'"
  "V1_toggleSaveVideo E videoID uid w = (rep, w') \<Longrightarrow> keeps E w w'"
  "V1_listSavedVideos E r uid w = (rep, w') \<Longrightarrow> keeps E w w'"
  by (auto simp: V1_deleteWord_def V1_lookupDictionary_def V1_toggleSaveVideo_def V1_listSavedVideos_def
      handler_defs split: prod.splits sum.splits option.splits if_splits dest!: op_keeps intro: keeps_trans)

lemma social_handlers_keep_5 [op_keeps]:
  "V1_toggleLikeVideo E videoID uid w = (rep, w') \<Longrightarrow> keeps E w w'"
  "V1_heartStream E streamID w = (rep, w') \<Longrightarrow> keeps E w w'"
  "V1_getWatchHistory E r uid w = (rep, w') \<Longrightarrow> keeps E w w'"
  "V1_getPersonalizedFeed E L M r uid w = (rep, w') \<Longrightarrow> keeps E w w'"
  by (auto simp: V1_toggleLikeVideo_def V1_heartStream_def V1_getWatchHistory_def V1_getPersonalizedFeed_def
      handler_defs split: prod.splits sum.splits option.splits if_splits dest!: op_keeps intro: keeps_trans)

lemma social_handlers_keep_6 [op_keeps]:
  "V1_getAdminDashboard E w = (rep, w') \<Longrightarrow> keeps E w w'"
  "V1_getAdminWorkers E w = (rep, w') \<Longrightarrow> keeps E w w'"
  "V1_banStream E streamID w = (rep, w') \<Longrightarrow> keeps E w w'"
  "V1_banVideo E videoID w = (rep, w') \<Longrightarrow> keeps E w w'"
  by (auto simp: V1_getAdminDashboard_def V1_getAdminWorkers_def V1_banStream_def V1_banVideo_def
      handler_defs split: prod.splits sum.splits option.splits if_splits dest!: op_keeps intro: keeps_trans)

lemma social_handlers_keep_7 [op_keeps]:
  "V1_recordWorkerHeartbeat E C r w = (rep, w') \<Longrightarrow> keeps E w w'"
  "V1_listAdminUsers E r w = (rep, w') \<Longrightarrow> keeps E w w'"
  "V1_banUser E userID w = (rep, w') \<Longrightarrow> keeps E w w'"
  "V1_unbanUser E userID w = (rep, w') \<Longrightarrow> keeps E w w'"
  by (auto simp: V1_recordWorkerHeartbeat_def V1_listAdminUsers_def V1_banUser_def V1_unbanUser_def
      handler_defs split: prod.splits sum.splits option.splits if_splits dest!: op_keeps intro: keeps_trans)

lemma social_handlers_keep_8 [op_keeps]:
  "V1_createComment E C r videoID uid w = (rep, w') \<Longrightarrow> keeps E w w'"
  "V1_listVideoComments E r videoID uid w = (rep, w') \<Longrightarrow> keeps E w w'"
  "V1_listCommentReplies E r parentID uid w = (rep, w') \<Longrightarrow> keeps E w w'"
  "V1_toggleLikeComment E commentID uid w = (rep, w') \<Longrightarrow> keeps E w w'"
  by (auto simp: V1_createComment_def V1_listVideoComments_def V1_listCommentReplies_def V1_toggleLikeComment_def
      handler_defs split: prod.splits sum.splits option.splits if_splits dest!: op_keeps intro: keeps_trans)

lemma social_handlers_keep_9 [op_keeps]:
  "V1_createPost E C r uid w = (rep, w') \<Longrightarrow> keeps E w w'"
  "V1_listUserPosts E r userID uid w = (rep, w') \<Longrightarrow> keeps E w w'"
  "V1_togglePostLike E postID uid w = (rep, w') \<Longrightarrow> keeps E w w'"
  "V1_deletePost E postID uid w = (rep, w') \<Longrightarrow> keeps E w w'"
  by (auto simp: V1_createPost_def V1_listUserPosts_def V1_togglePostLike_def V1_deletePost_def
      handler_defs split: prod.splits sum.splits option.splits if_splits dest!: op_keeps intro: keeps_trans)

lemma social_handlers_keep_10 [op_keeps]:
  "V1_listNotifications E r uid w = (rep, w') \<Longrightarrow> keeps E w w'"
  "V1_markNotificationRead E i uid w = (rep, w') \<Longrightarrow> keeps E w w'"
  "V1_markAllNotificationsRead E uid w = (rep, w') \<Longrightarrow> keeps E w w'"
  "V1_sseNotificationEvents E r uid w = (rep, w') \<Longrightarrow> keeps E w w'"
  by (auto simp: V1_listNotifications_def V1_markNotificationRead_def V1_markAllNotificationsRead_def V1_sseNotificationEvents_def
      handler_defs split: prod.splits sum.splits option.splits if_splits dest!: op_keeps intro: keeps_trans intro!: ignored_calls_keep)

lemma media_handlers_keep_1 [op_keeps]:
  "V1_listPublicVideos E r w = (rep, w') \<Longrightarrow> keeps E w w'"
  "V1_listTrendingVideos E r uid w = (rep, w') \<Longrightarrow> keeps E w w'"
  "V1_listReels E r uid w = (rep, w') \<Longrightarrow> keeps E w w'"
  "V1_getVideo E i uid w = (rep, w') \<Longrightarrow> keeps E w w'"
  by (auto simp: V1_listPublicVideos_def V1_listTrendingVideos_def V1_listReels_def V1_getVideo_def
      handler_defs split: prod.splits sum.splits option.splits if_splits dest!: op_keeps intro: keeps_trans intro!: ignored_calls_keep)

lemma media_handlers_keep_2 [op_keeps]:
  "V1_createVideoUpload E C r uid w = (rep, w') \<Longrightarrow> keeps E w w'"
  "V1_confirmVideoUpload E C r uid w = (rep, w') \<Longrightarrow> keeps E w w'"
  "V1_listStudioVideos E r uid w = (rep, w') \<Longrightarrow> keeps E w w'"
  "V1_transcodeCallback E C r w = (rep, w') \<Longrightarrow> keeps E w w'"
  by (auto simp: V1_createVideoUpload_def V1_confirmVideoUpload_def V1_listStudioVideos_def V1_transcodeCallback_def
      handler_defs split: prod.splits sum.splits option.splits if_splits dest!: op_keeps intro: keeps_trans intro!: ignored_calls_keep)

lemma media_handlers_keep_3 [op_keeps]:
  "V1_sseVideoEvents w = (rep, w') \<Longrightarrow> keeps E w w'"
  "V1_publishVideo E i uid w = (rep, w') \<Longrightarrow> keeps E w w'"
  "V1_recordVideoView E r videoID uid w = (rep, w') \<Longrightarrow> keeps E w w'"
  "V1_updateVideo E C r i uid w = (rep, w') \<Longrightarrow> keeps E w w'"
  by (auto simp: V1_sseVideoEvents_def V1_publishVideo_def V1_recordVideoView_def V1_updateVideo_def
      handler_defs split: prod.splits sum.splits option.splits if_splits dest!: op_keeps intro: keeps_trans intro!: ignored_calls_keep)

lemma media_handlers_keep_4 [op_keeps]:
  "V1_updateThumbnail E C r i uid w = (rep, w') \<Longrightarrow> keeps E w w'"
  "V1_deleteVideo E i uid w = (rep, w') \<Longrightarrow> keeps E w w'"
  "V1_retryTranscode E i uid w = (rep, w') \<Longrightarrow> keeps E w w'"
  "V1_getVideoSubtitles E i w = (rep, w') \<Longrightarrow> keeps E w w'"
  by (auto simp: V1_updateThumbnail_def V1_deleteVideo_def V1_retryTranscode_def V1_getVideoSubtitles_def
      handler_defs split: prod.splits sum.splits option.splits if_splits dest!: op_keeps intro: keeps_trans intro!: ignored_calls_keep)

lemma media_handlers_keep_5 [op_keeps]:
  "V1_uploadVideoSubtitles E C r i uid w = (rep, w') \<Longrightarrow> keeps E w w'"
  "V1_listActiveStreams E r w = (rep, w') \<Longrightarrow> keeps E w w'"
  "V1_getStream E i w = (rep, w') \<Longrightarrow> keeps E w w'"
  "V1_sendChatMessage E C r i w = (rep, w') \<Longrightarrow> keeps E w w'"
  by (auto simp: V1_uploadVideoSubtitles_def V1_listActiveStreams_def V1_getStream_def V1_sendChatMessage_def
      handler_defs split: prod.splits sum.splits option.splits if_splits dest!: op_keeps intro: keeps_trans intro!: ignored_calls_keep)

lemma media_handlers_keep_6 [op_keeps]:
  "V1_sseChatEvents E streamID w = (rep, w') \<Longrightarrow> keeps E w w'"
  "V1_getStreamKey E uid w = (rep, w') \<Longrightarrow> keeps E w w'"
  "V1_resetStreamKey E uid w = (rep, w') \<Longrightarrow> keeps E w w'"
  "V1_updateStreamInfo E C r uid w = (rep, w') \<Longrightarrow> keeps E w w'"
  by (auto simp: V1_sseChatEvents_def V1_getStreamKey_def V1_resetStreamKey_def V1_updateStreamInfo_def
      handler_defs split: prod.splits sum.splits option.splits if_splits dest!: op_keeps intro: keeps_trans intro!: ignored_calls_keep)

lemma media_handlers_keep_7 [op_keeps]:
  "V1_authenticateRTMPStreamKey E C r w = (rep, w') \<Longrightarrow> keeps E w w'"
  "V1_unpublishRTMPStream E C r w = (rep, w') \<Longrightarrow> keeps E w w'"
  "V1_handleDVRComplete E C r w = (rep, w') \<Longrightarrow> keeps E w w'"
  by (auto simp: V1_authenticateRTMPStreamKey_def V1_unpublishRTMPStream_def V1_handleDVRComplete_def
      handler_defs split: prod.splits sum.splits option.splits if_splits dest!: op_keeps intro: keeps_trans intro!: ignored_calls_keep)

lemma handle_keeps: "handle E C L M ep r i uid w = (rep, w') \<Longrightarrow> keeps E w w'"
  by (cases ep) (auto dest: social_handlers_keep_1 social_handlers_keep_2 social_handlers_keep_3 social_handlers_keep_4 social_handlers_keep_5 social_handlers_keep_6 social_handlers_keep_7 social_handlers_keep_8 social_handlers_keep_9 social_handlers_keep_10 media_handlers_keep_1 media_handlers_keep_2 media_handlers_keep_3 media_handlers_keep_4 media_handlers_keep_5 media_handlers_keep_6 media_handlers_keep_7)

lemma serve_keeps: "serve E C L M r w = (rep, w') \<Longrightarrow> keeps E w w'"
proof -
  assume a: "serve E C L M r w = (rep, w')"
  obtain out w1 where rt: "route E NewRouter r None w = (out, w1)" by fastforce
  have "quiet w w1" using route_guarded [OF rt quiet_refl, of "[]" "[]"] by (simp add: known_def)
  then show ?thesis
    using a rt by (cases out) (auto simp: serve_def dest: handle_keeps quiet_keeps [where E = E] intro: keeps_trans)
qed

section \<open>The service\<close>

text \<open>
  A step of the running server: a request, a timer that fires or a callback that runs, a started goroutine
  that tells the followers, a pass of the reconciliation loop, a training pass, and the reader of an event
  stream, which takes a message or, when its client is gone, unsubscribes.
\<close>

inductive service_step :: "env \<Rightarrow> rest \<Rightarrow> reclib \<Rightarrow> world \<times> recmodel \<Rightarrow> world \<times> recmodel \<Rightarrow> bool" for E C L where
  service_request: "serve E C L M r w = (rep, w') \<Longrightarrow> service_step E C L (w, M) (w', M)"
| service_timer: "fire_timer E i w = Some w' \<Longrightarrow> service_step E C L (w, M) (w', M)"
| service_callback: "service_step E C L (w, M) (run_callback E n w, M)"
| service_notify: "run_spawned E w = Some w' \<Longrightarrow> service_step E C L (w, M) (w', M)"
| service_reconcile: "Livestream_ReconcileLiveStreams E w = (r, w') \<Longrightarrow> service_step E C L (w, M) (w', M)"
| service_train: "train E L M w = (res, M', w') \<Longrightarrow> service_step E C L (w, M) (w', M')"
| service_event: "ch \<in> set (clients (hub w)) \<Longrightarrow> heap_recv ch (hub_heap (hub w)) = Some (m, hp) \<Longrightarrow>
    service_step E C L (w, M) (w\<lparr>hub := (hub w)\<lparr>hub_heap := hp\<rparr>\<rparr>, M)"
| service_chat: "ch \<in> set (room_list (rooms (chatHub w)) k) \<Longrightarrow> heap_recv ch (chat_heap (chatHub w)) = Some (c, chp) \<Longrightarrow>
    service_step E C L (w, M) (w\<lparr>chatHub := (chatHub w)\<lparr>chat_heap := chp\<rparr>\<rparr>, M)"
| service_relay: "ch \<in> set (room_list (subscribers (notifHub w)) k) \<Longrightarrow> relay ch w = Some (x, w') \<Longrightarrow>
    service_step E C L (w, M) (w', M)"
| service_leave: "ch \<in> set (clients (hub w)) \<Longrightarrow> Hub_Unsubscribe ch (hub w) = Some h \<Longrightarrow>
    service_step E C L (w, M) (w\<lparr>hub := h\<rparr>, M)"
| service_leave_chat: "ch \<in> set (room_list (rooms (chatHub w)) k) \<Longrightarrow> ChatHub_Unsubscribe k ch (chatHub w) = Some g \<Longrightarrow>
    service_step E C L (w, M) (w\<lparr>chatHub := g\<rparr>, M)"
| service_leave_notif: "NotificationHub_Unsubscribe k ch (notifHub w) = Some nh \<Longrightarrow>
    service_step E C L (w, M) (w\<lparr>notifHub := nh\<rparr>, M)"

text \<open>The server starts on any database that satisfies its schema, with empty hubs and no timers.\<close>

inductive service_reach :: "env \<Rightarrow> rest \<Rightarrow> reclib \<Rightarrow> world \<times> recmodel \<Rightarrow> bool" for E C L where
  service_start: "db_ok E d \<Longrightarrow> service_reach E C L (init_world\<lparr>tick := n, db := d, rlog := l\<rparr>, New_model)"
| service_run: "service_reach E C L s \<Longrightarrow> service_step E C L s s' \<Longrightarrow> service_reach E C L s'"

lemma notify_loop_frame:
  "notify_loop E c now fs w = Some w' \<Longrightarrow> hub w' = hub w \<and> chatHub w' = chatHub w \<and> StreamLife.timing w' = StreamLife.timing w"
proof (induction fs arbitrary: w)
  case (Cons f fs)
  obtain r w1 where st: "NotificationRepo_Store E (note_for c now (uuid E (tick w)) f) (bump w) = (r, w1)" by fastforce
  have "only_db (bump w) w1" using NotificationRepo_Store_runs [OF st] by (simp add: effect_def)
  then have w1: "hub w1 = hub w \<and> chatHub w1 = chatHub w \<and> StreamLife.timing w1 = StreamLife.timing w"
    by (auto simp: only_dbD timing_eq)
  have "\<exists>g. notify_loop E c now fs (w1\<lparr>notifHub := g\<rparr>) = Some w'"
    using Cons.prems st exI [of "\<lambda>g. notify_loop E c now fs (w1\<lparr>notifHub := g\<rparr>) = Some w'" "notifHub w1"]
    by (auto simp: NewUUID_def note_for_def [symmetric] split: if_splits option.splits)
  then show ?case using w1 Cons.IH by (fastforce simp: timing_eq)
qed simp

lemma ListFollowers_frame:
  "FollowRepo_ListFollowers E c l w = (r, w') \<Longrightarrow>
   hub w' = hub w \<and> chatHub w' = chatHub w \<and> StreamLife.timing w' = StreamLife.timing w"
  by (drule FollowRepo_reads_quiet) (simp add: timing_eq quietD)

lemma NotifyFollowers_keeps: "Notification_NotifyFollowers E c w = Some (r, w') \<Longrightarrow> keeps E w w'"
proof -
  assume a: "Notification_NotifyFollowers E c w = Some (r, w')"
  have "hub w' = hub w \<and> chatHub w' = chatHub w \<and> StreamLife.timing w' = StreamLife.timing w"
    using a by (auto simp: Notification_NotifyFollowers_def Now_def timing_eq split: if_splits prod.splits sum.splits
        dest!: ListFollowers_frame notify_loop_frame)
  moreover have "NotificationHub_inv (notifHub w) \<Longrightarrow> NotificationHub_inv (notifHub w') \<and> runs notif_stmts (db w) (db w')"
    using NotifyFollowers_total [of w E c] a by auto
  moreover have "uuid_laws E \<Longrightarrow> db_ok E (db w) \<Longrightarrow> runs notif_stmts (db w) (db w') \<Longrightarrow> db_ok E (db w')"
    using runs_invariant [where P = "db_ok E" and S = notif_stmts] all_stmts_ok all_stmts_sub(9) by blast
  ultimately show ?thesis using timers_ok_cong [of w' w] by (auto simp: keeps_def world_ok_def)
qed

lemma run_spawned_keeps: "run_spawned E w = Some w' \<Longrightarrow> keeps E w w'"
  by (auto simp: run_spawned_def split: list.splits dest!: NotifyFollowers_keeps)

text \<open>The reader of a channel, and its leaving.\<close>

lemma table_ok_recv:
  assumes "table_ok n hp t" "heap_recv i hp = Some (m, hp')"
  shows "table_ok n hp' t"
proof -
  have "hp' = hp \<or> (\<exists>c. hp' = hp[i := c] \<and> ch_cap c = ch_cap (hp ! i) \<and> ch_closed c = ch_closed (hp ! i) \<and>
      length (ch_buf c) \<le> length (ch_buf (hp ! i)))"
    using assms(2) by (cases "ch_buf (hp ! i)") (auto simp: heap_recv_def split: if_splits)
  then show ?thesis
  proof (elim disjE exE conjE)
    fix c assume c: "hp' = hp[i := c]" "ch_cap c = ch_cap (hp ! i)" "ch_closed c = ch_closed (hp ! i)"
      "length (ch_buf c) \<le> length (ch_buf (hp ! i))"
    show ?thesis
    proof (cases "i < length hp")
      case True
      have "open_ids hp' (t k)" for k
        using table_ok_open [OF assms(1), of k] c(1,3) True by (auto simp: open_ids_def nth_list_update)
      moreover have "ch_cap x = n \<and> length (ch_buf x) \<le> n" if "x \<in> set hp'" for x
        using that c table_ok_chan [OF assms(1) True] table_ok_set [OF assms(1)] set_update_subset_insert [of hp i c] by auto
      ultimately show ?thesis using table_ok_one [OF assms(1)] by (intro table_okI) blast+
    qed (use assms(1) c(1) in \<open>simp add: list_update_beyond\<close>)
  qed (use assms(1) in simp)
qed

lemma service_step_ok:
  assumes "service_step E C L (w, M) (w', M')" "uuid_laws E" "world_ok E w" "model_ok M"
  shows "world_ok E w' \<and> model_ok M'"
proof -
  have k: "world_ok E w'" if "keeps E w w'" using that assms(2,3) by (simp add: keeps_def)
  have inv: "Hub_inv (hub w)" "ChatHub_inv (chatHub w)" "NotificationHub_inv (notifHub w)"
    using assms(3) by (simp_all add: world_ok_def)
  from assms(1) show ?thesis
  proof cases
    case service_request
    then show ?thesis using k serve_keeps assms(4) by blast
  next
    case service_timer
    then show ?thesis using k timer_steps_keep assms(4) by blast
  next
    case service_callback
    then show ?thesis using k timer_steps_keep assms(4) by blast
  next
    case service_notify
    then show ?thesis using k run_spawned_keeps assms(4) by blast
  next
    case service_reconcile
    then show ?thesis using k Livestream_rows_keep(4) assms(4) by blast
  next
    case (service_train res)
    then have "quiet w w'" "model_ok M'" using train_spec [OF service_train] assms(4) by (auto split: sum.splits)
    then show ?thesis using k quiet_keeps by blast
  next
    case (service_event ch m hp)
    then have "Hub_inv ((hub w)\<lparr>hub_heap := hp\<rparr>)" using inv(1) table_ok_recv by (auto simp: Hub_inv_def)
    then show ?thesis using service_event k [unfolded service_event] hub_keeps(1) assms(4) by simp
  next
    case (service_chat ch key c hp)
    then have "ChatHub_inv ((chatHub w)\<lparr>chat_heap := hp\<rparr>)" using inv(2) table_ok_recv by (auto simp: ChatHub_inv_def)
    then show ?thesis using service_chat k [unfolded service_chat] hub_keeps(2) assms(4) by simp
  next
    case (service_relay ch key x)
    then obtain m hp where h: "heap_recv ch (notif_heap (notifHub w)) = Some (m, hp)"
      "w' = w\<lparr>notifHub := (notifHub w)\<lparr>notif_heap := hp\<rparr>\<rparr>" by (auto simp: relay_def split: option.splits)
    then have "NotificationHub_inv ((notifHub w)\<lparr>notif_heap := hp\<rparr>)"
      using inv(3) table_ok_recv by (auto simp: NotificationHub_inv_def)
    then show ?thesis using service_relay h k [unfolded h(2)] hub_keeps(3) assms(4) by simp
  next
    case (service_leave ch h)
    then have "Hub_inv h" using Hub_Unsubscribe_spec [OF inv(1)] by fastforce
    then show ?thesis using service_leave k [unfolded service_leave] hub_keeps(1) assms(4) by simp
  next
    case (service_leave_chat ch key g)
    then have "ChatHub_inv g" using ChatHub_Unsubscribe_spec [OF inv(2)] by fastforce
    then show ?thesis using service_leave_chat k [unfolded service_leave_chat] hub_keeps(2) assms(4) by simp
  next
    case (service_leave_notif key ch g)
    have "NotificationHub_inv g"
    proof (cases "ch \<in> set (room_list (subscribers (notifHub w)) key)")
      case True
      then show ?thesis using NotificationHub_Unsubscribe_spec [OF inv(3)] service_leave_notif by fastforce
    next
      case False
      moreover have "(subscribers (notifHub w))(key := None) = subscribers (notifHub w)"
        if "room_list (subscribers (notifHub w)) key = []"
        using that inv(3) by (auto simp: NotificationHub_inv_def room_list_def fun_upd_idem_iff split: option.splits)
      ultimately show ?thesis
        using service_leave_notif inv(3) by (auto simp: NotificationHub_Unsubscribe_def Let_def split: if_splits)
    qed
    then show ?thesis using service_leave_notif k [unfolded service_leave_notif] hub_keeps(3) assms(4) by simp
  qed
qed

lemma service_start_ok:
  "db_ok E d \<Longrightarrow> world_ok E (init_world\<lparr>tick := n, db := d, rlog := l\<rparr>)"
proof -
  have "timers_ok (init_world\<lparr>tick := n, db := d, rlog := l\<rparr>) = timers_ok init_world"
    by (rule timers_ok_cong) (simp add: timing_eq)
  then show "db_ok E d \<Longrightarrow> world_ok E (init_world\<lparr>tick := n, db := d, rlog := l\<rparr>)"
    by (simp add: world_ok_def timers_ok_init)
      (simp add: init_world_def Hub_inv_def ChatHub_inv_def NotificationHub_inv_def NewHub_def NewChatHub_def
        NewNotificationHub_def table_ok_def open_ids_def room_list_def)
qed

lemma service_reach_ok: "service_reach E C L s \<Longrightarrow> uuid_laws E \<Longrightarrow> world_ok E (fst s) \<and> model_ok (snd s)"
proof (induction rule: service_reach.induct)
  case (service_start d n l)
  then show ?case using service_start_ok by (simp add: New_model_def model_ok_def vectors_ok_def)
next
  case (service_run s s')
  then show ?case using service_step_ok [of E C L "fst s" "snd s" "fst s'" "snd s'"] by simp
qed

section \<open>Where a handler panics\<close>

lemma handlers_return_1:
  "snd (fst (V1_register E C r w)) \<noteq> Panicked"
  "snd (fst (V1_login E C r w)) \<noteq> Panicked"
  "snd (fst (V1_refreshToken E C r w)) \<noteq> Panicked"
  "snd (fst (V1_profile E uid w)) \<noteq> Panicked"
  "snd (fst (V1_updateProfile E C r uid w)) \<noteq> Panicked"
  "snd (fst (V1_getChannelDetails E identifier uid w)) \<noteq> Panicked"
  "snd (fst (V1_toggleFollowChannel E channelID uid w)) \<noteq> Panicked"
  "snd (fst (V1_listFollowedChannels E r uid w)) \<noteq> Panicked"
  "snd (fst (V1_setUserPreferences E C r uid w)) \<noteq> Panicked"
  by (simp_all add: V1_register_def V1_login_def V1_refreshToken_def V1_profile_def V1_updateProfile_def V1_getChannelDetails_def V1_toggleFollowChannel_def V1_listFollowedChannels_def V1_setUserPreferences_def
      handler_defs errorResponse_def split: prod.split sum.split option.split)

lemma handlers_return_2:
  "snd (fst (V1_getUserPreferences E uid w)) \<noteq> Panicked"
  "snd (fst (V1_saveWord E C r uid w)) \<noteq> Panicked"
  "snd (fst (V1_listWords E uid w)) \<noteq> Panicked"
  "snd (fst (V1_deleteWord E i uid w)) \<noteq> Panicked"
  "snd (fst (V1_lookupDictionary C r w)) \<noteq> Panicked"
  "snd (fst (V1_toggleSaveVideo E videoID uid w)) \<noteq> Panicked"
  "snd (fst (V1_listSavedVideos E r uid w)) \<noteq> Panicked"
  "snd (fst (V1_toggleLikeVideo E videoID uid w)) \<noteq> Panicked"
  "snd (fst (V1_heartStream E streamID w)) \<noteq> Panicked"
  by (simp_all add: V1_getUserPreferences_def V1_saveWord_def V1_listWords_def V1_deleteWord_def V1_lookupDictionary_def V1_toggleSaveVideo_def V1_listSavedVideos_def V1_toggleLikeVideo_def V1_heartStream_def
      handler_defs errorResponse_def split: prod.split sum.split option.split)

lemma handlers_return_3:
  "snd (fst (V1_getWatchHistory E r uid w)) \<noteq> Panicked"
  "snd (fst (V1_getAdminDashboard E w)) \<noteq> Panicked"
  "snd (fst (V1_getAdminWorkers E w)) \<noteq> Panicked"
  "snd (fst (V1_banStream E streamID w)) \<noteq> Panicked"
  "snd (fst (V1_banVideo E videoID w)) \<noteq> Panicked"
  "snd (fst (V1_recordWorkerHeartbeat E C r w)) \<noteq> Panicked"
  "snd (fst (V1_listAdminUsers E r w)) \<noteq> Panicked"
  "snd (fst (V1_banUser E userID w)) \<noteq> Panicked"
  "snd (fst (V1_unbanUser E userID w)) \<noteq> Panicked"
  by (simp_all add: V1_getWatchHistory_def V1_getAdminDashboard_def V1_getAdminWorkers_def V1_banStream_def V1_banVideo_def V1_recordWorkerHeartbeat_def V1_listAdminUsers_def V1_banUser_def V1_unbanUser_def
      handler_defs errorResponse_def split: prod.split sum.split option.split)

lemma handlers_return_4:
  "snd (fst (V1_createComment E C r videoID uid w)) \<noteq> Panicked"
  "snd (fst (V1_listVideoComments E r videoID uid w)) \<noteq> Panicked"
  "snd (fst (V1_listCommentReplies E r parentID uid w)) \<noteq> Panicked"
  "snd (fst (V1_toggleLikeComment E commentID uid w)) \<noteq> Panicked"
  "snd (fst (V1_createPost E C r uid w)) \<noteq> Panicked"
  "snd (fst (V1_listUserPosts E r userID uid w)) \<noteq> Panicked"
  "snd (fst (V1_togglePostLike E postID uid w)) \<noteq> Panicked"
  "snd (fst (V1_deletePost E postID uid w)) \<noteq> Panicked"
  "snd (fst (V1_listNotifications E r uid w)) \<noteq> Panicked"
  by (simp_all add: V1_createComment_def V1_listVideoComments_def V1_listCommentReplies_def V1_toggleLikeComment_def V1_createPost_def V1_listUserPosts_def V1_togglePostLike_def V1_deletePost_def V1_listNotifications_def
      handler_defs errorResponse_def split: prod.split sum.split option.split)

lemma handlers_return_5:
  "snd (fst (V1_markNotificationRead E i uid w)) \<noteq> Panicked"
  "snd (fst (V1_markAllNotificationsRead E uid w)) \<noteq> Panicked"
  "snd (fst (V1_sseNotificationEvents E r uid w)) \<noteq> Panicked"
  "snd (fst (V1_listPublicVideos E r w)) \<noteq> Panicked"
  "snd (fst (V1_getVideo E i uid w)) \<noteq> Panicked"
  "snd (fst (V1_createVideoUpload E C r uid w)) \<noteq> Panicked"
  "snd (fst (V1_confirmVideoUpload E C r uid w)) \<noteq> Panicked"
  "snd (fst (V1_listStudioVideos E r uid w)) \<noteq> Panicked"
  "snd (fst (V1_sseVideoEvents w)) \<noteq> Panicked"
  by (simp_all add: V1_markNotificationRead_def V1_markAllNotificationsRead_def V1_sseNotificationEvents_def V1_listPublicVideos_def V1_getVideo_def V1_createVideoUpload_def V1_confirmVideoUpload_def V1_listStudioVideos_def V1_sseVideoEvents_def
      handler_defs errorResponse_def split: prod.split sum.split option.split)

lemma handlers_return_6:
  "snd (fst (V1_publishVideo E i uid w)) \<noteq> Panicked"
  "snd (fst (V1_recordVideoView E r videoID uid w)) \<noteq> Panicked"
  "snd (fst (V1_updateVideo E C r i uid w)) \<noteq> Panicked"
  "snd (fst (V1_updateThumbnail E C r i uid w)) \<noteq> Panicked"
  "snd (fst (V1_deleteVideo E i uid w)) \<noteq> Panicked"
  "snd (fst (V1_retryTranscode E i uid w)) \<noteq> Panicked"
  "snd (fst (V1_getVideoSubtitles E i w)) \<noteq> Panicked"
  "snd (fst (V1_uploadVideoSubtitles E C r i uid w)) \<noteq> Panicked"
  "snd (fst (V1_listActiveStreams E r w)) \<noteq> Panicked"
  by (simp_all add: V1_publishVideo_def V1_recordVideoView_def V1_updateVideo_def V1_updateThumbnail_def V1_deleteVideo_def V1_retryTranscode_def V1_getVideoSubtitles_def V1_uploadVideoSubtitles_def V1_listActiveStreams_def
      handler_defs errorResponse_def split: prod.split sum.split option.split)

lemma handlers_return_7:
  "snd (fst (V1_getStream E i w)) \<noteq> Panicked"
  "snd (fst (V1_sendChatMessage E C r i w)) \<noteq> Panicked"
  "snd (fst (V1_sseChatEvents E streamID w)) \<noteq> Panicked"
  "snd (fst (V1_getStreamKey E uid w)) \<noteq> Panicked"
  "snd (fst (V1_resetStreamKey E uid w)) \<noteq> Panicked"
  "snd (fst (V1_updateStreamInfo E C r uid w)) \<noteq> Panicked"
  "snd (fst (V1_authenticateRTMPStreamKey E C r w)) \<noteq> Panicked"
  "snd (fst (V1_unpublishRTMPStream E C r w)) \<noteq> Panicked"
  "snd (fst (V1_handleDVRComplete E C r w)) \<noteq> Panicked"
  by (simp_all add: V1_getStream_def V1_sendChatMessage_def V1_sseChatEvents_def V1_getStreamKey_def V1_resetStreamKey_def V1_updateStreamInfo_def V1_authenticateRTMPStreamKey_def V1_unpublishRTMPStream_def V1_handleDVRComplete_def
      handler_defs errorResponse_def split: prod.split sum.split option.split)

lemma transcode_returns:
  assumes "uuid_laws E" "world_ok E w"
  shows "snd (fst (V1_transcodeCallback E C r w)) \<noteq> Panicked"
proof -
  have "Hub_Broadcast m (hub w1) \<noteq> None" if "Video_HandleTranscodeCallback E i st url w = (x, w1)" for i st url x w1 m
  proof -
    have "Hub_inv (hub w1)"
      using Video_HandleTranscodeCallback_keeps [OF that] assms by (simp add: keeps_def world_ok_def)
    then show ?thesis using Hub_Broadcast_spec [of "hub w1" m] by auto
  qed
  then have "\<forall>i st url x w1 m. Video_HandleTranscodeCallback E i st url w = (x, w1) \<longrightarrow> (\<exists>h. Hub_Broadcast m (hub w1) = Some h)"
    by blast
  then show ?thesis
    by (auto simp: V1_transcodeCallback_def errorResponse_def split: prod.split sum.split option.split)
      (metis option.distinct(1))
qed

lemma handle_returns:
  assumes "uuid_laws E" "world_ok E w" "snd (fst (handle E C L M ep r i uid w)) = Panicked"
  shows "ep \<in> {H_listTrendingVideos, H_listReels, H_getPersonalizedFeed}"
  using assms(3) transcode_returns [OF assms(1,2)]
  by (cases ep) (simp_all add: handlers_return_1 handlers_return_2 handlers_return_3 handlers_return_4 handlers_return_5 handlers_return_6 handlers_return_7)

lemma middleware_returns:
  "Auth E r w = (Inl rep, w') \<Longrightarrow> snd rep \<noteq> Panicked"
  "OptionalAuth E r u w = (Inl rep, w') \<Longrightarrow> snd rep \<noteq> Panicked"
  "RequireAdmin E u w = (Inl rep, w') \<Longrightarrow> snd rep \<noteq> Panicked"
  by (auto simp: Auth_def OptionalAuth_def RequireAdmin_def Let_def errorResponse_def
      split: prod.splits sum.splits option.splits if_splits)

lemma route_returns: "route E ls r u w = (Answered rep, w') \<Longrightarrow> snd rep \<noteq> Panicked"
  by (induction E ls r u w rule: route.induct)
    (auto simp: run_middleware_def split: if_splits prod.splits sum.splits option.splits middleware.splits dest: middleware_returns)

section \<open>Properties\<close>


text \<open>A server without a request body worth decoding, apart from registrations.\<close>

definition test_rest :: rest where
  "test_rest =
     \<lparr>dec_Register = \<lambda>r. Some \<lparr>reg_Username = ''ann'', reg_Email = rq_body r, reg_Password = ''secret''\<rparr>,
      dec_Login = \<lambda>_. None, dec_RefreshToken = \<lambda>_. None, dec_UpdateProfile = \<lambda>_. None, dec_SetPreferences = \<lambda>_. None,
      dec_SaveWord = \<lambda>_. None, dec_CreateComment = \<lambda>_. None, dec_CreatePost = \<lambda>_. None, dec_CreateVideoUpload = \<lambda>_. None,
      dec_ConfirmUpload = \<lambda>_. None, dec_UpdateVideo = \<lambda>_. None, dec_UpdateThumbnail = \<lambda>_. None,
      dec_TranscodeCallback = \<lambda>r. Some \<lparr>tc_VideoID = rq_body r, tc_Status = ''complete'', tc_HLSMasterURL = [], tc_ErrorMessage = []\<rparr>,
      dec_UploadSubtitles = \<lambda>_. None, dec_WorkerHeartbeat = \<lambda>_. None, dec_UpdateLivestreamInfo = \<lambda>_. None,
      dec_SendChatMessage = \<lambda>_. None, dec_StreamKeyAuth = \<lambda>_. None, email_ok = \<lambda>e. CHR ''@'' \<in> set e,
      dictionary = \<lparr>mymemory = \<lambda>_ _. None, freedict = \<lambda>_. None\<rparr>, has_hub = True\<rparr>"

definition test_request :: "meth \<Rightarrow> string list \<Rightarrow> string \<Rightarrow> request" where
  "test_request m p b =
     \<lparr>rq_method = m, rq_path = p, rq_query = \<lambda>_. [], rq_header = \<lambda>_. [], rq_form = \<lambda>_. [], rq_ip = [], rq_body = b\<rparr>"

lemma empty_db_ok: "db_ok E empty_db"
  by (simp add: db_ok_def table_ok_defs marks_ok_def empty_db_def)

abbreviation register_ann :: "reply \<times> world" where
  "register_ann \<equiv> serve test_env test_rest ref_lib New_model
     (test_request POST [''v1'', ''auth'', ''register''] ''a@x'') init_world"

lemma register_ann_reach: "service_reach test_env test_rest ref_lib (snd register_ann, New_model)"
proof -
  have "init_world\<lparr>tick := 0, db := empty_db, rlog := []\<rparr> = init_world" by (simp add: init_world_def)
  then have "service_reach test_env test_rest ref_lib (init_world, New_model)"
    using service_start [OF empty_db_ok, where E = test_env and C = test_rest and L = ref_lib and n = 0 and l = "[]"] by simp
  then show ?thesis by (rule service_run) (rule service_request, rule surjective_pairing)
qed



text \<open>An event stream is open and a transcode callback for an unknown video comes in.\<close>

abbreviation watching :: world where
  "watching \<equiv> snd (serve test_env test_rest ref_lib New_model
     (test_request GET [''v1'', ''events'', ''videos''] []) (snd register_ann))"


end
