(* ===== verification/Streams.thy ===== *)
theory Streams
  imports Livestreams Notifications
begin

text \<open>
  The event streams: what the handlers \<^verbatim>\<open>sseChatEvents\<close>, \<^verbatim>\<open>sseNotificationEvents\<close> and \<^verbatim>\<open>sseVideoEvents\<close> write into an
  open connection after they have returned.  The first part is the JSON of an event as \<^verbatim>\<open>encoding/json\<close> writes it
  and the reader that a browser's \<^verbatim>\<open>EventSource\<close> is.  The second is the chat and notification stream: the channel of
  the hub, the goroutine of the use case that maps its messages, and the writer, as one machine whose moves are
  those of the three and of the connection.  The third is the video stream, whose writer reads the hub's
  channel itself and has a ticker.
\<close>

section \<open>JSON\<close>

text \<open>
  The length of the valid UTF-8 sequence of more than one byte that a string begins with, 0 if there is none
  (\<^verbatim>\<open>utf8.DecodeRune\<close>).
\<close>

definition cont_byte :: "string \<Rightarrow> nat \<Rightarrow> nat \<Rightarrow> nat \<Rightarrow> bool" where
  "cont_byte s i lo hi \<longleftrightarrow> i < length s \<and> lo \<le> of_char (s ! i) \<and> of_char (s ! i) \<le> hi"

definition utf8_len :: "string \<Rightarrow> nat" where
  "utf8_len s =
     (let b = (if s = [] then 0 else of_char (hd s)) :: nat in
      if 0xC2 \<le> b \<and> b \<le> 0xDF then (if cont_byte s 1 0x80 0xBF then 2 else 0)
      else if 0xE0 \<le> b \<and> b \<le> 0xEF
      then (if cont_byte s 1 (if b = 0xE0 then 0xA0 else 0x80) (if b = 0xED then 0x9F else 0xBF) \<and> cont_byte s 2 0x80 0xBF
            then 3 else 0)
      else if 0xF0 \<le> b \<and> b \<le> 0xF4
      then (if cont_byte s 1 (if b = 0xF0 then 0x90 else 0x80) (if b = 0xF4 then 0x8F else 0xBF) \<and>
               cont_byte s 2 0x80 0xBF \<and> cont_byte s 3 0x80 0xBF
            then 4 else 0)
      else 0)"

text \<open>An ASCII character of a string, escaped for HTML as \<^verbatim>\<open>json.Marshal\<close> does.\<close>

definition hex_char :: "nat \<Rightarrow> char" where
  "hex_char n = (if n < 10 then digit_char n else char_of (87 + n))"

definition json_ascii :: "char \<Rightarrow> string" where
  "json_ascii c =
     (let n = (of_char c :: nat) in
      if n = 0x22 \<or> n = 0x5C then [CHR 0x5C, c]
      else if n = 0x08 then [CHR 0x5C, CHR ''b'']
      else if n = 0x0C then [CHR 0x5C, CHR ''f'']
      else if n = 0x0A then [CHR 0x5C, CHR ''n'']
      else if n = 0x0D then [CHR 0x5C, CHR ''r'']
      else if n = 0x09 then [CHR 0x5C, CHR ''t'']
      else if n < 0x20 \<or> n = 0x3C \<or> n = 0x3E \<or> n = 0x26
      then CHR 0x5C # ''u00'' @ [hex_char (n div 16), hex_char (n mod 16)]
      else [c])"

function json_chars :: "string \<Rightarrow> string" where
  "json_chars [] = []"
| "json_chars (c # cs) =
     (if of_char c < (0x80 :: nat) then json_ascii c @ json_chars cs
      else let n = utf8_len (c # cs) in
        if n = 0 then CHR 0x5C # ''ufffd'' @ json_chars cs
        else (if take 3 (c # cs) = [CHR 0xE2, CHR 0x80, CHR 0xA8] then CHR 0x5C # ''u2028''
              else if take 3 (c # cs) = [CHR 0xE2, CHR 0x80, CHR 0xA9] then CHR 0x5C # ''u2029''
              else take n (c # cs)) @ json_chars (drop (n - 1) cs))"
  by pat_completeness auto
termination by (relation "measure length") simp_all

definition json_string :: "string \<Rightarrow> string" where
  "json_string s = CHR 0x22 # json_chars s @ [CHR 0x22]"

text \<open>The fields of an object in the order of the struct; an \<^verbatim>\<open>omitempty\<close> field with its zero value is not among them.\<close>

definition json_object :: "(string \<times> string) list \<Rightarrow> string" where
  "json_object fs = CHR ''{'' # Join '','' (map (\<lambda>(k, v). json_string k @ CHR '':'' # v) fs) @ ''}''"

definition json_bool :: "bool \<Rightarrow> string" where
  "json_bool b = (if b then ''true'' else ''false'')"

definition json_chat :: "ChatMessageResponse \<Rightarrow> string" where
  "json_chat m = json_object
     ([(''stream_id'', json_string (cm_StreamID m))] @
      (if cm_Type m = [] then [] else [(''type'', json_string (cm_Type m))]) @
      [(''user'', json_object [(''name'', json_string (cm_UserName m)), (''avatar'', json_string (cm_UserAvatar m))]),
       (''text'', json_string (cm_Text m))] @
      (if cm_Value m = 0 then [] else [(''value'', itoa (cm_Value m))]) @
      [(''created_at'', json_string (cm_CreatedAt m))])"

definition json_notification :: "NotificationResponse \<Rightarrow> string" where
  "json_notification n = json_object
     [(''id'', json_string (nr_ID n)), (''user_id'', json_string (nr_UserID n)),
      (''sender'', json_object [(''id'', json_string (cr_ID (nr_Sender n))), (''name'', json_string (cr_Name (nr_Sender n))),
                                (''avatar'', json_string (cr_Avatar (nr_Sender n)))]),
      (''type'', json_string (nr_Type n)), (''title'', json_string (nr_Title n)),
      (''message'', json_string (nr_Message n)), (''target_url'', json_string (nr_TargetURL n)),
      (''is_read'', json_bool (nr_IsRead n)), (''created_at'', json_string (nr_CreatedAt n))]"

definition json_video_event :: "VideoEvent \<Rightarrow> string" where
  "json_video_event e = json_object
     ([(''video_id'', json_string (ve_VideoID e)), (''status'', json_string (ve_Status e))] @
      (if ve_HLSUrl e = [] then [] else [(''hls_url'', json_string (ve_HLSUrl e))]))"

text \<open>No JSON that a stream sends has a line end in it, whatever the strings of the event hold.\<close>

definition no_eol :: "string \<Rightarrow> bool" where
  "no_eol s \<longleftrightarrow> CHR 0x0A \<notin> set s \<and> CHR 0x0D \<notin> set s"

lemma no_eol_simps [simp]:
  "no_eol []" "no_eol (c # s) \<longleftrightarrow> c \<noteq> CHR 0x0A \<and> c \<noteq> CHR 0x0D \<and> no_eol s" "no_eol (a @ b) \<longleftrightarrow> no_eol a \<and> no_eol b"
  by (auto simp: no_eol_def)

lemma no_eol_high: "(\<And>c. c \<in> set s \<Longrightarrow> 32 \<le> (of_char c :: nat)) \<Longrightarrow> no_eol s"
  by (force simp: no_eol_def)

lemma code_lt_256: "of_char c < (256 :: nat)"
  using of_char_mod_256 [of c] by (metis mod_less_divisor zero_less_numeral)

lemma hex_char_code: "n < 16 \<Longrightarrow> 32 \<le> (of_char (hex_char n) :: nat)"
  by (simp add: hex_char_def digit_char_def)

lemma no_eol_json_ascii: "no_eol (json_ascii c)"
proof -
  have "of_char c div 16 < (16 :: nat)" using code_lt_256 [of c] by (simp add: less_mult_imp_div_less)
  then have "32 \<le> (of_char (hex_char (of_char c div 16)) :: nat)" "32 \<le> (of_char (hex_char (of_char c mod 16)) :: nat)"
    by (simp_all add: hex_char_code)
  then show ?thesis
    by (intro no_eol_high) (auto simp: json_ascii_def Let_def split: if_splits)
qed

lemma utf8_len_high:
  assumes "i < utf8_len s"
  shows "i < length s \<and> 128 \<le> (of_char (s ! i) :: nat)"
proof -
  have "i = 0 \<or> i = 1 \<or> i = 2 \<or> i = 3" using assms by (auto simp: utf8_len_def Let_def split: if_splits)
  then show ?thesis using assms
    by (elim disjE) (auto simp: utf8_len_def cont_byte_def Let_def hd_conv_nth split: if_splits)
qed

lemma no_eol_take_utf8: "no_eol (take (utf8_len s) s)"
proof (intro no_eol_high)
  fix c assume "c \<in> set (take (utf8_len s) s)"
  then obtain i where "i < utf8_len s" "c = s ! i" by (auto simp: in_set_conv_nth)
  then show "32 \<le> (of_char c :: nat)" using utf8_len_high [of i s] by simp
qed

lemma no_eol_json_chars: "no_eol (json_chars s)"
proof (induction s rule: json_chars.induct)
  case (2 c cs)
  then show ?case
    using no_eol_take_utf8 [of "c # cs"] no_eol_json_ascii [of c] by (simp add: Let_def)
qed simp

lemma no_eol_json_string [simp]: "no_eol (json_string s)"
  by (simp add: json_string_def no_eol_json_chars)

lemma no_eol_Join: "no_eol sep \<Longrightarrow> (\<And>x. x \<in> set xs \<Longrightarrow> no_eol x) \<Longrightarrow> no_eol (Join sep xs)"
  by (induction sep xs rule: Join.induct) simp_all

lemma no_eol_json_object [simp]:
  "list_all (\<lambda>(k, v). no_eol v) fs \<Longrightarrow> no_eol (json_object fs)"
  by (force simp: json_object_def list_all_iff intro!: no_eol_Join)

lemma no_eol_nat_digits: "no_eol (nat_digits n)"
proof (induction n rule: nat_digits.induct)
  case (1 n)
  then show ?case
    using no_eol_high [of "[digit_char (n mod 10)]"] no_eol_high [of "[digit_char n]"]
    by (subst nat_digits.simps) (auto simp: digit_char_def)
qed

lemma no_eol_itoa [simp]: "no_eol (itoa x)"
  by (simp add: itoa_def no_eol_nat_digits)

lemma no_eol_events [simp]: "no_eol (json_chat m)" "no_eol (json_notification n)" "no_eol (json_video_event e)"
  by (simp_all add: json_chat_def json_notification_def json_video_event_def json_bool_def)

section \<open>The client's reading of an event stream\<close>

text \<open>
  The rules of the HTML standard for \<^verbatim>\<open>text/event-stream\<close>: lines end with LF, CR or CRLF; the values of the
  \<^verbatim>\<open>data\<close> lines up to a blank one are the event; comments and other fields are no data; what follows the last
  blank line is no event yet.
\<close>

fun sse_lines :: "bool \<Rightarrow> string \<Rightarrow> string \<Rightarrow> string list" where
  "sse_lines cr cur [] = []"
| "sse_lines cr cur (c # cs) =
     (if c = CHR 0x0A then (if cr then sse_lines False [] cs else cur # sse_lines False [] cs)
      else if c = CHR 0x0D then cur # sse_lines True [] cs
      else sse_lines False (cur @ [c]) cs)"

definition sse_data :: "string \<Rightarrow> string option" where
  "sse_data l =
     (if l = ''data'' then Some []
      else if HasPrefix l ''data: '' then Some (drop 6 l)
      else if HasPrefix l ''data:'' then Some (drop 5 l) else None)"

fun sse_dispatch :: "string option \<Rightarrow> string list \<Rightarrow> string list" where
  "sse_dispatch buf [] = []"
| "sse_dispatch buf (l # ls) =
     (if l = [] then (case buf of None \<Rightarrow> [] | Some d \<Rightarrow> [d]) @ sse_dispatch None ls
      else case sse_data l of
             None \<Rightarrow> sse_dispatch buf ls
           | Some v \<Rightarrow> sse_dispatch (Some (case buf of None \<Rightarrow> v | Some d \<Rightarrow> d @ CHR 0x0A # v)) ls)"

definition sse_events :: "string \<Rightarrow> string list" where
  "sse_events s = sse_dispatch None (sse_lines False [] s)"

lemma sse_lines_line: "no_eol l \<Longrightarrow> sse_lines False cur (l @ CHR 0x0A # s) = (cur @ l) # sse_lines False [] s"
  by (induction l arbitrary: cur) simp_all

lemma sse_lines_blank: "sse_lines False [] (CHR 0x0A # s) = [] # sse_lines False [] s"
  by simp

text \<open>The two pieces the writers produce: \<^verbatim>\<open>fmt.Fprintf(w, "data: %s\n\n", data)\<close> and a comment.\<close>

definition eol2 :: string where
  "eol2 = [CHR 0x0A, CHR 0x0A]"

definition data_frame :: "string \<Rightarrow> string" where
  "data_frame d = ''data: '' @ d @ eol2"

definition comment_frame :: "string \<Rightarrow> string" where
  "comment_frame c = '': '' @ c @ eol2"

lemma sse_events_data [simp]: "no_eol d \<Longrightarrow> sse_events (data_frame d @ s) = d # sse_events s"
  using sse_lines_line [of "''data: '' @ d" "[]" "CHR 0x0A # s"]
  by (simp add: sse_events_def data_frame_def eol2_def sse_data_def HasPrefix_def)

lemma sse_events_comment [simp]: "no_eol c \<Longrightarrow> sse_events (comment_frame c @ s) = sse_events s"
  using sse_lines_line [of "'': '' @ c" "[]" "CHR 0x0A # s"]
  by (simp add: sse_events_def comment_frame_def eol2_def sse_data_def HasPrefix_def)

lemma sse_events_Nil [simp]: "sse_events [] = []"
  by (simp add: sse_events_def)

lemma sse_events_one [simp]: "no_eol d \<Longrightarrow> sse_events (data_frame d) = [d]"
  using sse_events_data [of d "[]"] by simp

lemma sse_events_frames [simp]:
  "list_all no_eol ds \<Longrightarrow> sse_events (concat (map data_frame ds) @ s) = ds @ sse_events s"
  by (induction ds) simp_all

section \<open>A stream with a relay: chat and notifications\<close>

text \<open>
  What distinguishes the two: the capacity of the hub's channel, the mapper, \<^verbatim>\<open>json.Marshal\<close> of the mapped message
  and the comment that opens the stream.
\<close>

record ('m, 'd) source =
  src_cap :: nat
  src_map :: "'m \<Rightarrow> 'd"
  src_Marshal :: "'d \<Rightarrow> string res"
  src_hello :: string

definition chat_source :: "string \<Rightarrow> (ChatMessage, ChatMessageResponse) source" where
  "chat_source streamID =
     \<lparr>src_cap = 20, src_map = ToChatMessageResponse, src_Marshal = Inr \<circ> json_chat,
      src_hello = ''connected to chat room '' @ streamID\<rparr>"

text \<open>A notification reaches the hub with the instant of \<^verbatim>\<open>time.Now().UTC()\<close>.\<close>

definition notification_source :: "string \<Rightarrow> (Notification, NotificationResponse) source" where
  "notification_source userID =
     \<lparr>src_cap = 16, src_map = ToNotificationResponse 0, src_Marshal = Inr \<circ> json_notification,
      src_hello = ''connected to notification stream for user '' @ userID\<rparr>"

text \<open>
  The relay goroutine (\<^verbatim>\<open>for msg := range raw { mapped <- \<dots> }\<close>) is at the receive, at the send with a mapped message, or
  has returned and closed \<^verbatim>\<open>mapped\<close>.  The writer has not begun, is at the receive from \<^verbatim>\<open>mapped\<close>, has a message to
  write, or has returned: after a failed flush, with the message of that flush, or at the end of \<^verbatim>\<open>mapped\<close>.
\<close>

datatype 'd relay_pc = Receiving | Sending 'd | Relay_Returned

datatype 'd writer_pc = W_Begin | W_Recv | W_Write 'd | W_Returned "'d option"

text \<open>
  The connection takes what is flushed (\<^term>\<open>st_out\<close>) until it is gone, and then every flush fails: a \<^verbatim>\<open>bufio.Writer\<close>
  keeps its error.  Of the frame whose flush fails the client may have a part, which is no event.  The last two fields are ghosts: the messages the hub has put into the channel, and those
  the writer has received.
\<close>

record ('m, 'd) stream =
  st_raw :: "'m chan"
  st_relay :: "'d relay_pc"
  st_writer :: "'d writer_pc"
  st_gone :: bool
  st_out :: string
  st_taken :: "'m list"
  st_read :: "'d list"

definition stream_start :: "('m, 'd) source \<Rightarrow> ('m, 'd) stream" where
  "stream_start S =
     \<lparr>st_raw = make_chan (src_cap S), st_relay = Receiving, st_writer = W_Begin, st_gone = False, st_out = [],
      st_taken = [], st_read = []\<rparr>"

text \<open>The deferred \<^verbatim>\<open>unsubscribe\<close> of the writer, which takes the channel out of its room and closes it.\<close>

definition leave :: "'d option \<Rightarrow> ('m, 'd) stream \<Rightarrow> ('m, 'd) stream" where
  "leave lost s = s\<lparr>st_writer := W_Returned lost, st_raw := (st_raw s)\<lparr>ch_closed := True\<rparr>\<rparr>"

definition flushed :: "string \<Rightarrow> ('m, 'd) stream \<Rightarrow> ('m, 'd) stream" where
  "flushed d s = (if st_gone s then s else s\<lparr>st_out := st_out s @ d\<rparr>)"

text \<open>
  The moves: a broadcast to the room, the relay's step (a receive, or its return at the end of the channel), the
  hand-over of a message on the unbuffered channel \<^verbatim>\<open>mapped\<close>, the writer's step, and the end of the connection.
  \<^const>\<open>None\<close> means that the move cannot happen in this state; a closed channel is in no room.
\<close>

datatype 'm stream_move = M_Broadcast 'm | M_Relay | M_Hand | M_Write | M_Gone

fun stream_step :: "('m, 'd) source \<Rightarrow> 'm stream_move \<Rightarrow> ('m, 'd) stream \<Rightarrow> ('m, 'd) stream option" where
  "stream_step S (M_Broadcast m) s =
     (if ch_closed (st_raw s) then None
      else Some (s\<lparr>st_raw := push m (st_raw s),
                   st_taken := st_taken s @ (if length (ch_buf (st_raw s)) < ch_cap (st_raw s) then [m] else [])\<rparr>))"
| "stream_step S M_Relay s =
     (if st_relay s \<noteq> Receiving then None
      else case ch_buf (st_raw s) of
             m # ms \<Rightarrow> Some (s\<lparr>st_raw := (st_raw s)\<lparr>ch_buf := ms\<rparr>, st_relay := Sending (src_map S m)\<rparr>)
           | [] \<Rightarrow> if ch_closed (st_raw s) then Some (s\<lparr>st_relay := Relay_Returned\<rparr>) else None)"
| "stream_step S M_Hand s =
     (case (st_relay s, st_writer s) of
        (Sending d, W_Recv) \<Rightarrow> Some (s\<lparr>st_relay := Receiving, st_writer := W_Write d, st_read := st_read s @ [d]\<rparr>)
      | _ \<Rightarrow> None)"
| "stream_step S M_Write s =
     (case st_writer s of
        W_Begin \<Rightarrow> Some (flushed (comment_frame (src_hello S)) (s\<lparr>st_writer := W_Recv\<rparr>))
      | W_Recv \<Rightarrow> if st_relay s = Relay_Returned then Some (leave None s) else None
      | W_Write d \<Rightarrow>
          (case src_Marshal S d of
             Inl _ \<Rightarrow> Some (s\<lparr>st_writer := W_Recv\<rparr>)
           | Inr data \<Rightarrow>
               if st_gone s then Some (leave (Some d) s)
               else Some (flushed (data_frame data) (s\<lparr>st_writer := W_Recv\<rparr>)))
      | W_Returned _ \<Rightarrow> None)"
| "stream_step S M_Gone s = Some (s\<lparr>st_gone := True\<rparr>)"

inductive stream_reach :: "('m, 'd) source \<Rightarrow> ('m, 'd) stream \<Rightarrow> bool" for S where
  stream_open: "stream_reach S (stream_start S)"
| stream_next: "stream_reach S s \<Longrightarrow> stream_step S mv s = Some s' \<Longrightarrow> stream_reach S s'"

text \<open>The same from a given state on.\<close>

inductive stream_later :: "('m, 'd) source \<Rightarrow> ('m, 'd) stream \<Rightarrow> ('m, 'd) stream \<Rightarrow> bool" for S s where
  later_refl: "stream_later S s s"
| later_step: "stream_later S s s' \<Longrightarrow> stream_step S mv s' = Some s'' \<Longrightarrow> stream_later S s s''"

fun run_moves :: "('m, 'd) source \<Rightarrow> 'm stream_move list \<Rightarrow> ('m, 'd) stream \<Rightarrow> ('m, 'd) stream option" where
  "run_moves S [] s = Some s"
| "run_moves S (mv # mvs) s = (case stream_step S mv s of None \<Rightarrow> None | Some s' \<Rightarrow> run_moves S mvs s')"

lemma run_moves_reach: "run_moves S mvs s = Some s' \<Longrightarrow> stream_reach S s \<Longrightarrow> stream_reach S s'"
  by (induction mvs arbitrary: s) (auto intro: stream_next split: option.splits)

lemma later_reach: "stream_later S s s' \<Longrightarrow> stream_reach S s \<Longrightarrow> stream_reach S s'"
  by (induction rule: stream_later.induct) (auto intro: stream_next)

text \<open>The messages on their way: with the relay, and with the writer.\<close>

definition held :: "('m, 'd) stream \<Rightarrow> 'd list" where
  "held s = (case st_relay s of Sending d \<Rightarrow> [d] | _ \<Rightarrow> [])"

definition in_writer :: "('m, 'd) stream \<Rightarrow> 'd list" where
  "in_writer s = (case st_writer s of W_Write d \<Rightarrow> [d] | W_Returned (Some d) \<Rightarrow> [d] | _ \<Rightarrow> [])"

definition payloads :: "('m, 'd) source \<Rightarrow> 'd list \<Rightarrow> string list" where
  "payloads S ds = concat (map (\<lambda>d. case src_Marshal S d of Inl _ \<Rightarrow> [] | Inr x \<Rightarrow> [x]) ds)"

lemma payloads_simps [simp]:
  "payloads S [] = []" "payloads S (a @ b) = payloads S a @ payloads S b"
  "payloads S [d] = (case src_Marshal S d of Inl _ \<Rightarrow> [] | Inr x \<Rightarrow> [x])"
  by (simp_all add: payloads_def split: sum.splits)

text \<open>
  The invariant: nothing is lost, doubled or reordered between the channel and the client, the channel is closed just
  when the writer has returned, and it returns only because the connection is gone.
\<close>

definition stream_inv :: "('m, 'd) source \<Rightarrow> ('m, 'd) stream \<Rightarrow> bool" where
  "stream_inv S s \<longleftrightarrow>
     map (src_map S) (st_taken s) = st_read s @ held s @ map (src_map S) (ch_buf (st_raw s)) \<and>
     (\<exists>hello shown. hello \<in> {[], comment_frame (src_hello S)} \<and> st_read s = shown @ in_writer s \<and>
        st_out s = hello @ concat (map data_frame (payloads S shown))) \<and>
     (st_writer s = W_Begin \<longrightarrow> st_read s = [] \<and> st_out s = []) \<and>
     length (ch_buf (st_raw s)) \<le> src_cap S \<and> ch_cap (st_raw s) = src_cap S \<and>
     (ch_closed (st_raw s) \<longleftrightarrow> (\<exists>x. st_writer s = W_Returned x)) \<and>
     (\<forall>x. st_writer s = W_Returned x \<longrightarrow> x \<noteq> None \<and> st_gone s) \<and>
     (st_relay s = Relay_Returned \<longrightarrow> ch_closed (st_raw s))"

lemmas stream_defs = leave_def flushed_def held_def in_writer_def

lemma stream_inv_start: "stream_inv S (stream_start S)"
  by (simp add: stream_inv_def stream_start_def make_chan_def held_def in_writer_def)

lemma stream_inv_step: "stream_inv S s \<Longrightarrow> stream_step S mv s = Some s' \<Longrightarrow> stream_inv S s'"
proof (cases mv)
  case (M_Broadcast m)
  assume "stream_inv S s" "stream_step S mv s = Some s'"
  then show ?thesis
    by (auto simp: M_Broadcast stream_inv_def held_def in_writer_def split: if_splits)
next
  case M_Relay
  assume "stream_inv S s" "stream_step S mv s = Some s'"
  then show ?thesis
    by (auto simp: M_Relay stream_inv_def held_def in_writer_def split: if_splits list.splits)
next
  case M_Hand
  assume i: "stream_inv S s" and st: "stream_step S mv s = Some s'"
  then obtain d where d: "st_relay s = Sending d" "st_writer s = W_Recv"
    "s' = s\<lparr>st_relay := Receiving, st_writer := W_Write d, st_read := st_read s @ [d]\<rparr>"
    by (auto simp: M_Hand split: relay_pc.splits writer_pc.splits)
  then show ?thesis using i by (simp add: stream_inv_def held_def in_writer_def)
next
  case M_Write
  assume i: "stream_inv S s" and st: "stream_step S mv s = Some s'"
  show ?thesis
  proof (cases "st_writer s")
    case W_Begin
    then show ?thesis using i st by (auto simp: M_Write stream_inv_def flushed_def held_def in_writer_def split: if_splits)
  next
    case W_Recv
    then have "st_relay s \<noteq> Relay_Returned" using i by (auto simp: stream_inv_def)
    then show ?thesis using st W_Recv by (simp add: M_Write)
  next
    case (W_Write d)
    obtain hello shown where
      h: "hello \<in> {[], comment_frame (src_hello S)}" "st_read s = shown @ [d]"
      "st_out s = hello @ concat (map data_frame (payloads S shown))"
      using i W_Write by (auto simp: stream_inv_def in_writer_def)
    have s': "s' = (case src_Marshal S d of
        Inl _ \<Rightarrow> s\<lparr>st_writer := W_Recv\<rparr>
      | Inr data \<Rightarrow> if st_gone s then leave (Some d) s
                  else s\<lparr>st_writer := W_Recv, st_out := st_out s @ data_frame data\<rparr>)"
      using st W_Write by (simp add: M_Write flushed_def split: sum.splits if_splits)
    have "\<exists>hello shown. hello \<in> {[], comment_frame (src_hello S)} \<and> st_read s' = shown @ in_writer s' \<and>
        st_out s' = hello @ concat (map data_frame (payloads S shown))"
    proof (cases "\<exists>data. src_Marshal S d = Inr data \<and> st_gone s")
      case True
      then show ?thesis using h by (intro exI [of _ hello] exI [of _ shown]) (auto simp: s' leave_def in_writer_def)
    next
      case False
      then show ?thesis using h
        by (intro exI [of _ hello] exI [of _ "shown @ [d]"]) (auto simp: s' in_writer_def split: sum.splits)
    qed
    then show ?thesis using i W_Write
      by (simp add: s' stream_inv_def leave_def held_def split: sum.splits)
  next
    case (W_Returned x)
    then show ?thesis using st by (simp add: M_Write)
  qed
next
  case M_Gone
  assume "stream_inv S s" "stream_step S mv s = Some s'"
  then show ?thesis by (auto simp: M_Gone stream_inv_def held_def in_writer_def)
qed

lemma stream_inv_reach: "stream_reach S s \<Longrightarrow> stream_inv S s"
  by (induction rule: stream_reach.induct) (auto intro: stream_inv_start stream_inv_step)

text \<open>A relay that holds a message when the writer has returned holds it for ever.\<close>

lemma relay_stuck:
  assumes "stream_later S s s'" "st_writer s = W_Returned x" "st_relay s = Sending d"
  shows "st_writer s' = W_Returned x \<and> st_relay s' = Sending d"
  using assms
proof (induction rule: stream_later.induct)
  case (later_step s' mv s'')
  then show ?case
    by (cases mv) (auto simp: flushed_def leave_def split: if_splits list.splits)
qed simp

text \<open>A writer that waits for a message of a connection that is gone: it stays, and the channel in its room, until a broadcast.\<close>

lemma quiet_stream_stays:
  assumes "st_writer s = W_Recv" "st_relay s = Receiving" "ch_buf (st_raw s) = []" "\<not> ch_closed (st_raw s)" "st_gone s"
    "stream_step S mv s = Some s'"
  shows "s' = s \<or> (\<exists>m. mv = M_Broadcast m)"
  using assms by (cases mv) (auto split: if_splits)

text \<open>Once the writer has returned the relay ends, unless a message is left for it to take.\<close>

lemma relay_returns:
  assumes "stream_reach S s" "st_writer s = W_Returned x" "st_relay s = Receiving"
  shows "(\<exists>s'. stream_step S M_Relay s = Some s' \<and> st_relay s' = Relay_Returned) \<longleftrightarrow> ch_buf (st_raw s) = []"
  using stream_inv_reach [OF assms(1)] assms(2,3) by (auto simp: stream_inv_def split: list.splits)

text \<open>What is on its way can always get through while the connection stands, without a further broadcast.\<close>

definition work_left :: "('m, 'd) stream \<Rightarrow> nat" where
  "work_left s = 3 * length (ch_buf (st_raw s)) + (case st_relay s of Sending _ \<Rightarrow> 2 | _ \<Rightarrow> 0) +
     (case st_writer s of W_Begin \<Rightarrow> 1 | W_Write _ \<Rightarrow> 1 | _ \<Rightarrow> 0)"

lemma stream_progress:
  assumes "stream_inv S s" "\<not> st_gone s" "work_left s \<noteq> 0"
  shows "\<exists>mv s'. mv \<in> {M_Relay, M_Hand, M_Write} \<and> stream_step S mv s = Some s' \<and> work_left s' < work_left s \<and>
           st_taken s' = st_taken s \<and> \<not> st_gone s'"
proof -
  have w: "st_writer s \<noteq> W_Returned x" for x using assms(1,2) by (auto simp: stream_inv_def)
  then have r: "st_relay s \<noteq> Relay_Returned" using assms(1) by (auto simp: stream_inv_def)
  show ?thesis
  proof (cases "st_writer s = W_Recv")
    case False
    then have "\<exists>s'. stream_step S M_Write s = Some s' \<and> work_left s' < work_left s \<and> st_taken s' = st_taken s \<and> \<not> st_gone s'"
      using w assms(2) by (cases "st_writer s") (auto simp: work_left_def flushed_def split: sum.splits)
    then show ?thesis by blast
  next
    case W: True
    show ?thesis
    proof (cases "st_relay s")
      case (Sending d)
      then have "\<exists>s'. stream_step S M_Hand s = Some s' \<and> work_left s' < work_left s \<and> st_taken s' = st_taken s \<and> \<not> st_gone s'"
        using W assms(2) by (simp add: work_left_def)
      then show ?thesis by blast
    next
      case Receiving
      then obtain m ms where "ch_buf (st_raw s) = m # ms"
        using assms(3) W by (cases "ch_buf (st_raw s)") (auto simp: work_left_def)
      then have "\<exists>s'. stream_step S M_Relay s = Some s' \<and> work_left s' < work_left s \<and> st_taken s' = st_taken s \<and> \<not> st_gone s'"
        using Receiving W assms(2) by (simp add: work_left_def)
      then show ?thesis by blast
    qed (use r in simp)
  qed
qed

lemma stream_drains:
  assumes "stream_inv S s" "\<not> st_gone s"
  shows "\<exists>mvs s'. set mvs \<subseteq> {M_Relay, M_Hand, M_Write} \<and> run_moves S mvs s = Some s' \<and> st_taken s' = st_taken s \<and>
           held s' = [] \<and> in_writer s' = [] \<and> ch_buf (st_raw s') = []"
  using assms
proof (induction "work_left s" arbitrary: s rule: less_induct)
  case less
  show ?case
  proof (cases "work_left s = 0")
    case True
    moreover have "st_writer s \<noteq> W_Returned x" for x using less.prems by (auto simp: stream_inv_def)
    ultimately show ?thesis
      by (intro exI [of _ "[]"] exI [of _ s])
         (auto simp: work_left_def held_def in_writer_def split: relay_pc.splits writer_pc.splits)
  next
    case False
    from stream_progress [OF less.prems False] obtain mv s1 where
      1: "mv \<in> {M_Relay, M_Hand, M_Write}" "stream_step S mv s = Some s1" "work_left s1 < work_left s"
      "st_taken s1 = st_taken s" "\<not> st_gone s1" by blast
    from less.hyps [OF 1(3) stream_inv_step [OF less.prems(1) 1(2)] 1(5)] obtain mvs s' where
      "set mvs \<subseteq> {M_Relay, M_Hand, M_Write}" "run_moves S mvs s1 = Some s'" "st_taken s' = st_taken s1"
      "held s' = []" "in_writer s' = []" "ch_buf (st_raw s') = []" by blast
    then show ?thesis using 1(1,2,4) by (intro exI [of _ "mv # mvs"] exI [of _ s']) simp
  qed
qed

locale event_source =
  fixes S :: "('m, 'd) source" and js :: "'d \<Rightarrow> string"
  assumes marshals: "src_Marshal S d = Inr (js d)"
    and js_line: "no_eol (js d)"
begin

lemma payloads_map: "payloads S ds = map js ds"
  by (induction ds) (simp_all add: payloads_def marshals)

lemma events_of_out:
  assumes "no_eol (src_hello S)" "hello \<in> {[], comment_frame (src_hello S)}"
  shows "sse_events (hello @ concat (map data_frame (payloads S ds))) = map js ds"
proof -
  have "list_all no_eol (map js ds)" by (simp add: list_all_iff js_line)
  then have "sse_events (concat (map data_frame (map js ds))) = map js ds"
    using sse_events_frames [of "map js ds" "[]"] by simp
  then show ?thesis using assms by (auto simp: payloads_map)
qed

lemma delivers_in_order:
  assumes "stream_reach S s" "no_eol (src_hello S)"
  shows "\<exists>shown. map (src_map S) (st_taken s) =
              shown @ in_writer s @ held s @ map (src_map S) (ch_buf (st_raw s)) \<and>
           sse_events (st_out s) = map js shown"
proof -
  from stream_inv_reach [OF assms(1)] obtain hello shown where
    "hello \<in> {[], comment_frame (src_hello S)}" "st_read s = shown @ in_writer s"
    "st_out s = hello @ concat (map data_frame (payloads S shown))"
    "map (src_map S) (st_taken s) = st_read s @ held s @ map (src_map S) (ch_buf (st_raw s))"
    by (auto simp: stream_inv_def)
  then show ?thesis using events_of_out [OF assms(2)] by (intro exI [of _ shown]) simp
qed

lemma gets_through:
  assumes "stream_reach S s" "no_eol (src_hello S)" "\<not> st_gone s"
  shows "\<exists>mvs s'. set mvs \<subseteq> {M_Relay, M_Hand, M_Write} \<and> run_moves S mvs s = Some s' \<and>
           sse_events (st_out s') = map (js \<circ> src_map S) (st_taken s)"
proof -
  from stream_drains [OF stream_inv_reach [OF assms(1)] assms(3)] obtain mvs s' where
    d: "set mvs \<subseteq> {M_Relay, M_Hand, M_Write}" "run_moves S mvs s = Some s'" "st_taken s' = st_taken s"
    "held s' = []" "in_writer s' = []" "ch_buf (st_raw s') = []" by blast
  from delivers_in_order [OF run_moves_reach [OF d(2) assms(1)] assms(2)] d
  have "map (src_map S) (st_taken s) = shown \<Longrightarrow> sse_events (st_out s') = map js shown" for shown by auto
  then have "sse_events (st_out s') = map js (map (src_map S) (st_taken s))" by blast
  then show ?thesis using d(1,2) by auto
qed

end

interpretation chat_events: event_source "chat_source i" json_chat for i
  by unfold_locales (simp_all add: chat_source_def)

interpretation note_events: event_source "notification_source i" json_notification for i
  by unfold_locales (simp_all add: notification_source_def)

section \<open>The channel of the hub is the channel of the machine\<close>

text \<open>
  What the hubs do to a channel of a room is what \<^const>\<open>M_Broadcast\<close> and \<^const>\<open>leave\<close> do to the channel of a stream.
\<close>

lemma table_send_nth:
  assumes "table_ok n hp t" "send_all m (t k) hp = Some hp'" "c \<in> set (t k)"
  shows "hp' ! c = push m (hp ! c)"
  using send_all_spec [OF table_ok_open [OF assms(1), of k], of m] assms(2,3) table_ok_open [OF assms(1), of k]
  by (auto simp: open_ids_def)

lemma chat_hub_is_broadcast:
  assumes "ChatHub_inv h" "c \<in> set (room_list (rooms h) i)" "st_raw s = chat_heap h ! c"
  shows "\<exists>s'. stream_step (chat_source i) (M_Broadcast m) s = Some s' \<and>
           st_raw s' = chat_heap (ChatHub_Broadcast i m h) ! c"
proof -
  have ok: "table_ok 20 (chat_heap h) (room_list (rooms h))" using assms(1) by (simp add: ChatHub_inv_def)
  from table_ok_send [OF ok, of m i] obtain hp' where hp': "send_all m (room_list (rooms h) i) (chat_heap h) = Some hp'" by blast
  obtain room where room: "rooms h i = Some room"
    using assms(2) by (cases "rooms h i") (simp_all add: room_list_def)
  then have "chat_heap (ChatHub_Broadcast i m h) = hp'"
    using fold_safeSend [OF hp'] by (simp add: ChatHub_Broadcast_def room_list_def)
  moreover have "\<not> ch_closed (chat_heap h ! c)" using table_ok_open [OF ok, of i] assms(2) by (simp add: open_ids_def)
  ultimately show ?thesis using table_send_nth [OF ok hp' assms(2)] assms(3) by simp
qed

lemma chat_hub_leave:
  assumes "ChatHub_inv h" "c \<in> set (room_list (rooms h) i)" "st_raw s = chat_heap h ! c"
  shows "\<exists>h'. ChatHub_Unsubscribe i c h = Some h' \<and> st_raw (leave x s) = chat_heap h' ! c"
proof -
  have "c < length (chat_heap h)" "\<not> ch_closed (chat_heap h ! c)"
    using assms(1,2) table_ok_open [of 20 "chat_heap h" "room_list (rooms h)" i]
    by (auto simp: ChatHub_inv_def open_ids_def)
  then show ?thesis using assms(3)
    by (auto simp: ChatHub_Unsubscribe_def Let_def heap_close_def leave_def split: option.splits)
qed

section \<open>The video stream\<close>

text \<open>
  One goroutine, which subscribes, writes a first comment and then selects between the channel and a ticker of ten
  seconds.  A failed flush ends it in every place.
\<close>

datatype video_pc = V_Begin | V_Select | V_Returned

record video_stream =
  vs_raw :: "VideoEvent chan"
  vs_pc :: video_pc
  vs_gone :: bool
  vs_out :: string
  vs_taken :: "VideoEvent list"
  vs_read :: "VideoEvent list"

definition video_start :: video_stream where
  "video_start = \<lparr>vs_raw = make_chan 10, vs_pc = V_Begin, vs_gone = False, vs_out = [], vs_taken = [], vs_read = []\<rparr>"

datatype video_move = V_Broadcast VideoEvent | V_Open | V_Event | V_Tick | V_Gone

definition video_return :: "video_stream \<Rightarrow> video_stream" where
  "video_return s = s\<lparr>vs_pc := V_Returned, vs_raw := (vs_raw s)\<lparr>ch_closed := True\<rparr>\<rparr>"

definition video_write :: "string \<Rightarrow> video_stream \<Rightarrow> video_stream" where
  "video_write d s = (if vs_gone s then video_return s else s\<lparr>vs_pc := V_Select, vs_out := vs_out s @ d\<rparr>)"

fun video_step :: "video_move \<Rightarrow> video_stream \<Rightarrow> video_stream option" where
  "video_step (V_Broadcast e) s =
     (if ch_closed (vs_raw s) then None
      else Some (s\<lparr>vs_raw := push e (vs_raw s),
                   vs_taken := vs_taken s @ (if length (ch_buf (vs_raw s)) < ch_cap (vs_raw s) then [e] else [])\<rparr>))"
| "video_step V_Open s = (if vs_pc s = V_Begin then Some (video_write (comment_frame ''connected'') s) else None)"
| "video_step V_Event s =
     (if vs_pc s \<noteq> V_Select then None
      else case ch_buf (vs_raw s) of
             e # es \<Rightarrow> Some (video_write (data_frame (json_video_event e))
                              (s\<lparr>vs_raw := (vs_raw s)\<lparr>ch_buf := es\<rparr>, vs_read := vs_read s @ [e]\<rparr>))
           | [] \<Rightarrow> if ch_closed (vs_raw s) then Some (video_return s) else None)"
| "video_step V_Tick s = (if vs_pc s = V_Select then Some (video_write (comment_frame ''ping'') s) else None)"
| "video_step V_Gone s = Some (s\<lparr>vs_gone := True\<rparr>)"

inductive video_reach :: "video_stream \<Rightarrow> bool" where
  video_open: "video_reach video_start"
| video_next: "video_reach s \<Longrightarrow> video_step mv s = Some s' \<Longrightarrow> video_reach s'"

text \<open>The client has the events that were read, but the one of the failed flush; the writer ends only when the connection is gone.\<close>

definition video_inv :: "video_stream \<Rightarrow> bool" where
  "video_inv s \<longleftrightarrow>
     vs_taken s = vs_read s @ ch_buf (vs_raw s) \<and>
     (\<exists>shown lost. vs_read s = shown @ lost \<and> length lost \<le> 1 \<and> (lost \<noteq> [] \<longrightarrow> vs_pc s = V_Returned) \<and>
        (\<forall>rest. sse_events (vs_out s @ rest) = map json_video_event shown @ sse_events rest)) \<and>
     (ch_closed (vs_raw s) \<longleftrightarrow> vs_pc s = V_Returned) \<and> (vs_pc s = V_Returned \<longrightarrow> vs_gone s)"

lemma video_inv_step:
  assumes "video_inv s" "video_step mv s = Some s'"
  shows "video_inv s'"
proof -
  obtain shown lost where
    h: "vs_read s = shown @ lost" "length lost \<le> 1" "lost \<noteq> [] \<longrightarrow> vs_pc s = V_Returned"
    "\<And>rest. sse_events (vs_out s @ rest) = map json_video_event shown @ sse_events rest"
    using assms(1) by (auto simp: video_inv_def)
  note i = assms(1) [unfolded video_inv_def]
  have writes: "video_inv (video_write d t)"
    if "lost = []" "t = s\<lparr>vs_raw := c, vs_read := shown @ es\<rparr>" "ch_closed c = ch_closed (vs_raw s)"
      "vs_taken s = shown @ es @ ch_buf c" "length es \<le> 1"
      "\<And>rest. sse_events (d @ rest) = map json_video_event es @ sse_events rest" for d t c es
    using that i h(4)
    by (cases "vs_gone s")
       (auto simp: video_inv_def video_write_def video_return_def intro: exI [of _ "shown @ es"] exI [of _ shown])
  show ?thesis
  proof (cases mv)
    case (V_Broadcast e)
    then show ?thesis using assms by (auto simp: video_inv_def split: if_splits)
  next
    case V_Open
    then have "lost = []" "s' = video_write (comment_frame ''connected'') s" using assms(2) h(3) by (auto split: if_splits)
    then show ?thesis using writes [where t = s and c = "vs_raw s" and es = "[]" and d = "comment_frame ''connected''"] i h(1) by simp
  next
    case V_Event
    then have pc: "vs_pc s = V_Select" and l: "lost = []" using assms(2) h(3) by (auto split: if_splits)
    then obtain e es where e: "ch_buf (vs_raw s) = e # es"
      using assms(2) V_Event i by (auto split: list.splits if_splits)
    then show ?thesis
      using writes [where c = "(vs_raw s)\<lparr>ch_buf := es\<rparr>" and es = "[e]" and d = "data_frame (json_video_event e)"] assms(2) V_Event pc l i h(1)
      by simp
  next
    case V_Tick
    then have "lost = []" "s' = video_write (comment_frame ''ping'') s" using assms(2) h(3) by (auto split: if_splits)
    then show ?thesis using writes [where t = s and c = "vs_raw s" and es = "[]" and d = "comment_frame ''ping''"] i h(1) by simp
  next
    case V_Gone
    then have "s' = s\<lparr>vs_gone := True\<rparr>" using assms(2) by simp
    then show ?thesis using assms(1) by (simp add: video_inv_def)
  qed
qed

lemma video_inv_reach: "video_reach s \<Longrightarrow> video_inv s"
proof (induction rule: video_reach.induct)
  case video_open
  show ?case by (simp add: video_inv_def video_start_def make_chan_def)
qed (blast intro: video_inv_step)

text \<open>Every tick finds out a connection that is gone, and gives the channel back.\<close>

theorem video_stream_exact:
  assumes "video_reach s"
  shows "(\<exists>shown lost. vs_taken s = shown @ lost @ ch_buf (vs_raw s) \<and> length lost \<le> 1 \<and>
            sse_events (vs_out s) = map json_video_event shown) \<and>
         (vs_gone s \<and> vs_pc s = V_Select \<longrightarrow> video_step V_Tick s = Some (video_return s))"
proof -
  from video_inv_reach [OF assms] obtain shown lost where
    h: "vs_taken s = (shown @ lost) @ ch_buf (vs_raw s)" "length lost \<le> 1"
    "\<And>rest. sse_events (vs_out s @ rest) = map json_video_event shown @ sse_events rest"
    by (auto simp: video_inv_def)
  from h(3) [of "[]"] have "sse_events (vs_out s) = map json_video_event shown" by simp
  then show ?thesis using h(1,2) by (auto simp: video_write_def)
qed

section \<open>Properties\<close>

text \<open>
  The \<^verbatim>\<open>user_id\<close> of the query, which the notification stream takes when nobody is logged in, stands in the opening
  comment as it is: with line ends in it the client reads events that nobody sent.
\<close>

theorem hello_forges_events:
  assumes "no_eol u" "no_eol d"
  shows "sse_events (comment_frame (src_hello (notification_source (u @ eol2 @ ''data: '' @ d)))) = [d]"
proof -
  have "comment_frame (src_hello (notification_source (u @ eol2 @ ''data: '' @ d))) =
      comment_frame (''connected to notification stream for user '' @ u) @ data_frame d"
    by (simp add: comment_frame_def data_frame_def notification_source_def eol2_def)
  then show ?thesis using assms by simp
qed

text \<open>
  The notification stream, likewise.
\<close>

theorem notification_stream_exact:
  assumes "stream_reach (notification_source i) s" "no_eol i"
  shows "\<exists>shown. map (ToNotificationResponse 0) (st_taken s) =
              shown @ in_writer s @ held s @ map (ToNotificationResponse 0) (ch_buf (st_raw s)) \<and>
           sse_events (st_out s) = map json_notification shown"
  using note_events.delivers_in_order [OF assms(1)] assms(2) by (simp add: notification_source_def)

text \<open>C13: what the client of a chat room reads from the bytes of its stream is the JSON of the messages that the hub put
  into its channel: in order, each once, whatever the texts of the messages hold, but for those still on their way
  (in the channel, with the relay, and with the writer).  While the connection stands, these get through without a
  further broadcast.  The writer returns only when the connection is gone, and a relay that holds a message
  then never returns: each later state has it blocked on its send.
\<close>

theorem chat_stream_exact:
  assumes "stream_reach (chat_source i) s" "no_eol i"
  shows "(\<exists>shown. map ToChatMessageResponse (st_taken s) =
              shown @ in_writer s @ held s @ map ToChatMessageResponse (ch_buf (st_raw s)) \<and>
            sse_events (st_out s) = map json_chat shown) \<and>
         (\<not> st_gone s \<longrightarrow> (\<exists>mvs s'. set mvs \<subseteq> {M_Relay, M_Hand, M_Write} \<and> run_moves (chat_source i) mvs s = Some s' \<and>
            sse_events (st_out s') = map (json_chat \<circ> ToChatMessageResponse) (st_taken s))) \<and>
         (\<forall>x. st_writer s = W_Returned x \<longrightarrow> st_gone s \<and>
            (\<forall>d s'. st_relay s = Sending d \<and> stream_later (chat_source i) s s' \<longrightarrow> st_relay s' = Sending d))"
proof -
  have i: "no_eol (src_hello (chat_source i))" "src_map (chat_source i) = ToChatMessageResponse"
    using assms(2) by (simp_all add: chat_source_def)
  note d = chat_events.delivers_in_order [OF assms(1) i(1)] and g = chat_events.gets_through [OF assms(1) i(1)]
  show ?thesis
    using d g relay_stuck [of "chat_source i" s] stream_inv_reach [OF assms(1)] by (auto simp: i(2) stream_inv_def)
qed

text \<open>Two messages, the connection goes, the writer fails on the first: the relay is left with the second.\<close>

definition hostile_chat :: ChatMessage where
  "hostile_chat = \<lparr>StreamID = ''s1'', Type = ''chat'', Username = ''eve'', Avatar = ''e'',
     Text = ''a'' @ eol2 @ ''data: forged'', Value = 0, CreatedAt = ''10:00:00''\<rparr>"

definition leak_moves :: "ChatMessage stream_move list" where
  "leak_moves = [M_Write, M_Broadcast hostile_chat, M_Broadcast hostile_chat, M_Relay, M_Hand, M_Write,
     M_Relay, M_Broadcast hostile_chat, M_Hand, M_Relay, M_Gone, M_Write]"

theorem chat_stream_exact_witness:
  "\<exists>s d. run_moves (chat_source ''s1'') leak_moves (stream_start (chat_source ''s1'')) = Some s \<and>
     sse_events (st_out s) = [json_chat (ToChatMessageResponse hostile_chat)] \<and>
     st_relay s = Sending d \<and> {s'. stream_later (chat_source ''s1'') s s'} \<subseteq> {s'. st_relay s' = Sending d}"
proof -
  define s where "s = the (run_moves (chat_source ''s1'') leak_moves (stream_start (chat_source ''s1'')))"
  define d where "d = ToChatMessageResponse hostile_chat"
  have r: "run_moves (chat_source ''s1'') leak_moves (stream_start (chat_source ''s1'')) = Some s"
    "st_relay s = Sending d" "st_writer s = W_Returned (Some d)" "in_writer s = [d]" "held s = [d]"
    "ch_buf (st_raw s) = []" "map ToChatMessageResponse (st_taken s) = [d, d, d]"
    by (simp_all add: s_def d_def leak_moves_def stream_start_def chat_source_def make_chan_def push_def flushed_def
        leave_def in_writer_def held_def)
  have "stream_reach (chat_source ''s1'') s" by (rule run_moves_reach [OF r(1) stream_open])
  from chat_stream_exact [OF this] show ?thesis using r by (auto simp: d_def)
qed

end
