(* ===== verification/Grpc.thy ===== *)
theory Grpc
  imports RestSocial
begin

text \<open>
  The account API over gRPC: the authentication interceptor (\<^verbatim>\<open>controller/grpc/middleware\<close>), the service
  (\<^verbatim>\<open>controller/grpc/v1\<close>) and its mapper (\<^verbatim>\<open>controller/grpc/v1/response\<close>).  The messages are those of
  \<^verbatim>\<open>docs/proto/v1\<close>; the generated code decodes one and hands it to the interceptor with the name of the method
  and the method of the service.
\<close>

section \<open>Messages\<close>

datatype grpc_request =
    RegisterRequest string string string
  | LoginRequest string string
  | GetProfileRequest

record UserMessage =
  um_Id :: string
  um_Username :: string
  um_Email :: string
  um_CreatedAt :: string
  um_UpdatedAt :: string

datatype grpc_response =
    RegisterResponse UserMessage
  | LoginResponse string
  | GetProfileResponse UserMessage

datatype grpc_code = AlreadyExists | Unauthenticated | NotFound | Internal

type_synonym grpc_result = "(grpc_code \<times> string) + grpc_response"

text \<open>
  A context: the incoming metadata, when there is any, as what \<^verbatim>\<open>md.Get\<close> answers for a key, and the value under
  \<^verbatim>\<open>userIDKey\<close>.
\<close>

record grpc_context =
  gc_metadata :: "(string \<Rightarrow> string list) option"
  gc_userID :: "string option"

definition UserIDFromContext :: "grpc_context \<Rightarrow> string option" where
  "UserIDFromContext ctx = gc_userID ctx"

section \<open>Interceptor\<close>

type_synonym grpc_handler = "grpc_context \<Rightarrow> world \<Rightarrow> grpc_result \<times> world"

definition skipAuthMethods :: "string set" where
  "skipAuthMethods = {''/grpc.v1.AuthService/Register'', ''/grpc.v1.AuthService/Login''}"

definition AuthInterceptor :: "env \<Rightarrow> string \<Rightarrow> grpc_handler \<Rightarrow> grpc_handler" where
  "AuthInterceptor E fullMethod handler ctx w =
     (if fullMethod \<in> skipAuthMethods then handler ctx w
      else case gc_metadata ctx of
        None \<Rightarrow> (Inl (Unauthenticated, ''missing metadata''), w)
      | Some md \<Rightarrow>
          (case md ''authorization'' of
             [] \<Rightarrow> (Inl (Unauthenticated, ''missing authorization token''), w)
           | token # _ \<Rightarrow>
               (case ParseToken E token w of
                  (Inl err, w) \<Rightarrow> (Inl (Unauthenticated, ''invalid or expired token''), w)
                | (Inr userID, w) \<Rightarrow> handler (ctx\<lparr>gc_userID := Some userID\<rparr>) w)))"

section \<open>Service\<close>

definition user_message :: "User \<Rightarrow> UserMessage" where
  "user_message u = \<lparr>um_Id = u_ID u, um_Username = u_Username u, um_Email = u_Email u,
     um_CreatedAt = format_date (u_CreatedAt u) @ ''T'' @ format_clock (u_CreatedAt u) @ ''Z'',
     um_UpdatedAt = format_date (u_UpdatedAt u) @ ''T'' @ format_clock (u_UpdatedAt u) @ ''Z''\<rparr>"

definition NewRegisterResponse :: "User \<Rightarrow> grpc_response" where
  "NewRegisterResponse user = RegisterResponse (user_message user)"

definition NewGetProfileResponse :: "User \<Rightarrow> grpc_response" where
  "NewGetProfileResponse user = GetProfileResponse (user_message user)"

definition AuthController_Register :: "env \<Rightarrow> string \<Rightarrow> string \<Rightarrow> string \<Rightarrow> grpc_handler" where
  "AuthController_Register E username email password ctx w =
     (case User_Register E username email password w of
        (Inl err, w) \<Rightarrow>
          (if errors_Is err ErrUserAlreadyExists then Inl (AlreadyExists, ''user already exists'')
           else Inl (Internal, ''internal server error''), w)
      | (Inr user, w) \<Rightarrow> (Inr (NewRegisterResponse user), w))"

definition AuthController_Login :: "env \<Rightarrow> string \<Rightarrow> string \<Rightarrow> grpc_handler" where
  "AuthController_Login E email password ctx w =
     (case User_Login E email password w of
        (Inl err, w) \<Rightarrow>
          (if errors_Is err ErrInvalidCredentials then Inl (Unauthenticated, ''invalid credentials'')
           else Inl (Internal, ''internal server error''), w)
      | (Inr token, w) \<Rightarrow> (Inr (LoginResponse token), w))"

definition AuthController_GetProfile :: "env \<Rightarrow> grpc_handler" where
  "AuthController_GetProfile E ctx w =
     (case UserIDFromContext ctx of
        None \<Rightarrow> (Inl (Unauthenticated, ''unauthorized''), w)
      | Some userID \<Rightarrow>
          (case User_GetUser E userID w of
             (Inl err, w) \<Rightarrow>
               (if errors_Is err ErrUserNotFound then Inl (NotFound, ''user not found'')
                else Inl (Internal, ''internal server error''), w)
           | (Inr user, w) \<Rightarrow> (Inr (NewGetProfileResponse user), w)))"

text \<open>The server with its interceptor and the one registered service.\<close>

fun serve_grpc :: "env \<Rightarrow> grpc_request \<Rightarrow> grpc_context \<Rightarrow> world \<Rightarrow> grpc_result \<times> world" where
  "serve_grpc E (RegisterRequest username email password) ctx w =
     AuthInterceptor E ''/grpc.v1.AuthService/Register'' (AuthController_Register E username email password) ctx w"
| "serve_grpc E (LoginRequest email password) ctx w =
     AuthInterceptor E ''/grpc.v1.AuthService/Login'' (AuthController_Login E email password) ctx w"
| "serve_grpc E GetProfileRequest ctx w =
     AuthInterceptor E ''/grpc.v1.AuthService/GetProfile'' (AuthController_GetProfile E) ctx w"

lemma skip_simps [simp]:
  "''/grpc.v1.AuthService/Register'' \<in> skipAuthMethods" "''/grpc.v1.AuthService/Login'' \<in> skipAuthMethods"
  "''/grpc.v1.AuthService/GetProfile'' \<notin> skipAuthMethods"
  by (simp_all add: skipAuthMethods_def)

lemma User_GetUser_Inr:
  assumes "User_GetUser E i w = (Inr u, w')"
  shows "u \<in> set (users (db w)) \<and> (uuid_norm E i = Some (u_ID u) \<or> u_Username u = i)"
proof -
  obtain r1 w1 where g: "UserRepo_getUser E Col_id i w = (r1, w1)" by fastforce
  show ?thesis
  proof (cases r1)
    case (Inr v)
    then have "v = u" using g assms by (simp add: User_GetUser_def user_read_defs)
    with UserRepo_getUser_Inr g Inr show ?thesis
      by (fastforce simp: select_user_def split: option.splits dest: row_at_Some)
  next
    case (Inl e)
    then obtain w2 where "UserRepo_getUser E Col_username i w1 = (Inr u, w2)"
      using g assms by (auto simp: User_GetUser_def user_read_defs split: prod.splits sum.splits)
    moreover have "db w1 = db w" using UserRepo_getUser_quiet [OF g] by (simp add: quietD)
    ultimately show ?thesis by (auto simp: select_user_def dest!: UserRepo_getUser_Inr row_at_Some)
  qed
qed

section \<open>Properties\<close>

text \<open>C10: over gRPC a profile is answered only to a call whose first authorization value is a token that the key
  verifies, it is the profile of an account that the token names, and the call writes nothing; a call that is not
  let through neither reads nor writes the database.\<close>

theorem grpc_profile_guarded:
  assumes "gc_userID ctx = None" "serve_grpc E GetProfileRequest ctx w = (r, w')"
  shows "quiet w w' \<and>
    (case r of
       Inr resp \<Rightarrow> (\<exists>md token vs sub w1 u. gc_metadata ctx = Some md \<and> md ''authorization'' = token # vs \<and>
          ParseToken E token w = (Inr sub, w1) \<and> u \<in> set (users (db w)) \<and>
          (uuid_norm E sub = Some (u_ID u) \<or> u_Username u = sub) \<and> resp = NewGetProfileResponse u)
     | Inl (code, m) \<Rightarrow> code = Unauthenticated \<longleftrightarrow>
          \<not> (\<exists>md token vs sub w1. gc_metadata ctx = Some md \<and> md ''authorization'' = token # vs \<and>
                ParseToken E token w = (Inr sub, w1)))"
proof -
  consider "\<not> (\<exists>md token vs. gc_metadata ctx = Some md \<and> md ''authorization'' = token # vs)"
    | md token vs err w1 where "gc_metadata ctx = Some md" "md ''authorization'' = token # vs" "ParseToken E token w = (Inl err, w1)"
    | md token vs sub w1 where "gc_metadata ctx = Some md" "md ''authorization'' = token # vs" "ParseToken E token w = (Inr sub, w1)"
    by (metis neq_Nil_conv prod.exhaust sum.exhaust)
  then show ?thesis
  proof cases
    case 1
    then have "\<exists>m. r = Inl (Unauthenticated, m) \<and> w' = w"
      using assms(2) by (auto simp: AuthInterceptor_def split: option.splits list.splits)
    with 1 show ?thesis by auto
  next
    case 2
    then show ?thesis using assms(2) ParseToken_quiet [OF 2(3)] by (auto simp: AuthInterceptor_def)
  next
    case 3
    obtain x w2 where g: "User_GetUser E sub w1 = (x, w2)" by fastforce
    have q: "quiet w w1" "quiet w1 w2" using ParseToken_quiet [OF 3(3)] User_GetUser_quiet [OF g] .
    show ?thesis
    proof (cases x)
      case (Inl e)
      then show ?thesis
        using 3 g q assms(2) quiet_trans [OF q]
        by (auto simp: AuthInterceptor_def AuthController_GetProfile_def UserIDFromContext_def)
    next
      case (Inr u)
      have "u \<in> set (users (db w)) \<and> (uuid_norm E sub = Some (u_ID u) \<or> u_Username u = sub)"
        using User_GetUser_Inr [of E sub w1 u w2] g Inr q(1) by (simp add: quietD)
      then show ?thesis
        using 3 g Inr assms(2) quiet_trans [OF q]
        by (auto simp: AuthInterceptor_def AuthController_GetProfile_def UserIDFromContext_def)
    qed
  qed
qed

theorem grpc_profile_guarded_witness:
  "fst (serve_grpc test_env GetProfileRequest \<lparr>gc_metadata = Some (\<lambda>_. [''tu-ann'']), gc_userID = None\<rparr> ann_world)
     = Inr (NewGetProfileResponse ann)"
proof -
  let ?ctx = "\<lparr>gc_metadata = Some (\<lambda>_. [''tu-ann'']), gc_userID = None\<rparr>"
  obtain r w' where r: "serve_grpc test_env GetProfileRequest ?ctx ann_world = (r, w')" by fastforce
  have "\<not> isl (fst (serve_grpc test_env GetProfileRequest ?ctx ann_world))" by code_simp
  then obtain resp where resp: "r = Inr resp" using r by (cases r) auto
  from grpc_profile_guarded [OF _ r] obtain u where "u \<in> set (users (db ann_world))" "resp = NewGetProfileResponse u"
    unfolding resp by auto
  then show ?thesis using r resp by (simp add: ann_world_def)
qed



end
