(* ===== verification/Rpc.thy ===== *)
theory Rpc
  imports Rest
begin

text \<open>
  The account API over message brokers: the carriers of trace context, the controllers
  (\<^verbatim>\<open>controller/nats_rpc\<close>, \<^verbatim>\<open>controller/amqp_rpc\<close>), the servers that dispatch a message to its handler and
  publish the reply, and the NATS client (\<^verbatim>\<open>pkg/nats/nats_rpc\<close>, \<^verbatim>\<open>pkg/rabbitmq/rmq_rpc\<close>).  JSON, the
  header type of the NATS library and the broker are outside the repository and parameters here.
\<close>

section \<open>Trace context in message headers\<close>

text \<open>
  Both libraries' headers are maps.  \<^verbatim>\<open>nats.Header\<close> has a list of strings per key, \<^verbatim>\<open>amqp.Table\<close> a value of
  any type.  The order in which \<^verbatim>\<open>Keys\<close> lists a Go map is arbitrary: it is the set of the keys.
\<close>

type_synonym nats_header = "string \<Rightarrow> string list option"

definition HeaderCarrier_Get :: "nats_header \<Rightarrow> string \<Rightarrow> string" where
  "HeaderCarrier_Get c key =
     (case c key of None \<Rightarrow> [] | Some values \<Rightarrow> (case values of [] \<Rightarrow> [] | v # _ \<Rightarrow> v))"

definition HeaderCarrier_Set :: "string \<Rightarrow> string \<Rightarrow> nats_header \<Rightarrow> nats_header" where
  "HeaderCarrier_Set key val c = c(key \<mapsto> [val])"

definition HeaderCarrier_Keys :: "nats_header \<Rightarrow> string set" where
  "HeaderCarrier_Keys c = {k. c k \<noteq> None}"

datatype amqp_value = AStr string | AInt int | ABool bool | ABytes string

type_synonym amqp_table = "string \<Rightarrow> amqp_value option"

definition TableCarrier_Get :: "amqp_table \<Rightarrow> string \<Rightarrow> string" where
  "TableCarrier_Get c key =
     (case c key of None \<Rightarrow> [] | Some v \<Rightarrow> (case v of AStr s \<Rightarrow> s | _ \<Rightarrow> []))"

definition TableCarrier_Set :: "string \<Rightarrow> string \<Rightarrow> amqp_table \<Rightarrow> amqp_table" where
  "TableCarrier_Set key val c = c(key \<mapsto> AStr val)"

definition TableCarrier_Keys :: "amqp_table \<Rightarrow> string set" where
  "TableCarrier_Keys c = {k. c k \<noteq> None}"

text \<open>
  What a propagator needs of a carrier.  It writes its fields one after the other on the sending side
  (\<^verbatim>\<open>Inject\<close>) and reads them on the receiving side.
\<close>

definition Inject :: "(string \<Rightarrow> string \<Rightarrow> 'h \<Rightarrow> 'h) \<Rightarrow> (string \<times> string) list \<Rightarrow> 'h \<Rightarrow> 'h" where
  "Inject set_field pairs h = foldl (\<lambda>h (k, v). set_field k v h) h pairs"

lemma Inject_simps [simp]:
  "Inject f [] h = h" "Inject f ((k, v) # fs) h = Inject f fs (f k v h)"
  by (simp_all add: Inject_def)

locale carrier =
  fixes get_field :: "'h \<Rightarrow> string \<Rightarrow> string"
    and set_field :: "string \<Rightarrow> string \<Rightarrow> 'h \<Rightarrow> 'h"
    and field_keys :: "'h \<Rightarrow> string set"
  assumes get_set: "get_field (set_field k v h) k' = (if k' = k then v else get_field h k')"
    and keys_set: "field_keys (set_field k v h) = insert k (field_keys h)"
    and get_missing: "k \<notin> field_keys h \<Longrightarrow> get_field h k = []"
begin

lemma get_inject_other: "k \<notin> fst ` set pairs \<Longrightarrow> get_field (Inject set_field pairs h) k = get_field h k"
  by (induction pairs arbitrary: h) (auto simp: get_set)

lemma keys_inject: "field_keys (Inject set_field pairs h) = fst ` set pairs \<union> field_keys h"
  by (induction pairs arbitrary: h) (auto simp: keys_set, force)

lemma get_inject: "distinct (map fst pairs) \<Longrightarrow> (k, v) \<in> set pairs \<Longrightarrow> get_field (Inject set_field pairs h) k = v"
  by (induction pairs arbitrary: h) (auto simp: get_set get_inject_other)

lemma extracted:
  assumes "distinct (map fst pairs)"
  shows "(\<forall>(k, v) \<in> set pairs. k \<in> field_keys (Inject set_field pairs h) \<and> get_field (Inject set_field pairs h) k = v) \<and>
    (\<forall>k. k \<notin> fst ` set pairs \<longrightarrow> get_field (Inject set_field pairs h) k = get_field h k)"
  using get_inject [OF assms] get_inject_other by (auto simp: keys_inject intro: rev_image_eqI)

end

interpretation nats_carrier: carrier HeaderCarrier_Get HeaderCarrier_Set HeaderCarrier_Keys
  by unfold_locales (auto simp: HeaderCarrier_Get_def HeaderCarrier_Set_def HeaderCarrier_Keys_def)

interpretation amqp_carrier: carrier TableCarrier_Get TableCarrier_Set TableCarrier_Keys
  by unfold_locales (auto simp: TableCarrier_Get_def TableCarrier_Set_def TableCarrier_Keys_def)

section \<open>Messages, codecs, errors\<close>

text \<open>
  The result of a handler, a Go \<^verbatim>\<open>any\<close>; the sentinel errors and the status of a success, the same in
  \<^verbatim>\<open>natsrpc\<close> and \<^verbatim>\<open>rmqrpc\<close>.
\<close>

datatype rpc_result = RUser User | RToken string

definition ErrTimeout :: goerr where "ErrTimeout = NewErr ''timeout''"
definition ErrInternalServer :: goerr where "ErrInternalServer = NewErr ''internal server error''"
definition ErrBadHandler :: goerr where "ErrBadHandler = NewErr ''unregistered handler''"
definition rpc_Success :: string where "rpc_Success = ''success''"

definition DeadlineExceeded :: goerr where "DeadlineExceeded = ExtErr ''context deadline exceeded''"

fun Error_text :: "goerr \<Rightarrow> string" where
  "Error_text (NewErr m) = m"
| "Error_text e = []"

record nats_msg =
  nm_Subject :: string
  nm_Reply :: string
  nm_Header :: nats_header
  nm_Data :: string

record delivery =
  dl_Type :: string
  dl_CorrelationId :: string
  dl_ReplyTo :: string
  dl_Headers :: amqp_table
  dl_Body :: string

text \<open>
  \<^verbatim>\<open>json.Unmarshal\<close> into each DTO, \<^verbatim>\<open>json.Marshal\<close> of a result, the validator's e-mail check, and
  \<^verbatim>\<open>Get\<close> and \<^verbatim>\<open>Set\<close> of \<^verbatim>\<open>nats.Header\<close>.
\<close>

record codec =
  un_Register :: "string \<Rightarrow> Register res"
  un_Login :: "string \<Rightarrow> LoginReq res"
  un_Authenticated :: "string \<Rightarrow> (string \<times> string) res"
  en_Result :: "rpc_result \<Rightarrow> string res"
  rpc_email :: "string \<Rightarrow> bool"
  hdr_get :: "nats_header \<Rightarrow> string \<Rightarrow> string"
  hdr_set :: "nats_header \<Rightarrow> string \<Rightarrow> string \<Rightarrow> nats_header"

text \<open>The password hash carries the tag \<^verbatim>\<open>json:"-"\<close>.\<close>

definition json_Marshal :: "codec \<Rightarrow> rpc_result \<Rightarrow> string res" where
  "json_Marshal K a = en_Result K (case a of RUser u \<Rightarrow> RUser (json_user u) | RToken t \<Rightarrow> RToken t)"

text \<open>The documented behaviour of \<^verbatim>\<open>nats.Header\<close>: \<^verbatim>\<open>Set\<close> gives a key one value, \<^verbatim>\<open>Get\<close> reads the first.\<close>

definition header_laws :: "codec \<Rightarrow> bool" where
  "header_laws K \<longleftrightarrow>
     (\<forall>h k v. hdr_set K h k v k = Some [v]) \<and> (\<forall>h k v vs. h k = Some (v # vs) \<longrightarrow> hdr_get K h k = v)"

section \<open>Controllers\<close>

definition rpc_valid_Register :: "codec \<Rightarrow> Register \<Rightarrow> bool" where
  "rpc_valid_Register K b \<longleftrightarrow>
     reg_Username b \<noteq> [] \<and> runes_in 3 255 (reg_Username b) \<and>
     reg_Email b \<noteq> [] \<and> rpc_email K (reg_Email b) \<and>
     reg_Password b \<noteq> [] \<and> 6 \<le> rune_count (reg_Password b)"

definition rpc_valid_Login :: "codec \<Rightarrow> LoginReq \<Rightarrow> bool" where
  "rpc_valid_Login K b \<longleftrightarrow> log_Email b \<noteq> [] \<and> rpc_email K (log_Email b) \<and> log_Password b \<noteq> []"

definition Nats_register :: "codec \<Rightarrow> env \<Rightarrow> nats_msg \<Rightarrow> world \<Rightarrow> rpc_result res \<times> world" where
  "Nats_register K E msg w =
     (case un_Register K (nm_Data msg) of
        Inl err \<Rightarrow> (Inl (Errorf ''nats_rpc - V1 - register - json.Unmarshal'' err), w)
      | Inr req \<Rightarrow>
          if \<not> rpc_valid_Register K req
          then (Inl (Errorf ''nats_rpc - V1 - register - validation'' (ExtErr ''validation'')), w)
          else (case User_Register E (reg_Username req) (reg_Email req) (reg_Password req) w of
                  (Inl err, w) \<Rightarrow> (Inl (Errorf ''nats_rpc - V1 - register'' err), w)
                | (Inr user, w) \<Rightarrow> (Inr (RUser user), w)))"

definition Nats_login :: "codec \<Rightarrow> env \<Rightarrow> nats_msg \<Rightarrow> world \<Rightarrow> rpc_result res \<times> world" where
  "Nats_login K E msg w =
     (case un_Login K (nm_Data msg) of
        Inl err \<Rightarrow> (Inl (Errorf ''nats_rpc - V1 - login - json.Unmarshal'' err), w)
      | Inr req \<Rightarrow>
          if \<not> rpc_valid_Login K req
          then (Inl (Errorf ''nats_rpc - V1 - login - validation'' (ExtErr ''validation'')), w)
          else (case User_Login E (log_Email req) (log_Password req) w of
                  (Inl err, w) \<Rightarrow> (Inl (Errorf ''nats_rpc - V1 - login'' err), w)
                | (Inr token, w) \<Rightarrow> (Inr (RToken token), w)))"

definition Amqp_register :: "codec \<Rightarrow> env \<Rightarrow> delivery \<Rightarrow> world \<Rightarrow> rpc_result res \<times> world" where
  "Amqp_register K E d w =
     (case un_Register K (dl_Body d) of
        Inl err \<Rightarrow> (Inl (Errorf ''amqp_rpc - V1 - register - json.Unmarshal'' err), w)
      | Inr req \<Rightarrow>
          if \<not> rpc_valid_Register K req
          then (Inl (Errorf ''amqp_rpc - V1 - register - validation'' (ExtErr ''validation'')), w)
          else (case User_Register E (reg_Username req) (reg_Email req) (reg_Password req) w of
                  (Inl err, w) \<Rightarrow> (Inl (Errorf ''amqp_rpc - V1 - register'' err), w)
                | (Inr user, w) \<Rightarrow> (Inr (RUser user), w)))"

definition Amqp_login :: "codec \<Rightarrow> env \<Rightarrow> delivery \<Rightarrow> world \<Rightarrow> rpc_result res \<times> world" where
  "Amqp_login K E d w =
     (case un_Login K (dl_Body d) of
        Inl err \<Rightarrow> (Inl (Errorf ''amqp_rpc - V1 - login - json.Unmarshal'' err), w)
      | Inr req \<Rightarrow>
          if \<not> rpc_valid_Login K req
          then (Inl (Errorf ''amqp_rpc - V1 - login - validation'' (ExtErr ''validation'')), w)
          else (case User_Login E (log_Email req) (log_Password req) w of
                  (Inl err, w) \<Rightarrow> (Inl (Errorf ''amqp_rpc - V1 - login'' err), w)
                | (Inr token, w) \<Rightarrow> (Inr (RToken token), w)))"

text \<open>\<^verbatim>\<open>extractUserID\<close> of both packages; no route uses it.\<close>

definition Nats_extractUserID :: "codec \<Rightarrow> env \<Rightarrow> nats_msg \<Rightarrow> world \<Rightarrow> (string \<times> string) res \<times> world" where
  "Nats_extractUserID K E msg w =
     (case un_Authenticated K (nm_Data msg) of
        Inl err \<Rightarrow> (Inl (Errorf ''invalid request format'' err), w)
      | Inr (token, data) \<Rightarrow>
          (case ParseToken E token w of
             (Inl err, w) \<Rightarrow> (Inl (Errorf ''invalid or expired token'' err), w)
           | (Inr userID, w) \<Rightarrow> (Inr (userID, data), w)))"

definition Amqp_extractUserID :: "codec \<Rightarrow> env \<Rightarrow> delivery \<Rightarrow> world \<Rightarrow> (string \<times> string) res \<times> world" where
  "Amqp_extractUserID K E d w =
     (case un_Authenticated K (dl_Body d) of
        Inl err \<Rightarrow> (Inl (Errorf ''invalid request format'' err), w)
      | Inr (token, data) \<Rightarrow>
          (case ParseToken E token w of
             (Inl err, w) \<Rightarrow> (Inl (Errorf ''invalid or expired token'' err), w)
           | (Inr userID, w) \<Rightarrow> (Inr (userID, data), w)))"

type_synonym nats_handler = "nats_msg \<Rightarrow> world \<Rightarrow> rpc_result res \<times> world"
type_synonym amqp_handler = "delivery \<Rightarrow> world \<Rightarrow> rpc_result res \<times> world"

definition Nats_NewRoutes :: "codec \<Rightarrow> env \<Rightarrow> (string \<Rightarrow> nats_handler option) \<Rightarrow> string \<Rightarrow> nats_handler option" where
  "Nats_NewRoutes K E routes =
     routes(''v1.auth.register'' \<mapsto> Nats_register K E, ''v1.auth.login'' \<mapsto> Nats_login K E)"

definition Nats_NewRouter :: "codec \<Rightarrow> env \<Rightarrow> string \<Rightarrow> nats_handler option" where
  "Nats_NewRouter K E = Nats_NewRoutes K E Map.empty"

definition Amqp_NewRoutes :: "codec \<Rightarrow> env \<Rightarrow> (string \<Rightarrow> amqp_handler option) \<Rightarrow> string \<Rightarrow> amqp_handler option" where
  "Amqp_NewRoutes K E routes =
     routes(''v1.auth.register'' \<mapsto> Amqp_register K E, ''v1.auth.login'' \<mapsto> Amqp_login K E)"

definition Amqp_NewRouter :: "codec \<Rightarrow> env \<Rightarrow> string \<Rightarrow> amqp_handler option" where
  "Amqp_NewRouter K E = Amqp_NewRoutes K E Map.empty"

section \<open>Servers\<close>

text \<open>
  A call of a server answers the message that it publishes.  The NATS server reports a result that cannot be
  marshalled as an internal error; the RabbitMQ server only logs it and publishes an empty body as a success.
\<close>

definition Nats_publish :: "codec \<Rightarrow> nats_msg \<Rightarrow> string \<Rightarrow> string \<Rightarrow> nats_msg" where
  "Nats_publish K msg body status =
     \<lparr>nm_Subject = nm_Reply msg, nm_Reply = [], nm_Header = hdr_set K Map.empty ''Status'' status, nm_Data = body\<rparr>"

definition handleMessage :: "codec \<Rightarrow> (string \<Rightarrow> nats_handler option) \<Rightarrow> nats_msg \<Rightarrow> world \<Rightarrow> nats_msg \<times> world" where
  "handleMessage K router msg w =
     (case router (hdr_get K (nm_Header msg) ''Handler'') of
        None \<Rightarrow> (Nats_publish K msg [] (Error_text ErrBadHandler), w)
      | Some callHandler \<Rightarrow>
          (case callHandler msg w of
             (Inl err, w) \<Rightarrow> (Nats_publish K msg [] (Error_text ErrInternalServer), w)
           | (Inr response, w) \<Rightarrow>
               (case json_Marshal K response of
                  Inl err \<Rightarrow> (Nats_publish K msg [] (Error_text ErrInternalServer), w)
                | Inr body \<Rightarrow> (Nats_publish K msg body rpc_Success, w))))"

definition Amqp_publish :: "delivery \<Rightarrow> string \<Rightarrow> string \<Rightarrow> string \<times> delivery" where
  "Amqp_publish d body status =
     (dl_ReplyTo d,
      \<lparr>dl_Type = status, dl_CorrelationId = dl_CorrelationId d, dl_ReplyTo = [], dl_Headers = Map.empty, dl_Body = body\<rparr>)"

definition Amqp_serveCall ::
  "codec \<Rightarrow> (string \<Rightarrow> amqp_handler option) \<Rightarrow> delivery \<Rightarrow> world \<Rightarrow> (string \<times> delivery) \<times> world" where
  "Amqp_serveCall K router d w =
     (case router (dl_Type d) of
        None \<Rightarrow> (Amqp_publish d [] (Error_text ErrBadHandler), w)
      | Some callHandler \<Rightarrow>
          (case callHandler d w of
             (Inl err, w) \<Rightarrow> (Amqp_publish d [] (Error_text ErrInternalServer), w)
           | (Inr response, w) \<Rightarrow>
               (case json_Marshal K response of
                  Inl err \<Rightarrow> (Amqp_publish d [] rpc_Success, w)
                | Inr body \<Rightarrow> (Amqp_publish d body rpc_Success, w))))"

section \<open>Clients\<close>

text \<open>
  A client is generic in the request and the response: marshalling a request, and unmarshalling a body into the
  response variable, which is left in some state also when that fails.
\<close>

record ('q, 'r) client_json =
  en_request :: "'q \<Rightarrow> string res"
  un_response :: "string \<Rightarrow> 'r \<Rightarrow> goerr option \<times> 'r"

definition request_body :: "('q, 'r) client_json \<Rightarrow> 'q option \<Rightarrow> string res" where
  "request_body J request = (case request of None \<Rightarrow> Inr [] | Some q \<Rightarrow> en_request J q)"

text \<open>\<^verbatim>\<open>RequestMsg\<close> of the connection, with what the client can observe of it, is a parameter.\<close>

type_synonym request_msg = "nats_msg \<Rightarrow> world \<Rightarrow> nats_msg res \<times> world"

definition Nats_remoteCall ::
  "codec \<Rightarrow> ('q, 'r) client_json \<Rightarrow> (string \<times> string) list \<Rightarrow> string \<Rightarrow> request_msg \<Rightarrow>
   string \<Rightarrow> 'q option \<Rightarrow> 'r \<Rightarrow> world \<Rightarrow> (goerr option \<times> 'r) \<times> world" where
  "Nats_remoteCall K J trace subject RequestMsg handler request response w =
     (case request_body J request of
        Inl err \<Rightarrow> ((Some err, response), w)
      | Inr requestBody \<Rightarrow>
          let header = Inject HeaderCarrier_Set trace [''Handler'' \<mapsto> [handler]];
              requestMessage = \<lparr>nm_Subject = subject, nm_Reply = [], nm_Header = header, nm_Data = requestBody\<rparr>
          in case RequestMsg requestMessage w of
               (Inl err, w) \<Rightarrow>
                 if errors_Is err DeadlineExceeded then ((Some ErrTimeout, response), w)
                 else ((Some (Errorf ''nats_rpc client - Client - RemoteCall - c.connection.Conn.Request'' err), response), w)
             | (Inr message, w) \<Rightarrow>
                 let status = hdr_get K (nm_Header message) ''Status'' in
                 if status = rpc_Success then
                   (case un_response J (nm_Data message) response of
                      (Some err, response) \<Rightarrow> ((Some (Errorf ''nats_rpc client - Client - RemoteCall - json.Unmarshal'' err), response), w)
                    | (None, response) \<Rightarrow> ((None, response), w))
                 else if status = Error_text ErrBadHandler then ((Some ErrBadHandler, response), w)
                 else if status = Error_text ErrInternalServer then ((Some ErrInternalServer, response), w)
                 else ((None, response), w))"

text \<open>What the RabbitMQ client makes of the reply that it has been given for its call.\<close>

definition Amqp_reply_result ::
  "('q, 'r) client_json \<Rightarrow> string \<Rightarrow> string \<Rightarrow> 'r \<Rightarrow> goerr option \<times> 'r" where
  "Amqp_reply_result J status body response =
     (if status = rpc_Success then
        (case un_response J body response of
           (Some err, response) \<Rightarrow> (Some (Errorf ''rmq_rpc client - Client - RemoteCall - json.Unmarshal'' err), response)
         | (None, response) \<Rightarrow> (None, response))
      else if status = Error_text ErrBadHandler then (Some ErrBadHandler, response)
      else if status = Error_text ErrInternalServer then (Some ErrInternalServer, response)
      else (None, response))"

lemmas rpc_error_defs = ErrTimeout_def ErrInternalServer_def ErrBadHandler_def rpc_Success_def

section \<open>Properties\<close>

text \<open>
  The specification of a call: the use case behind the validation, without a transport.
\<close>

datatype account_request = CallRegister Register | CallLogin LoginReq

fun handler_name :: "account_request \<Rightarrow> string" where
  "handler_name (CallRegister b) = ''v1.auth.register''"
| "handler_name (CallLogin b) = ''v1.auth.login''"

fun account_call :: "codec \<Rightarrow> env \<Rightarrow> account_request \<Rightarrow> world \<Rightarrow> rpc_result option \<times> world" where
  "account_call K E (CallRegister b) w =
     (if rpc_valid_Register K b
      then (case User_Register E (reg_Username b) (reg_Email b) (reg_Password b) w of
              (Inl err, w) \<Rightarrow> (None, w) | (Inr user, w) \<Rightarrow> (Some (RUser (json_user user)), w))
      else (None, w))"
| "account_call K E (CallLogin b) w =
     (if rpc_valid_Login K b
      then (case User_Login E (log_Email b) (log_Password b) w of
              (Inl err, w) \<Rightarrow> (None, w) | (Inr token, w) \<Rightarrow> (Some (RToken token), w))
      else (None, w))"

text \<open>
  What is relied on of JSON, that the peers understand each other: the server reads back the request that the
  client marshalled, and the client the result that the server marshalled.
\<close>

definition request_read_back :: "codec \<Rightarrow> (account_request, rpc_result) client_json \<Rightarrow> account_request \<Rightarrow> bool" where
  "request_read_back K J q \<longleftrightarrow>
     (\<exists>s. en_request J q = Inr s \<and>
        (case q of CallRegister b \<Rightarrow> un_Register K s = Inr b | CallLogin b \<Rightarrow> un_Login K s = Inr b))"

definition result_read_back :: "codec \<Rightarrow> (account_request, rpc_result) client_json \<Rightarrow> rpc_result \<Rightarrow> bool" where
  "result_read_back K J a \<longleftrightarrow> (\<exists>s. en_Result K a = Inr s \<and> (\<forall>r. un_response J s r = (None, a)))"

text \<open>
  What is relied on of the broker: the server handles the request once, and its reply arrives; or it handles it
  and the reply is lost; or the request does not reach it.
\<close>

definition exchanged :: "(nats_msg \<Rightarrow> world \<Rightarrow> nats_msg \<times> world) \<Rightarrow> nats_msg \<Rightarrow> world \<Rightarrow> nats_msg res \<times> world \<Rightarrow> bool" where
  "exchanged handle msg w out \<longleftrightarrow>
     (\<exists>inbox. case out of
        (Inr reply, w') \<Rightarrow> handle (msg\<lparr>nm_Reply := inbox\<rparr>) w = (reply, w')
      | (Inl err, w') \<Rightarrow> w' = w \<or> w' = snd (handle (msg\<lparr>nm_Reply := inbox\<rparr>) w))"

definition broker_laws :: "(nats_msg \<Rightarrow> world \<Rightarrow> nats_msg \<times> world) \<Rightarrow> request_msg \<Rightarrow> bool" where
  "broker_laws handle RequestMsg \<longleftrightarrow> (\<forall>msg w. exchanged handle msg w (RequestMsg msg w))"

lemma handler_survives_trace:
  "''Handler'' \<notin> fst ` set trace \<Longrightarrow> Inject HeaderCarrier_Set trace h ''Handler'' = h ''Handler''"
  by (induction trace arbitrary: h) (auto simp: HeaderCarrier_Set_def)

lemma Error_texts: "Error_text ErrBadHandler = ''unregistered handler''" "Error_text ErrInternalServer = ''internal server error''"
  by (simp_all add: rpc_error_defs)

text \<open>What a caller sees of a call that the server answered.\<close>

definition call_outcome :: "rpc_result option \<Rightarrow> rpc_result \<Rightarrow> goerr option \<times> rpc_result" where
  "call_outcome a r = (case a of Some x \<Rightarrow> (None, x) | None \<Rightarrow> (Some ErrInternalServer, r))"

definition reads_request :: "codec \<Rightarrow> account_request \<Rightarrow> string \<Rightarrow> bool" where
  "reads_request K q s = (case q of CallRegister b \<Rightarrow> un_Register K s = Inr b | CallLogin b \<Rightarrow> un_Login K s = Inr b)"

lemma request_read_backE:
  assumes "request_read_back K J q"
  obtains s where "en_request J q = Inr s" "reads_request K q s"
  using assms by (auto simp: request_read_back_def reads_request_def)

text \<open>A handler answers what the specification says, up to the hash that the JSON leaves out.\<close>

definition visible :: "rpc_result res \<Rightarrow> rpc_result option" where
  "visible x = (case x of Inl _ \<Rightarrow> None | Inr (RUser u) \<Rightarrow> Some (RUser (json_user u)) | Inr (RToken t) \<Rightarrow> Some (RToken t))"

lemma Nats_handler_answers:
  assumes "reads_request K q (nm_Data msg)"
  shows "\<exists>h x w'. Nats_NewRouter K E (handler_name q) = Some h \<and> h msg w = (x, w') \<and> account_call K E q w = (visible x, w')"
  using assms
  by (cases q) (auto simp: Nats_NewRouter_def Nats_NewRoutes_def Nats_register_def Nats_login_def reads_request_def
      visible_def split: prod.splits sum.splits)

lemma Amqp_handler_answers:
  assumes "reads_request K q (dl_Body d)"
  shows "\<exists>h x w'. Amqp_NewRouter K E (handler_name q) = Some h \<and> h d w = (x, w') \<and> account_call K E q w = (visible x, w')"
  using assms
  by (cases q) (auto simp: Amqp_NewRouter_def Amqp_NewRoutes_def Amqp_register_def Amqp_login_def reads_request_def
      visible_def split: prod.splits sum.splits)

lemma visible_Marshal: "visible (Inr a) = Some b \<Longrightarrow> json_Marshal K a = en_Result K b"
  by (cases a) (auto simp: visible_def json_Marshal_def)

lemma visible_cases:
  obtains err where "x = Inl err" "visible x = None" | a b where "x = Inr a" "visible x = Some b"
  by (cases x; cases "projr x") (auto simp: visible_def)

lemma handleMessage_account:
  assumes "header_laws K" "nm_Header msg ''Handler'' = Some [handler_name q]" "reads_request K q (nm_Data msg)"
    and "\<And>a. fst (account_call K E q w) = Some a \<Longrightarrow> result_read_back K J a"
  shows "\<exists>reply. handleMessage K (Nats_NewRouter K E) msg w = (reply, snd (account_call K E q w)) \<and>
     (case fst (account_call K E q w) of
        None \<Rightarrow> hdr_get K (nm_Header reply) ''Status'' = Error_text ErrInternalServer
      | Some a \<Rightarrow> hdr_get K (nm_Header reply) ''Status'' = rpc_Success \<and> (\<forall>r. un_response J (nm_Data reply) r = (None, a)))"
proof -
  obtain h x w' where h: "Nats_NewRouter K E (handler_name q) = Some h" "h msg w = (x, w')"
    "account_call K E q w = (visible x, w')" using Nats_handler_answers [OF assms(3)] by blast
  have get: "hdr_get K (nm_Header msg) ''Handler'' = handler_name q"
    and status: "hdr_get K (hdr_set K g ''Status'' v) ''Status'' = v" for g v
    using assms(1,2) by (auto simp: header_laws_def)
  show ?thesis
  proof (cases x rule: visible_cases)
    case (1 err)
    then show ?thesis using h get status by (simp add: handleMessage_def Nats_publish_def)
  next
    case (2 a b)
    then obtain s where "en_Result K b = Inr s" "\<forall>r. un_response J s r = (None, b)"
      using assms(4) h(3) by (auto simp: result_read_back_def)
    then show ?thesis using 2 h get status visible_Marshal [of a b K] by (simp add: handleMessage_def Nats_publish_def)
  qed
qed

lemma Amqp_serveCall_account:
  assumes "dl_Type d = handler_name q" "reads_request K q (dl_Body d)"
    and "\<And>a. fst (account_call K E q w) = Some a \<Longrightarrow> result_read_back K J a"
  shows "\<exists>reply. Amqp_serveCall K (Amqp_NewRouter K E) d w = ((dl_ReplyTo d, reply), snd (account_call K E q w)) \<and>
     dl_CorrelationId reply = dl_CorrelationId d \<and>
     (case fst (account_call K E q w) of
        None \<Rightarrow> dl_Type reply = Error_text ErrInternalServer
      | Some a \<Rightarrow> dl_Type reply = rpc_Success \<and> (\<forall>r. un_response J (dl_Body reply) r = (None, a)))"
proof -
  obtain h x w' where h: "Amqp_NewRouter K E (handler_name q) = Some h" "h d w = (x, w')"
    "account_call K E q w = (visible x, w')" using Amqp_handler_answers [OF assms(2)] by blast
  show ?thesis
  proof (cases x rule: visible_cases)
    case (1 err)
    then show ?thesis using h assms(1) by (simp add: Amqp_serveCall_def Amqp_publish_def)
  next
    case (2 a b)
    then obtain s where "en_Result K b = Inr s" "\<forall>r. un_response J s r = (None, b)"
      using assms(3) h(3) by (auto simp: result_read_back_def)
    then show ?thesis using 2 h assms(1) visible_Marshal [of a b K] by (simp add: Amqp_serveCall_def Amqp_publish_def)
  qed
qed

text \<open>C8: a call over NATS is the use case behind its validation: unless the broker fails, the caller is given
  exactly the token or the account, without its password hash, that a local call yields, or ``internal server
  error'' where the local call fails, and the database changes as by the local call.  When the broker fails the
  caller is told so, the response variable is untouched, and the call ran once or not at all.\<close>

theorem nats_call_exact:
  assumes "header_laws K" "''Handler'' \<notin> fst ` set trace"
    and "broker_laws (handleMessage K (Nats_NewRouter K E)) RequestMsg"
    and "request_read_back K J q"
    and "\<And>a. fst (account_call K E q w) = Some a \<Longrightarrow> result_read_back K J a"
  shows "Nats_remoteCall K J trace subject RequestMsg (handler_name q) (Some q) r w =
       (call_outcome (fst (account_call K E q w)) r, snd (account_call K E q w)) \<or>
     (\<exists>err w'. Nats_remoteCall K J trace subject RequestMsg (handler_name q) (Some q) r w = ((Some err, r), w') \<and>
        w' \<in> {w, snd (account_call K E q w)})"
proof -
  obtain s where s: "en_request J q = Inr s" "reads_request K q s" using assms(4) by (rule request_read_backE)
  let ?m = "\<lparr>nm_Subject = subject, nm_Reply = [], nm_Header = Inject HeaderCarrier_Set trace [''Handler'' \<mapsto> [handler_name q]],
     nm_Data = s\<rparr>"
  obtain x w1 where x: "RequestMsg ?m w = (x, w1)" by fastforce
  then have "exchanged (handleMessage K (Nats_NewRouter K E)) ?m w (x, w1)"
    using assms(3) unfolding broker_laws_def by metis
  then obtain inbox where b: "case x of Inr reply \<Rightarrow> handleMessage K (Nats_NewRouter K E) (?m\<lparr>nm_Reply := inbox\<rparr>) w = (reply, w1)
      | Inl err \<Rightarrow> w1 = w \<or> w1 = snd (handleMessage K (Nats_NewRouter K E) (?m\<lparr>nm_Reply := inbox\<rparr>) w)"
    unfolding exchanged_def by auto
  obtain reply where reply: "handleMessage K (Nats_NewRouter K E) (?m\<lparr>nm_Reply := inbox\<rparr>) w = (reply, snd (account_call K E q w))"
    "case fst (account_call K E q w) of
        None \<Rightarrow> hdr_get K (nm_Header reply) ''Status'' = Error_text ErrInternalServer
      | Some a \<Rightarrow> hdr_get K (nm_Header reply) ''Status'' = rpc_Success \<and> (\<forall>r. un_response J (nm_Data reply) r = (None, a))"
    using handleMessage_account [of K "?m\<lparr>nm_Reply := inbox\<rparr>" q E w J, OF assms(1) _ _ assms(5)] s(2)
      handler_survives_trace [OF assms(2)] by auto
  show ?thesis
  proof (cases x)
    case (Inl err)
    then show ?thesis using x s(1) b reply(1) by (auto simp: Nats_remoteCall_def request_body_def)
  next
    case (Inr m)
    then have "m = reply" "w1 = snd (account_call K E q w)" using b reply(1) by simp_all
    then show ?thesis
      using x s(1) Inr reply(2)
      by (auto simp: Nats_remoteCall_def request_body_def call_outcome_def rpc_error_defs split: option.splits)
  qed
qed

text \<open>A codec that separates the fields of a login by a bar, and a broker that delivers.\<close>

definition test_codec :: codec where
  "test_codec = \<lparr>
     un_Register = \<lambda>s. Inl (ExtErr ''no registration''),
     un_Login = \<lambda>s. (case Cut ''|'' s of
        Some (e, p) \<Rightarrow> Inr \<lparr>log_Email = e, log_Password = p\<rparr> | None \<Rightarrow> Inl (ExtErr ''unexpected end of JSON input'')),
     un_Authenticated = \<lambda>s. Inr (s, []),
     en_Result = \<lambda>a. (case a of RToken t \<Rightarrow> Inr t | RUser u \<Rightarrow> Inr (u_ID u)),
     rpc_email = \<lambda>e. CHR ''@'' \<in> set e,
     hdr_get = HeaderCarrier_Get,
     hdr_set = \<lambda>h k v. HeaderCarrier_Set k v h\<rparr>"

definition test_json :: "(account_request, rpc_result) client_json" where
  "test_json = \<lparr>
     en_request = \<lambda>q. (case q of CallLogin b \<Rightarrow> Inr (log_Email b @ ''|'' @ log_Password b) | CallRegister b \<Rightarrow> Inr (reg_Email b)),
     un_response = \<lambda>s r. (None, RToken s)\<rparr>"

definition test_request_msg :: "(nats_msg \<Rightarrow> world \<Rightarrow> nats_msg \<times> world) \<Rightarrow> request_msg" where
  "test_request_msg handle msg w = map_prod Inr id (handle (msg\<lparr>nm_Reply := ''inbox''\<rparr>) w)"

lemma test_codec_laws: "header_laws test_codec" "broker_laws handle (test_request_msg handle)"
proof -
  show "header_laws test_codec"
    by (simp add: header_laws_def test_codec_def HeaderCarrier_Get_def HeaderCarrier_Set_def)
  have "exchanged handle msg w (test_request_msg handle msg w)" for msg w
    by (cases "handle (msg\<lparr>nm_Reply := ''inbox''\<rparr>) w")
      (auto simp: exchanged_def test_request_msg_def intro: exI [of _ "''inbox''"])
  then show "broker_laws handle (test_request_msg handle)" by (simp add: broker_laws_def)
qed

definition ann_login :: account_request where
  "ann_login = CallLogin \<lparr>log_Email = ''a@x'', log_Password = ''pw''\<rparr>"

lemma ann_login_call: "fst (account_call test_codec test_env ann_login ann_world) = Some (RToken ''tu-ann'')"
  by code_simp

lemma ann_login_read: "request_read_back test_codec test_json ann_login" "result_read_back test_codec test_json (RToken t)"
  by (simp_all add: request_read_back_def result_read_back_def ann_login_def test_codec_def test_json_def HasPrefix_def)

theorem nats_call_exact_witness:
  "\<exists>w'. Nats_remoteCall test_codec test_json [(''traceparent'', ''00'')] ''rpc''
     (test_request_msg (handleMessage test_codec (Nats_NewRouter test_codec test_env))) ''v1.auth.login'' (Some ann_login)
     (RToken []) ann_world = ((None, RToken ''tu-ann''), w')"
proof -
  let ?net = "test_request_msg (handleMessage test_codec (Nats_NewRouter test_codec test_env))"
  have none: "fst (fst (Nats_remoteCall test_codec test_json [(''traceparent'', ''00'')] ''rpc'' ?net ''v1.auth.login''
     (Some ann_login) (RToken []) ann_world)) = None" by code_simp
  have "result_read_back test_codec test_json a" if "fst (account_call test_codec test_env ann_login ann_world) = Some a" for a
    using that ann_login_call ann_login_read(2) by fastforce
  then have "fst (account_call test_codec test_env ann_login ann_world) = Some a \<Longrightarrow> result_read_back test_codec test_json a" for a .
  note call = nats_call_exact [where E = test_env and w = ann_world and trace = "[(''traceparent'', ''00'')]"
      and subject = "''rpc''" and r = "RToken []", OF test_codec_laws(1) _ test_codec_laws(2) ann_login_read(1) this]
  have "handler_name ann_login = ''v1.auth.login''" by (simp add: ann_login_def)
  with call none show ?thesis by (auto simp: ann_login_call call_outcome_def)
qed

end
