(* ===== verification/RpcClient.thy ===== *)
theory RpcClient
  imports Rpc
begin

text \<open>
  The RabbitMQ client (\<^verbatim>\<open>pkg/rabbitmq/rmq_rpc/client\<close>): calls in flight on several goroutines, and the goroutine
  that reads replies and wakes them.  They share the map of pending calls, the channels \<^verbatim>\<open>stop\<close> and \<^verbatim>\<open>notify\<close> and
  the context of the error group.  The map is behind a mutex, so each access is one step; a \<^verbatim>\<open>select\<close> takes any branch
  that is ready, and a timer may fire at any time.
\<close>

section \<open>State\<close>

text \<open>
  A \<^verbatim>\<open>pendingCall\<close> lives on a heap, its channel \<^verbatim>\<open>done\<close> is closed or not.
\<close>

record pendingCall =
  pc_done :: bool
  pc_status :: string
  pc_body :: string

datatype outcome = Replied string string | Failed goerr

text \<open>
  Where a goroutine is in \<^verbatim>\<open>remoteCall\<close>: at the first \<^verbatim>\<open>select\<close>, with the handler and the marshalled request; before the
  publication, with its correlation id; before \<^verbatim>\<open>addCall\<close>; at the second \<^verbatim>\<open>select\<close>; before the deferred \<^verbatim>\<open>deleteCall\<close>;
  returned.
\<close>

datatype thread =
    T_Pre string "string res"
  | T_Publish string string "string res"
  | T_Add string
  | T_Wait string nat
  | T_Delete string nat outcome
  | T_Done "string option" outcome

text \<open>
  Where the reader is: at its \<^verbatim>\<open>select\<close>; in \<^verbatim>\<open>serveCall\<close> with a delivery and the call it found; sending an error on
  \<^verbatim>\<open>notify\<close>, which has no buffer; before \<^verbatim>\<open>close(notify)\<close>; returned.
\<close>

datatype reader =
    R_Select
  | R_Serve delivery nat
  | R_Notify goerr
  | R_Close goerr
  | R_Done "goerr option"

record Client =
  cl_calls :: "string \<Rightarrow> nat option"
  cl_heap :: "pendingCall list"
  cl_threads :: "thread list"
  cl_reader :: reader
  cl_stop :: bool
  cl_cancelled :: bool
  cl_notify_closed :: bool
  cl_uuid :: nat
  cl_sent :: "delivery list"
  cl_seen :: "delivery list"
  cl_panic :: bool

text \<open>
  \<^verbatim>\<open>cl_uuid\<close> counts the correlation ids drawn from the source \<^verbatim>\<open>U\<close>; \<^verbatim>\<open>cl_sent\<close> are the messages published to the server
  exchange, \<^verbatim>\<open>cl_seen\<close> the deliveries that the reader took.
\<close>

definition NewClient :: Client where
  "NewClient = \<lparr>cl_calls = Map.empty, cl_heap = [], cl_threads = [], cl_reader = R_Select, cl_stop = False,
     cl_cancelled = False, cl_notify_closed = False, cl_uuid = 0, cl_sent = [], cl_seen = [], cl_panic = False\<rparr>"

definition ErrConnectionClosed :: goerr where
  "ErrConnectionClosed = NewErr ''rmq_rpc client - Client - RemoteCall - Connection closed''"

definition Canceled :: goerr where
  "Canceled = ExtErr ''context canceled''"

section \<open>The map of pending calls\<close>

definition getCall :: "string \<Rightarrow> Client \<Rightarrow> nat option" where
  "getCall corrID c = cl_calls c corrID"

definition addCall :: "string \<Rightarrow> nat \<Rightarrow> Client \<Rightarrow> Client" where
  "addCall corrID call c = c\<lparr>cl_calls := (cl_calls c)(corrID \<mapsto> call)\<rparr>"

definition deleteCall :: "string \<Rightarrow> Client \<Rightarrow> Client" where
  "deleteCall corrID c = c\<lparr>cl_calls := (cl_calls c)(corrID := None)\<rparr>"

section \<open>A remote call\<close>

text \<open>\<^verbatim>\<open>Channel.Publish\<close> is a parameter: the error it returns, if any.\<close>

definition Client_publish ::
  "string \<Rightarrow> (string \<times> string) list \<Rightarrow> string \<Rightarrow> string \<Rightarrow> string res \<Rightarrow> goerr option \<Rightarrow> Client \<Rightarrow> goerr option \<times> Client" where
  "Client_publish consumerExchange trace corrID handler request published c =
     (case request of
        Inl err \<Rightarrow> (Some err, c)
      | Inr requestBody \<Rightarrow>
          let headers = Inject TableCarrier_Set trace Map.empty;
              message = \<lparr>dl_Type = handler, dl_CorrelationId = corrID, dl_ReplyTo = consumerExchange, dl_Headers = headers,
                dl_Body = requestBody\<rparr>
          in case published of
               Some err \<Rightarrow> (Some (Errorf ''c.Channel.Publish'' err), c)
             | None \<Rightarrow> (None, c\<lparr>cl_sent := cl_sent c @ [message]\<rparr>))"

text \<open>
  The branches common to both \<^verbatim>\<open>select\<close>s that are ready, with the error each gives: the context is done; the reader
  offers an error on \<^verbatim>\<open>notify\<close>, or has closed it (\<^verbatim>\<open>fmt.Errorf\<close> of a nil error); the client is stopped.
\<close>

definition failing :: "Client \<Rightarrow> (goerr \<times> Client) list" where
  "failing c =
     (if cl_cancelled c then [(Canceled, c)] else []) @
     (case cl_reader c of
        R_Notify err \<Rightarrow> [(Errorf ''rmq_rpc client - Client - RemoteCall - c.notify'' err, c\<lparr>cl_reader := R_Close err\<rparr>)]
      | _ \<Rightarrow> if cl_notify_closed c then [(NewErr ''rmq_rpc client - Client - RemoteCall - c.notify: %!w(<nil>)'', c)] else []) @
     (if cl_stop c then [(ErrConnectionClosed, c)] else [])"

definition preRemoteCallWait :: "Client \<Rightarrow> (goerr option \<times> Client) list" where
  "preRemoteCallWait c = (if failing c = [] then [(None, c)] else List.map (\<lambda>(err, c). (Some err, c)) (failing c))"

definition remoteCallWait :: "nat \<Rightarrow> Client \<Rightarrow> (goerr option \<times> Client) list" where
  "remoteCallWait call c =
     List.map (\<lambda>(err, c). (Some err, c)) (failing c) @ [(Some ErrTimeout, c)] @
     (if pc_done (cl_heap c ! call) then [(None, c)] else [])"

fun remoteCall ::
  "(nat \<Rightarrow> string) \<Rightarrow> string \<Rightarrow> (string \<times> string) list \<Rightarrow> goerr option \<Rightarrow> thread \<Rightarrow> Client \<Rightarrow> (thread \<times> Client) list" where
  "remoteCall U ex trace published (T_Pre handler request) c =
     List.map (\<lambda>(err, c). case err of
         Some e \<Rightarrow> (T_Done None (Failed (Errorf ''rmq_rpc client - Client - RemoteCall - c.preWait'' e)), c)
       | None \<Rightarrow> (T_Publish (U (cl_uuid c)) handler request, c\<lparr>cl_uuid := cl_uuid c + 1\<rparr>))
       (preRemoteCallWait c)"
| "remoteCall U ex trace published (T_Publish corrID handler request) c =
     (case Client_publish ex trace corrID handler request published c of
        (Some e, c) \<Rightarrow> [(T_Done (Some corrID) (Failed (Errorf ''rmq_rpc client - Client - RemoteCall - c.publish'' e)), c)]
      | (None, c) \<Rightarrow> [(T_Add corrID, c)])"
| "remoteCall U ex trace published (T_Add corrID) c =
     (let call = length (cl_heap c)
      in [(T_Wait corrID call, addCall corrID call (c\<lparr>cl_heap := cl_heap c @ [\<lparr>pc_done = False, pc_status = [], pc_body = []\<rparr>]\<rparr>))])"
| "remoteCall U ex trace published (T_Wait corrID call) c =
     List.map (\<lambda>(err, c). (T_Delete corrID call
         (case err of
            Some e \<Rightarrow> Failed (Errorf ''rmq_rpc client - Client - RemoteCall - c.remoteCallWait'' e)
          | None \<Rightarrow> Replied (pc_status (cl_heap c ! call)) (pc_body (cl_heap c ! call))), c))
       (remoteCallWait call c)"
| "remoteCall U ex trace published (T_Delete corrID call out) c = [(T_Done (Some corrID) out, deleteCall corrID c)]"
| "remoteCall U ex trace published (T_Done corrID out) c = []"

section \<open>The reader\<close>

text \<open>\<^verbatim>\<open>serveCall\<close> up to \<^verbatim>\<open>getCall\<close>, and from there: the status, the body, and \<^verbatim>\<open>close(call.done)\<close>.\<close>

definition Client_serveCall :: "delivery \<Rightarrow> Client \<Rightarrow> Client" where
  "Client_serveCall d c =
     (let c = c\<lparr>cl_seen := cl_seen c @ [d]\<rparr>
      in case getCall (dl_CorrelationId d) c of None \<Rightarrow> c | Some call \<Rightarrow> c\<lparr>cl_reader := R_Serve d call\<rparr>)"

definition close_done :: "delivery \<Rightarrow> nat \<Rightarrow> Client \<Rightarrow> Client" where
  "close_done d call c =
     (if pc_done (cl_heap c ! call) then c\<lparr>cl_panic := True\<rparr>
      else c\<lparr>cl_heap := (cl_heap c)[call := \<lparr>pc_done = True, pc_status = dl_Type d, pc_body = dl_Body d\<rparr>], cl_reader := R_Select\<rparr>)"

text \<open>
  The steps of a client.  Nothing moves after a panic.  The broker may deliver anything at any time, and may close
  the channel of deliveries, upon which the reader reconnects, which fails or not.  \<^verbatim>\<open>Shutdown\<close> closes \<^verbatim>\<open>stop\<close>; the error
  group cancels the context when the reader has returned an error, and when \<^verbatim>\<open>Shutdown\<close> has waited for it.
\<close>

inductive client_step :: "(nat \<Rightarrow> string) \<Rightarrow> string \<Rightarrow> (string \<times> string) list \<Rightarrow> Client \<Rightarrow> Client \<Rightarrow> bool"
  for U :: "nat \<Rightarrow> string" and ex :: string and trace :: "(string \<times> string) list" where
  step_call: "\<not> cl_panic c \<Longrightarrow> client_step U ex trace c (c\<lparr>cl_threads := cl_threads c @ [T_Pre handler request]\<rparr>)"
| step_thread: "\<not> cl_panic c \<Longrightarrow> i < length (cl_threads c) \<Longrightarrow>
    (t, c') \<in> set (remoteCall U ex trace published (cl_threads c ! i) c) \<Longrightarrow>
    client_step U ex trace c (c'\<lparr>cl_threads := (cl_threads c')[i := t]\<rparr>)"
| step_deliver: "\<not> cl_panic c \<Longrightarrow> cl_reader c = R_Select \<Longrightarrow> client_step U ex trace c (Client_serveCall d c)"
| step_close_done: "\<not> cl_panic c \<Longrightarrow> cl_reader c = R_Serve d call \<Longrightarrow> client_step U ex trace c (close_done d call c)"
| step_reconnect: "\<not> cl_panic c \<Longrightarrow> cl_reader c = R_Select \<Longrightarrow> client_step U ex trace c (c\<lparr>cl_reader := R_Notify err\<rparr>)"
| step_cancelled: "\<not> cl_panic c \<Longrightarrow> cl_reader c = R_Select \<Longrightarrow> cl_cancelled c \<Longrightarrow>
    client_step U ex trace c (c\<lparr>cl_reader := R_Notify Canceled\<rparr>)"
| step_stopped: "\<not> cl_panic c \<Longrightarrow> cl_reader c = R_Select \<Longrightarrow> cl_stop c \<Longrightarrow> client_step U ex trace c (c\<lparr>cl_reader := R_Done None\<rparr>)"
| step_close: "\<not> cl_panic c \<Longrightarrow> cl_reader c = R_Close err \<Longrightarrow>
    client_step U ex trace c (c\<lparr>cl_notify_closed := True, cl_reader := R_Done (Some err), cl_cancelled := True\<rparr>)"
| step_shutdown: "\<not> cl_panic c \<Longrightarrow> \<not> cl_stop c \<Longrightarrow> client_step U ex trace c (c\<lparr>cl_stop := True\<rparr>)"
| step_waited: "\<not> cl_panic c \<Longrightarrow> cl_stop c \<Longrightarrow> cl_reader c = R_Done err \<Longrightarrow> client_step U ex trace c (c\<lparr>cl_cancelled := True\<rparr>)"

inductive client_reach :: "(nat \<Rightarrow> string) \<Rightarrow> string \<Rightarrow> (string \<times> string) list \<Rightarrow> Client \<Rightarrow> bool"
  for U :: "nat \<Rightarrow> string" and ex :: string and trace :: "(string \<times> string) list" where
  reach_new: "client_reach U ex trace NewClient"
| reach_step: "client_reach U ex trace c \<Longrightarrow> client_step U ex trace c c' \<Longrightarrow> client_reach U ex trace c'"

section \<open>Invariant\<close>

fun corr_of :: "thread \<Rightarrow> string option" where
  "corr_of (T_Pre h q) = None"
| "corr_of (T_Publish k h q) = Some k"
| "corr_of (T_Add k) = Some k"
| "corr_of (T_Wait k p) = Some k"
| "corr_of (T_Delete k p out) = Some k"
| "corr_of (T_Done k out) = k"

fun in_flight :: "thread \<Rightarrow> (string \<times> nat) option" where
  "in_flight (T_Wait k p) = Some (k, p)"
| "in_flight (T_Delete k p out) = Some (k, p)"
| "in_flight _ = None"

fun answered :: "thread \<Rightarrow> (string option \<times> string \<times> string) option" where
  "answered (T_Delete k p (Replied st b)) = Some (Some k, st, b)"
| "answered (T_Done k (Replied st b)) = Some (k, st, b)"
| "answered _ = None"

text \<open>A delivery that answers a call.\<close>

definition answers :: "delivery list \<Rightarrow> string option \<Rightarrow> string \<Rightarrow> string \<Rightarrow> bool" where
  "answers ds k st b \<longleftrightarrow> (\<exists>d \<in> set ds. k = Some (dl_CorrelationId d) \<and> dl_Type d = st \<and> dl_Body d = b)"

definition answer_ok :: "delivery list \<Rightarrow> thread \<Rightarrow> bool" where
  "answer_ok ds t \<longleftrightarrow> (case answered t of None \<Rightarrow> True | Some (k, st, b) \<Rightarrow> answers ds k st b)"

lemma answers_mono [intro]: "answers ds k st b \<Longrightarrow> answers (ds @ es) k st b"
  by (auto simp: answers_def)

definition ids_ok :: "(nat \<Rightarrow> string) \<Rightarrow> nat \<Rightarrow> string option list \<Rightarrow> bool" where
  "ids_ok U n ks \<longleftrightarrow>
     (\<forall>i k. i < length ks \<longrightarrow> ks ! i = Some k \<longrightarrow> k \<in> U ` {..<n}) \<and>
     (\<forall>i j k. i < length ks \<longrightarrow> j < length ks \<longrightarrow> ks ! i = Some k \<longrightarrow> ks ! j = Some k \<longrightarrow> i = j)"

definition calls_ok :: "(string \<Rightarrow> nat option) \<Rightarrow> nat \<Rightarrow> (string \<times> nat) option list \<Rightarrow> bool" where
  "calls_ok m n fs \<longleftrightarrow>
     (\<forall>k p. m k = Some p \<longleftrightarrow> (\<exists>i < length fs. fs ! i = Some (k, p))) \<and>
     (\<forall>k p. m k = Some p \<longrightarrow> p < n) \<and> (\<forall>k k' p. m k = Some p \<longrightarrow> m k' = Some p \<longrightarrow> k = k')"

definition heap_ok :: "(string \<Rightarrow> nat option) \<Rightarrow> pendingCall list \<Rightarrow> delivery list \<Rightarrow> bool" where
  "heap_ok m hp ds \<longleftrightarrow>
     (\<forall>k p. m k = Some p \<longrightarrow> pc_done (hp ! p) \<longrightarrow> answers ds (Some k) (pc_status (hp ! p)) (pc_body (hp ! p)))"

definition reader_ok :: "reader \<Rightarrow> (string \<Rightarrow> nat option) \<Rightarrow> pendingCall list \<Rightarrow> delivery list \<Rightarrow> bool" where
  "reader_ok r m hp ds \<longleftrightarrow>
     (\<forall>d p. r = R_Serve d p \<longrightarrow> d \<in> set ds \<and> p < length hp \<and> (\<forall>k. m k = Some p \<longrightarrow> k = dl_CorrelationId d) \<and>
        (pc_done (hp ! p) \<longrightarrow> \<not> distinct (List.map dl_CorrelationId ds)))"

definition client_inv :: "(nat \<Rightarrow> string) \<Rightarrow> Client \<Rightarrow> bool" where
  "client_inv U c \<longleftrightarrow>
     ids_ok U (cl_uuid c) (List.map corr_of (cl_threads c)) \<and>
     calls_ok (cl_calls c) (length (cl_heap c)) (List.map in_flight (cl_threads c)) \<and>
     heap_ok (cl_calls c) (cl_heap c) (cl_seen c) \<and>
     reader_ok (cl_reader c) (cl_calls c) (cl_heap c) (cl_seen c) \<and>
     (\<forall>t \<in> set (cl_threads c). answer_ok (cl_seen c) t) \<and>
     (cl_panic c \<longrightarrow> \<not> distinct (List.map dl_CorrelationId (cl_seen c)))"

lemma ids_ok_old: "ids_ok U n ks \<Longrightarrow> i < length ks \<Longrightarrow> ks ! i = Some k \<Longrightarrow> k \<in> U ` {..<n}"
  unfolding ids_ok_def by blast

lemma ids_ok_one: "ids_ok U n ks \<Longrightarrow> i < length ks \<Longrightarrow> j < length ks \<Longrightarrow> ks ! i = Some k \<Longrightarrow> ks ! j = Some k \<Longrightarrow> i = j"
  unfolding ids_ok_def by blast

lemma ids_ok_forget:
  assumes "ids_ok U n ks" "x = None \<or> x = ks ! i"
  shows "ids_ok U n (ks[i := x])"
proof (cases "x = ks ! i")
  case False
  then have "ks[i := x] ! j = Some k \<Longrightarrow> j < length ks \<Longrightarrow> ks ! j = Some k" for j k
    using assms(2) by (cases "j = i") auto
  then show ?thesis using ids_ok_old [OF assms(1)] ids_ok_one [OF assms(1)] unfolding ids_ok_def by simp
qed (use assms(1) in simp)

lemma calls_ok_iff: "calls_ok m n fs \<Longrightarrow> m k = Some p \<longleftrightarrow> (\<exists>i < length fs. fs ! i = Some (k, p))"
  unfolding calls_ok_def by blast

lemma calls_ok_lt: "calls_ok m n fs \<Longrightarrow> m k = Some p \<Longrightarrow> p < n"
  unfolding calls_ok_def by blast

lemma calls_ok_inj: "calls_ok m n fs \<Longrightarrow> m k = Some p \<Longrightarrow> m k' = Some p \<Longrightarrow> k = k'"
  unfolding calls_ok_def by blast

lemma ids_ok_fresh:
  assumes "inj U" "ids_ok U n ks"
  shows "ids_ok U (Suc n) (ks[i := Some (U n)])"
proof -
  have old: "\<exists>m < n. k = U m" if "j < length ks" "ks ! j = Some k" for j k
    using assms(2) that by (auto simp: ids_ok_def)
  have new: "ks ! j \<noteq> Some (U n)" if "j < length ks" for j
    using old [OF that] assms(1) by (auto dest: injD)
  show ?thesis
    unfolding ids_ok_def
  proof (intro conjI allI impI)
    fix j k
    assume "j < length (ks[i := Some (U n)])" "ks[i := Some (U n)] ! j = Some k"
    then show "k \<in> U ` {..<Suc n}" using old [of j k] by (cases "j = i") (auto simp: less_Suc_eq)
  next
    fix j j' k
    assume *: "j < length (ks[i := Some (U n)])" "j' < length (ks[i := Some (U n)])"
      "ks[i := Some (U n)] ! j = Some k" "ks[i := Some (U n)] ! j' = Some k"
    show "j = j'"
    proof (cases "j = i \<or> j' = i")
      case True
      then show ?thesis using * new [of j] new [of j'] by (auto simp: nth_list_update split: if_splits)
    next
      case False
      then have "ks ! j = Some k" "ks ! j' = Some k" using * by (auto simp: nth_list_update)
      then show ?thesis using * assms(2) by (auto simp: ids_ok_def)
    qed
  qed
qed

lemma ids_ok_append: "ids_ok U n ks \<Longrightarrow> ids_ok U n (ks @ [None])"
  unfolding ids_ok_def by (auto simp: nth_append split: if_splits)

lemma nth_update_ex:
  "i < length xs \<Longrightarrow>
   (\<exists>j < length (xs[i := x]). xs[i := x] ! j = y) \<longleftrightarrow> x = y \<or> (\<exists>j < length xs. j \<noteq> i \<and> xs ! j = y)"
  by (auto simp: nth_list_update split: if_splits)

lemma calls_ok_add:
  assumes "calls_ok m n fs" "i < length fs" "fs ! i = None" "m k = None"
  shows "calls_ok (m(k \<mapsto> n)) (Suc n) (fs[i := Some (k, n)])"
proof -
  have m: "m k' = Some p \<longleftrightarrow> (\<exists>j < length fs. fs ! j = Some (k', p))" for k' p by (rule calls_ok_iff [OF assms(1)])
  have "(\<exists>j < length fs. j \<noteq> i \<and> fs ! j = Some (k', p)) \<longleftrightarrow> m k' = Some p" for k' p
    unfolding m using assms(3) by (metis option.distinct(1))
  then have *: "(\<exists>j < length (fs[i := Some (k, n)]). fs[i := Some (k, n)] ! j = Some (k', p)) \<longleftrightarrow> (m(k \<mapsto> n)) k' = Some p" for k' p
    unfolding nth_update_ex [OF assms(2)] using assms(4) by auto
  have "(m(k \<mapsto> n)) k' = Some p \<Longrightarrow> p < Suc n" for k' p
    using calls_ok_lt [OF assms(1), of k' p] by (auto split: if_splits)
  moreover have "(m(k \<mapsto> n)) k' = Some p \<Longrightarrow> (m(k \<mapsto> n)) k'' = Some p \<Longrightarrow> k' = k''" for k' k'' p
    using calls_ok_inj [OF assms(1), of k' p k''] calls_ok_lt [OF assms(1), of _ n] by (auto split: if_splits)
  ultimately show ?thesis unfolding calls_ok_def * by blast
qed

lemma calls_ok_delete:
  assumes "calls_ok m n fs" "i < length fs" "fs ! i = Some (k, p)"
    and "\<And>j q. j < length fs \<Longrightarrow> fs ! j = Some (k, q) \<Longrightarrow> j = i"
  shows "calls_ok (m(k := None)) n (fs[i := None])"
proof -
  have m: "m k' = Some p \<longleftrightarrow> (\<exists>j < length fs. fs ! j = Some (k', p))" for k' p by (rule calls_ok_iff [OF assms(1)])
  have "(\<exists>j < length fs. j \<noteq> i \<and> fs ! j = Some (k', q)) \<longleftrightarrow> (m(k := None)) k' = Some q" for k' q
    using assms(3,4) m [of k' q] by auto
  then have *: "(\<exists>j < length (fs[i := None]). fs[i := None] ! j = Some (k', q)) \<longleftrightarrow> (m(k := None)) k' = Some q" for k' q
    unfolding nth_update_ex [OF assms(2)] by simp
  have "(m(k := None)) k' = Some p \<Longrightarrow> p < n" and "(m(k := None)) k' = Some p \<Longrightarrow> (m(k := None)) k'' = Some p \<Longrightarrow> k' = k''" for k' k'' p
    using calls_ok_lt [OF assms(1), of k' p] calls_ok_inj [OF assms(1), of k' p k''] by (simp_all split: if_splits)
  then show ?thesis unfolding calls_ok_def * by blast
qed

lemma calls_ok_append: "calls_ok m n fs \<Longrightarrow> calls_ok m n (fs @ [None])"
proof -
  have "(\<exists>i < length (fs @ [None]). (fs @ [None]) ! i = Some x) \<longleftrightarrow> (\<exists>i < length fs. fs ! i = Some x)" for x
    unfolding in_set_conv_nth [symmetric] by simp
  then show "calls_ok m n fs \<Longrightarrow> calls_ok m n (fs @ [None])" unfolding calls_ok_def by simp
qed

lemma in_flight_corr: "in_flight t = Some (k, p) \<Longrightarrow> corr_of t = Some k"
  by (cases t) auto

lemma in_flight_unique:
  assumes "ids_ok U n (List.map corr_of ts)" "i < length ts" "corr_of (ts ! i) = Some k"
    and "j < length ts" "in_flight (ts ! j) = Some (k, p)"
  shows "j = i"
  using assms in_flight_corr [OF assms(5)] by (auto simp: ids_ok_def)

lemma failing_cases:
  assumes "(err, c') \<in> set (failing c)"
  obtains "c' = c" | e where "cl_reader c = R_Notify e" "c' = c\<lparr>cl_reader := R_Close e\<rparr>"
  using assms by (cases "cl_reader c") (auto simp: failing_def split: if_splits)

lemma preRemoteCallWait_cases:
  assumes "(err, c') \<in> set (preRemoteCallWait c)"
  obtains "c' = c" | e where "cl_reader c = R_Notify e" "c' = c\<lparr>cl_reader := R_Close e\<rparr>" "err \<noteq> None"
  using assms by (auto simp: preRemoteCallWait_def split: if_splits elim!: failing_cases)

lemma remoteCallWait_cases:
  assumes "(err, c') \<in> set (remoteCallWait p c)"
  obtains "c' = c" "err = None \<longrightarrow> pc_done (cl_heap c ! p)"
    | e where "cl_reader c = R_Notify e" "c' = c\<lparr>cl_reader := R_Close e\<rparr>" "err \<noteq> None"
  using assms by (auto simp: remoteCallWait_def split: if_splits elim!: failing_cases)

lemma client_invD:
  assumes "client_inv U c"
  shows "ids_ok U (cl_uuid c) (List.map corr_of (cl_threads c))"
    "calls_ok (cl_calls c) (length (cl_heap c)) (List.map in_flight (cl_threads c))"
    "heap_ok (cl_calls c) (cl_heap c) (cl_seen c)" "reader_ok (cl_reader c) (cl_calls c) (cl_heap c) (cl_seen c)"
    "\<forall>t \<in> set (cl_threads c). answer_ok (cl_seen c) t" "cl_panic c \<Longrightarrow> \<not> distinct (List.map dl_CorrelationId (cl_seen c))"
  using assms by (auto simp: client_inv_def)

lemma client_inv_reader:
  "client_inv U c \<Longrightarrow> (\<And>d p. r \<noteq> R_Serve d p) \<Longrightarrow> client_inv U (c\<lparr>cl_reader := r\<rparr>)"
  by (auto simp: client_inv_def reader_ok_def)

lemma client_inv_frame:
  assumes "client_inv U c" "cl_calls c' = cl_calls c" "cl_heap c' = cl_heap c" "cl_threads c' = cl_threads c"
    "cl_reader c' = cl_reader c \<or> (\<forall>d p. cl_reader c' \<noteq> R_Serve d p)" "cl_uuid c' = cl_uuid c" "cl_seen c' = cl_seen c"
    "cl_panic c' = cl_panic c"
  shows "client_inv U c'"
  using assms by (auto simp: client_inv_def reader_ok_def)

lemma ball_update: "\<forall>t \<in> set ts. P t \<Longrightarrow> P t' \<Longrightarrow> \<forall>t \<in> set (ts[i := t']). P t"
  using set_update_subset_insert [of ts i t'] by blast

lemma thread_update:
  assumes inv: "client_inv U c" and i: "i < length (cl_threads c)"
    and "corr_of t \<in> {None, corr_of (cl_threads c ! i)}" "in_flight t = in_flight (cl_threads c ! i)"
    and "answer_ok (cl_seen c) t"
  shows "client_inv U (c\<lparr>cl_threads := (cl_threads c)[i := t]\<rparr>)"
proof -
  note d = client_invD [OF inv]
  have "ids_ok U (cl_uuid c) (List.map corr_of ((cl_threads c)[i := t]))"
    using ids_ok_forget [OF d(1), of "corr_of t" i] assms(3) i by (auto simp: map_update)
  moreover have "List.map in_flight ((cl_threads c)[i := t]) = List.map in_flight (cl_threads c)"
    using assms(4) i by (metis list_update_id map_update)
  ultimately show ?thesis
    using d(2-4,6) ball_update [OF d(5) assms(5)] by (simp add: client_inv_def)
qed

lemma add_inv:
  assumes inv: "client_inv U c" and i: "i < length (cl_threads c)" and t: "cl_threads c ! i = T_Add k"
  shows "client_inv U (addCall k (length (cl_heap c)) (c\<lparr>cl_heap := cl_heap c @ [\<lparr>pc_done = False, pc_status = [], pc_body = []\<rparr>]\<rparr>)
     \<lparr>cl_threads := (cl_threads c)[i := T_Wait k (length (cl_heap c))]\<rparr>)" (is "client_inv U (addCall k ?n ?c \<lparr>cl_threads := _\<rparr>)")
proof -
  note d = client_invD [OF inv]
  have "cl_calls c k = None"
  proof (rule ccontr)
    assume "cl_calls c k \<noteq> None"
    then obtain j p where "j < length (cl_threads c)" "in_flight (cl_threads c ! j) = Some (k, p)"
      using calls_ok_iff [OF d(2)] by fastforce
    moreover from this have "j = i" using in_flight_unique [OF d(1) i] t by simp
    ultimately show False using t by simp
  qed
  then have calls: "calls_ok ((cl_calls c)(k \<mapsto> ?n)) (Suc ?n) (List.map in_flight ((cl_threads c)[i := T_Wait k ?n]))"
    using calls_ok_add [OF d(2), of i k] i t by (simp add: map_update)
  have lt: "p < ?n" if "cl_calls c k' = Some p" for k' p using calls_ok_lt [OF d(2) that] .
  have ids: "ids_ok U (cl_uuid c) (List.map corr_of ((cl_threads c)[i := T_Wait k ?n]))"
    using ids_ok_forget [OF d(1), of "Some k" i] i t by (simp add: map_update)
  have heap: "heap_ok ((cl_calls c)(k \<mapsto> ?n)) (cl_heap c @ [\<lparr>pc_done = False, pc_status = [], pc_body = []\<rparr>]) (cl_seen c)"
    using d(3) lt by (auto simp: heap_ok_def nth_append)
  have reader: "reader_ok (cl_reader c) ((cl_calls c)(k \<mapsto> ?n)) (cl_heap c @ [\<lparr>pc_done = False, pc_status = [], pc_body = []\<rparr>]) (cl_seen c)"
    using d(4) by (auto simp: reader_ok_def nth_append)
  have "answer_ok (cl_seen c) (T_Wait k ?n)" by (simp add: answer_ok_def)
  from ball_update [OF d(5) this]
  show ?thesis using ids calls heap reader d(6) by (simp add: client_inv_def addCall_def)
qed

lemma delete_inv:
  assumes inv: "client_inv U c" and i: "i < length (cl_threads c)" and t: "cl_threads c ! i = T_Delete k p out"
  shows "client_inv U (deleteCall k c\<lparr>cl_threads := (cl_threads c)[i := T_Done (Some k) out]\<rparr>)"
proof -
  note d = client_invD [OF inv]
  have one: "j = i" if "j < length (List.map in_flight (cl_threads c))" "List.map in_flight (cl_threads c) ! j = Some (k, q)" for j q
    by (rule in_flight_unique [OF d(1) i]) (use that t in simp_all)
  have "calls_ok ((cl_calls c)(k := None)) (length (cl_heap c)) ((List.map in_flight (cl_threads c))[i := None])"
    by (rule calls_ok_delete [OF d(2) _ _ one]) (use i t in simp_all)
  then have "calls_ok ((cl_calls c)(k := None)) (length (cl_heap c)) (List.map in_flight ((cl_threads c)[i := T_Done (Some k) out]))"
    by (simp add: map_update)
  moreover have "ids_ok U (cl_uuid c) (List.map corr_of ((cl_threads c)[i := T_Done (Some k) out]))"
    using ids_ok_forget [OF d(1), of "Some k" i] i t by (simp add: map_update)
  moreover have "heap_ok ((cl_calls c)(k := None)) (cl_heap c) (cl_seen c)"
    "reader_ok (cl_reader c) ((cl_calls c)(k := None)) (cl_heap c) (cl_seen c)"
    using d(3,4) by (auto simp: heap_ok_def reader_ok_def split: if_splits)
  moreover have "answer_ok (cl_seen c) (T_Done (Some k) out)"
  proof -
    have "answer_ok (cl_seen c) (cl_threads c ! i)" using d(5) i by simp
    then show ?thesis using t by (cases out) (simp_all add: answer_ok_def)
  qed
  ultimately show ?thesis using d(6) ball_update [OF d(5)] by (simp add: client_inv_def deleteCall_def)
qed

lemma serve_inv:
  assumes inv: "client_inv U c" and r: "cl_reader c = R_Select"
  shows "client_inv U (Client_serveCall d c)"
proof -
  note D = client_invD [OF inv]
  have seen: "heap_ok (cl_calls c) (cl_heap c) (cl_seen c @ [d])"
    "\<forall>t \<in> set (cl_threads c). answer_ok (cl_seen c @ [d]) t"
    using D(3,5) by (auto simp: heap_ok_def answer_ok_def answers_mono split: option.splits)
  have panic: "cl_panic c \<Longrightarrow> \<not> distinct (List.map dl_CorrelationId (cl_seen c @ [d]))" using D(6) by auto
  show ?thesis
  proof (cases "cl_calls c (dl_CorrelationId d)")
    case None
    then show ?thesis
      using D(1,2) seen panic r by (simp add: Client_serveCall_def getCall_def client_inv_def reader_ok_def)
  next
    case (Some p)
    have "reader_ok (R_Serve d p) (cl_calls c) (cl_heap c) (cl_seen c @ [d])"
      unfolding reader_ok_def
    proof (intro allI impI)
      fix d' p'
      assume "R_Serve d p = R_Serve d' p'"
      then have [simp]: "d' = d" "p' = p" by simp_all
      have "\<not> distinct (List.map dl_CorrelationId (cl_seen c @ [d]))" if "pc_done (cl_heap c ! p)"
        using D(3) Some that by (force simp: heap_ok_def answers_def)
      then show "d' \<in> set (cl_seen c @ [d]) \<and> p' < length (cl_heap c) \<and>
          (\<forall>k. cl_calls c k = Some p' \<longrightarrow> k = dl_CorrelationId d') \<and>
          (pc_done (cl_heap c ! p') \<longrightarrow> \<not> distinct (List.map dl_CorrelationId (cl_seen c @ [d])))"
        using calls_ok_lt [OF D(2) Some] calls_ok_inj [OF D(2) _ Some] by auto
    qed
    then show ?thesis
      using D(1,2) seen panic Some by (simp add: Client_serveCall_def getCall_def client_inv_def)
  qed
qed

lemma close_done_inv:
  assumes inv: "client_inv U c" and r: "cl_reader c = R_Serve d p"
  shows "client_inv U (close_done d p c)"
proof -
  note D = client_invD [OF inv]
  have r': "d \<in> set (cl_seen c)" "p < length (cl_heap c)" "\<And>k. cl_calls c k = Some p \<Longrightarrow> k = dl_CorrelationId d"
    "pc_done (cl_heap c ! p) \<Longrightarrow> \<not> distinct (List.map dl_CorrelationId (cl_seen c))"
    using D(4) r by (auto simp: reader_ok_def)
  show ?thesis
  proof (cases "pc_done (cl_heap c ! p)")
    case True
    then show ?thesis using inv r'(4) by (simp add: close_done_def client_inv_def)
  next
    case False
    let ?hp = "(cl_heap c)[p := \<lparr>pc_done = True, pc_status = dl_Type d, pc_body = dl_Body d\<rparr>]"
    have "heap_ok (cl_calls c) ?hp (cl_seen c)"
      unfolding heap_ok_def
    proof (intro allI impI)
      fix k q
      assume kq: "cl_calls c k = Some q" "pc_done (?hp ! q)"
      show "answers (cl_seen c) (Some k) (pc_status (?hp ! q)) (pc_body (?hp ! q))"
      proof (cases "q = p")
        case True
        then show ?thesis using kq r'(1-3) by (auto simp: answers_def)
      next
        case False
        then show ?thesis using kq D(3) by (simp add: heap_ok_def)
      qed
    qed
    then show ?thesis using D False by (simp add: close_done_def client_inv_def reader_ok_def)
  qed
qed

lemma remoteCall_inv:
  assumes U: "inj U" and inv: "client_inv U c" and i: "i < length (cl_threads c)"
    and t: "(t, c') \<in> set (remoteCall U ex trace published (cl_threads c ! i) c)"
  shows "client_inv U (c'\<lparr>cl_threads := (cl_threads c')[i := t]\<rparr>)"
proof (cases "cl_threads c ! i")
  case (T_Pre h q)
  then obtain err c1 where p: "(err, c1) \<in> set (preRemoteCallWait c)"
    and e: "(t, c') = (case err of
         Some e \<Rightarrow> (T_Done None (Failed (Errorf ''rmq_rpc client - Client - RemoteCall - c.preWait'' e)), c1)
       | None \<Rightarrow> (T_Publish (U (cl_uuid c1)) h q, c1\<lparr>cl_uuid := cl_uuid c1 + 1\<rparr>))"
    using t by auto
  have inv1: "client_inv U c1" "cl_threads c1 = cl_threads c"
    using p inv by (auto elim!: preRemoteCallWait_cases intro: client_inv_reader)
  show ?thesis
  proof (cases err)
    case None
    have "ids_ok U (Suc (cl_uuid c1)) (List.map corr_of ((cl_threads c1)[i := T_Publish (U (cl_uuid c1)) h q]))"
      using ids_ok_fresh [OF U client_invD(1) [OF inv1(1)], of i] by (simp add: map_update)
    moreover have "List.map in_flight ((cl_threads c1)[i := T_Publish (U (cl_uuid c1)) h q]) = List.map in_flight (cl_threads c1)"
      using i T_Pre inv1(2) by (metis in_flight.simps(3,4) list_update_id map_update)
    moreover have "answer_ok (cl_seen c1) (T_Publish (U (cl_uuid c1)) h q)" by (simp add: answer_ok_def)
    ultimately show ?thesis
      using e None client_invD [OF inv1(1)] ball_update by (simp add: client_inv_def)
  next
    case (Some x)
    then show ?thesis using e thread_update [OF inv1(1), of i] i inv1(2) T_Pre by (simp add: answer_ok_def)
  qed
next
  case (T_Publish k h q)
  then have c': "c' = c \<or> (\<exists>ms. c' = c\<lparr>cl_sent := ms\<rparr>)" and tt: "(\<exists>x. t = T_Done (Some k) (Failed x)) \<or> t = T_Add k"
    using t by (auto simp: Client_publish_def Let_def split: sum.splits option.splits prod.splits)
  have "client_inv U c'" "cl_threads c' = cl_threads c" using c' client_inv_frame [OF inv] by auto
  then show ?thesis using thread_update [of U c' i t] i T_Publish tt by (auto simp: answer_ok_def)
next
  case (T_Add k)
  then show ?thesis using t add_inv [OF inv i T_Add] by (simp add: Let_def addCall_def)
next
  case (T_Wait k p)
  then obtain err where p: "(err, c') \<in> set (remoteCallWait p c)"
    and e: "t = T_Delete k p (case err of
            Some e \<Rightarrow> Failed (Errorf ''rmq_rpc client - Client - RemoteCall - c.remoteCallWait'' e)
          | None \<Rightarrow> Replied (pc_status (cl_heap c' ! p)) (pc_body (cl_heap c' ! p)))"
    using t by auto
  have calls: "cl_calls c k = Some p" using calls_ok_iff [OF client_invD(2) [OF inv], of k p] i T_Wait by fastforce
  from p have "client_inv U c' \<and> cl_threads c' = cl_threads c \<and> cl_seen c' = cl_seen c \<and> answer_ok (cl_seen c) t"
  proof (cases rule: remoteCallWait_cases)
    case 1
    then show ?thesis
      using inv e calls client_invD(3) [OF inv] by (cases err) (auto simp: answer_ok_def heap_ok_def)
  next
    case (2 x)
    then show ?thesis using client_inv_reader [OF inv, of "R_Close x"] e by (auto simp: answer_ok_def)
  qed
  then show ?thesis using thread_update [of U c' i t] i T_Wait e by simp
next
  case (T_Delete k p out)
  then show ?thesis using t delete_inv [OF inv i T_Delete] by (simp add: deleteCall_def)
next
  case (T_Done k out)
  then show ?thesis using t by simp
qed

lemma client_step_inv:
  assumes "client_step U ex trace c c'" "inj U" "client_inv U c"
  shows "client_inv U c'"
  using assms(1)
proof cases
  case (step_call h q)
  then show ?thesis
    using client_invD [OF assms(3)] ids_ok_append calls_ok_append by (auto simp: client_inv_def answer_ok_def)
next
  case (step_thread i t c1 published)
  then show ?thesis using remoteCall_inv [OF assms(2,3)] by simp
next
  case step_deliver
  then show ?thesis using serve_inv [OF assms(3)] by simp
next
  case step_close_done
  then show ?thesis using close_done_inv [OF assms(3)] by simp
qed (auto intro: client_inv_frame [OF assms(3)] simp: )

lemma client_reach_inv: "client_reach U ex trace c \<Longrightarrow> inj U \<Longrightarrow> client_inv U c"
proof (induction rule: client_reach.induct)
  case reach_new
  show ?case
    by (simp add: client_inv_def NewClient_def ids_ok_def calls_ok_def heap_ok_def reader_ok_def)
next
  case (reach_step c c')
  then show ?case using client_step_inv by blast
qed

section \<open>Runs\<close>

text \<open>Moves that name the step to take, so that a run can be computed; a thread takes the \<^verbatim>\<open>n\<close>-th ready branch.\<close>

datatype move =
    M_Call string "string res"
  | M_Thread nat "goerr option" nat
  | M_Deliver delivery
  | M_CloseDone
  | M_ReconnectFails goerr
  | M_Shutdown

definition client_move :: "(nat \<Rightarrow> string) \<Rightarrow> string \<Rightarrow> (string \<times> string) list \<Rightarrow> move \<Rightarrow> Client \<Rightarrow> Client option" where
  "client_move U ex trace mv c =
     (if cl_panic c then None else
      case mv of
        M_Call h q \<Rightarrow> Some (c\<lparr>cl_threads := cl_threads c @ [T_Pre h q]\<rparr>)
      | M_Thread i published n \<Rightarrow>
          (if i < length (cl_threads c) then
             let ys = remoteCall U ex trace published (cl_threads c ! i) c in
             if n < length ys then (case ys ! n of (t, c') \<Rightarrow> Some (c'\<lparr>cl_threads := (cl_threads c')[i := t]\<rparr>)) else None
           else None)
      | M_Deliver d \<Rightarrow> (if cl_reader c = R_Select then Some (Client_serveCall d c) else None)
      | M_CloseDone \<Rightarrow> (case cl_reader c of R_Serve d p \<Rightarrow> Some (close_done d p c) | _ \<Rightarrow> None)
      | M_ReconnectFails err \<Rightarrow> (if cl_reader c = R_Select then Some (c\<lparr>cl_reader := R_Notify err\<rparr>) else None)
      | M_Shutdown \<Rightarrow> (if cl_stop c then None else Some (c\<lparr>cl_stop := True\<rparr>)))"

fun client_run :: "(nat \<Rightarrow> string) \<Rightarrow> string \<Rightarrow> (string \<times> string) list \<Rightarrow> move list \<Rightarrow> Client \<Rightarrow> Client option" where
  "client_run U ex trace [] c = Some c"
| "client_run U ex trace (mv # mvs) c =
     (case client_move U ex trace mv c of None \<Rightarrow> None | Some c' \<Rightarrow> client_run U ex trace mvs c')"

lemma client_move_step: "client_move U ex trace mv c = Some c' \<Longrightarrow> client_step U ex trace c c'"
proof (cases mv)
  case (M_Thread i published n)
  assume mv: "client_move U ex trace mv c = Some c'"
  let ?ys = "remoteCall U ex trace published (cl_threads c ! i) c"
  obtain t c1 where "?ys ! n = (t, c1)" by fastforce
  moreover from this mv M_Thread have *: "\<not> cl_panic c" "i < length (cl_threads c)" "n < length ?ys"
    "c' = c1\<lparr>cl_threads := (cl_threads c1)[i := t]\<rparr>"
    by (auto simp: client_move_def Let_def split: if_splits)
  ultimately have "(t, c1) \<in> set ?ys" using nth_mem by metis
  with * show ?thesis by (auto intro: step_thread)
qed (auto simp: client_move_def intro: client_step.intros split: if_splits reader.splits)

lemma client_run_reach:
  "client_run U ex trace mvs c = Some c' \<Longrightarrow> client_reach U ex trace c \<Longrightarrow> client_reach U ex trace c'"
  by (induction mvs arbitrary: c) (auto split: option.splits dest: client_move_step intro: reach_step)

lemmas client_run_reachable = client_run_reach [OF _ reach_new]

text \<open>The moves of one call up to a given point, and a delivery that answers the first id.\<close>

definition published_moves :: "move list" where
  "published_moves = [M_Call ''v1.auth.login'' (Inr ''q''), M_Thread 0 None 0, M_Thread 0 None 0]"

definition reply_to :: "string \<Rightarrow> delivery" where
  "reply_to k = \<lparr>dl_Type = rpc_Success, dl_CorrelationId = k, dl_ReplyTo = [], dl_Headers = Map.empty, dl_Body = ''ok''\<rparr>"

lemmas client_run_defs = client_move_def published_moves_def NewClient_def preRemoteCallWait_def remoteCallWait_def failing_def
  Client_publish_def addCall_def deleteCall_def getCall_def Client_serveCall_def close_done_def reply_to_def Let_def

lemma answered_run:
  "\<exists>c. client_run U ex trace (published_moves @ [M_Thread 0 None 0, M_Deliver (reply_to (U 0)), M_CloseDone,
       M_Thread 0 None 1, M_Thread 0 None 0]) NewClient = Some c \<and>
     cl_threads c = [T_Done (Some (U 0)) (Replied rpc_Success ''ok'')] \<and> cl_seen c = [reply_to (U 0)]"
  by (simp add: client_run_defs)

lemma panic_run:
  "\<exists>c. client_run U ex trace (published_moves @ [M_Thread 0 None 0, M_Deliver (reply_to (U 0)), M_CloseDone,
       M_Deliver (reply_to (U 0)), M_CloseDone]) NewClient = Some c \<and> cl_panic c"
  by (simp add: client_run_defs)

lemma early_run:
  "\<exists>c. client_run U ex trace (published_moves @ [M_Deliver (reply_to (U 0)), M_Thread 0 None 0]) NewClient = Some c \<and>
     cl_threads c = [T_Wait (U 0) 0] \<and> cl_reader c = R_Select \<and> cl_seen c = [reply_to (U 0)] \<and> \<not> pc_done (cl_heap c ! 0)"
  by (simp add: client_run_defs)

lemma blocked_run:
  "\<exists>c. client_run U ex trace [M_ReconnectFails (ExtErr ''dial''), M_Shutdown] NewClient = Some c \<and>
     cl_threads c = [] \<and> cl_stop c \<and> cl_reader c = R_Notify (ExtErr ''dial'')"
  by (simp add: client_run_defs)

section \<open>Properties\<close>



text \<open>C40: where the client is fragile.  A second reply to a call that has not returned yet closes its channel twice, which
  panics; a reply that arrives between the publication of a call and its registration is dropped, and the call waits on; and when
  the reader has an error to report and no call is there to take it, a shutdown waits for the reader for ever: no step but a
  new call moves it.\<close>

theorem rmq_client_hazards:
  "(\<exists>c. client_reach U ex trace c \<and> cl_panic c) \<and>
   (\<exists>c k p. client_reach U ex trace c \<and> cl_threads c = [T_Wait k p] \<and> cl_reader c = R_Select \<and> \<not> pc_done (cl_heap c ! p) \<and>
      (\<exists>d \<in> set (cl_seen c). dl_CorrelationId d = k)) \<and>
   (\<exists>c err. client_reach U ex trace c \<and> cl_stop c \<and> cl_threads c = [] \<and> cl_reader c = R_Notify err \<and>
      (\<forall>c'. client_step U ex trace c c' \<longrightarrow> cl_threads c' = [] \<longrightarrow> c' = c))"
proof (intro conjI)
  show "\<exists>c. client_reach U ex trace c \<and> cl_panic c"
    using panic_run [where U = U and ex = ex and trace = trace] client_run_reachable by blast
  obtain c where c: "client_run U ex trace (published_moves @ [M_Deliver (reply_to (U 0)), M_Thread 0 None 0]) NewClient = Some c"
    "cl_threads c = [T_Wait (U 0) 0]" "cl_reader c = R_Select" "cl_seen c = [reply_to (U 0)]" "\<not> pc_done (cl_heap c ! 0)"
    using early_run by blast
  then show "\<exists>c k p. client_reach U ex trace c \<and> cl_threads c = [T_Wait k p] \<and> cl_reader c = R_Select \<and>
      \<not> pc_done (cl_heap c ! p) \<and> (\<exists>d \<in> set (cl_seen c). dl_CorrelationId d = k)"
    using client_run_reachable [OF c(1)] by (intro exI [of _ c] exI [of _ "U 0"] exI [of _ 0]) (simp add: reply_to_def)
  obtain c where b: "client_run U ex trace [M_ReconnectFails (ExtErr ''dial''), M_Shutdown] NewClient = Some c"
    "cl_threads c = []" "cl_stop c" "cl_reader c = R_Notify (ExtErr ''dial'')" using blocked_run by blast
  have "c' = c" if "client_step U ex trace c c'" "cl_threads c' = []" for c'
    using that(1) by cases (use that(2) b in auto)
  then show "\<exists>c err. client_reach U ex trace c \<and> cl_stop c \<and> cl_threads c = [] \<and> cl_reader c = R_Notify err \<and>
      (\<forall>c'. client_step U ex trace c c' \<longrightarrow> cl_threads c' = [] \<longrightarrow> c' = c)"
    using client_run_reachable [OF b(1)] b by blast
qed

theorem rmq_client_hazards_witness:
  "\<exists>c. client_reach (\<lambda>n. replicate n (CHR ''i'')) ''client'' [] c \<and> cl_panic c"
  using rmq_client_hazards [of "\<lambda>n. replicate n (CHR ''i'')" "''client''" "[]"] by blast

text \<open>C9: over RabbitMQ an account request gives the caller exactly what the use case gives behind its validation.  The
  message that the client publishes is answered on the client's exchange under the same correlation id, with the database
  changed as by a local call, and from status and body of that answer the client makes the local result, or ``internal server
  error'' where the local call fails.\<close>

theorem amqp_call_exact:
  assumes "request_read_back K J q" "\<And>a. fst (account_call K E q w) = Some a \<Longrightarrow> result_read_back K J a"
    and "Client_publish ex trace corrID (handler_name q) (request_body J (Some q)) None c = (err, c')"
  shows "err = None \<and> (\<exists>d reply. cl_sent c' = cl_sent c @ [d] \<and> dl_CorrelationId reply = corrID \<and>
     Amqp_serveCall K (Amqp_NewRouter K E) d w = ((ex, reply), snd (account_call K E q w)) \<and>
     Amqp_reply_result J (dl_Type reply) (dl_Body reply) r = call_outcome (fst (account_call K E q w)) r)"
proof -
  obtain s where s: "en_request J q = Inr s" "reads_request K q s" using assms(1) by (rule request_read_backE)
  let ?d = "\<lparr>dl_Type = handler_name q, dl_CorrelationId = corrID, dl_ReplyTo = ex, dl_Headers = Inject TableCarrier_Set trace Map.empty,
    dl_Body = s\<rparr>"
  have p: "err = None" "cl_sent c' = cl_sent c @ [?d]"
    using assms(3) s(1) by (auto simp: Client_publish_def request_body_def)
  obtain reply where reply: "Amqp_serveCall K (Amqp_NewRouter K E) ?d w = ((ex, reply), snd (account_call K E q w))"
    "dl_CorrelationId reply = corrID"
    "case fst (account_call K E q w) of
        None \<Rightarrow> dl_Type reply = Error_text ErrInternalServer
      | Some a \<Rightarrow> dl_Type reply = rpc_Success \<and> (\<forall>r. un_response J (dl_Body reply) r = (None, a))"
    using Amqp_serveCall_account [of ?d q K E w J, OF _ _ assms(2)] s(2) by auto
  have "Amqp_reply_result J (dl_Type reply) (dl_Body reply) r = call_outcome (fst (account_call K E q w)) r"
    using reply(3) by (auto simp: Amqp_reply_result_def call_outcome_def rpc_error_defs split: option.splits)
  then show ?thesis using p reply(1,2) by blast
qed

theorem amqp_call_exact_witness:
  "\<exists>d reply w'. Amqp_serveCall test_codec (Amqp_NewRouter test_codec test_env) d ann_world = ((''client'', reply), w') \<and>
     dl_CorrelationId reply = ''id'' \<and> Amqp_reply_result test_json (dl_Type reply) (dl_Body reply) (RToken []) = (None, RToken ''tu-ann'')"
proof -
  obtain err c' where p: "Client_publish ''client'' [] ''id'' (handler_name ann_login) (request_body test_json (Some ann_login)) None NewClient
     = (err, c')" by fastforce
  have "fst (account_call test_codec test_env ann_login ann_world) = Some a \<Longrightarrow> result_read_back test_codec test_json a" for a
    using ann_login_call ann_login_read(2) by fastforce
  then have read: "fst (account_call test_codec test_env ann_login ann_world) = Some a \<Longrightarrow> result_read_back test_codec test_json a" for a .
  from amqp_call_exact [where E = test_env and w = ann_world and r = "RToken []", OF ann_login_read(1) read p] show ?thesis
    by (auto simp: ann_login_call call_outcome_def)
qed

end
