(* ===== verification/App.thy ===== *)
theory App
  imports Servers
begin

text \<open>
  The life of the process (\<^verbatim>\<open>internal/app\<close>): what start-up makes of the configuration, the servers with their
  \<^verbatim>\<open>Start\<close>, \<^verbatim>\<open>Notify\<close> and \<^verbatim>\<open>Shutdown\<close> (\<^verbatim>\<open>pkg/httpserver\<close>, \<^verbatim>\<open>pkg/grpcserver\<close>, \<^verbatim>\<open>nats_rpc/server\<close>,
  \<^verbatim>\<open>rmq_rpc/server\<close>), and the main goroutine that waits for a signal or a failure and shuts them down.
\<close>

section \<open>Start-up\<close>

text \<open>The part of the configuration that the code below reads.\<close>

record Config =
  cf_RedisURL :: string
  cf_NATSEnv :: string
  cf_NATSURL :: string
  cf_JWTSecret :: string
  cf_TokenExpiry :: int
  cf_DVRLocalDir :: string
  cf_PGURL :: string
  cf_PoolMax :: "64 word"

text \<open>
  \<^verbatim>\<open>initUseCases\<close> as a change of the environment of the service: every repository and hub is there; Redis, the job
  publisher and MinIO are there when their constructors succeed, and their errors are logged or dropped.
\<close>

definition initUseCases :: "Config \<Rightarrow> (string \<Rightarrow> goerr option) \<Rightarrow> nats_lib \<Rightarrow> minio_lib \<Rightarrow> env \<Rightarrow> env \<times> goerr list" where
  "initUseCases cfg ping N M E =
     (let redis = Redis_New ping (cf_RedisURL cfg);
          natsPub = NewPublisher N (cf_NATSEnv cfg);
          minio = Minio_New M
      in (E\<lparr>has_viewRepo := True, has_likeRepo := True, has_savedRepo := True, has_followRepo := True,
            has_commentLikeRepo := True, has_postLikeRepo := True, has_notifUc := True, has_notifHub := True,
            has_chatHub := True, has_srs := True,
            has_redis := \<not> isl redis, has_nats := \<not> isl natsPub, has_minio := \<not> isl minio,
            dvr_dir := cf_DVRLocalDir cfg, grace := 30000000,
            jwt_secret := cf_JWTSecret cfg, jwt_ttl := cf_TokenExpiry cfg\<rparr>,
          (case redis of Inl err \<Rightarrow> [Errorf ''app - initUseCases - redispkg.New'' err] | Inr _ \<Rightarrow> []) @
          (case minio of Inl err \<Rightarrow> [Errorf ''app - initUseCases - pkgminio.New'' err] | Inr _ \<Rightarrow> [])))"

section \<open>Servers\<close>

text \<open>
  The goroutine of a server runs until its listener returns.  An error is put on \<^verbatim>\<open>notify\<close>, which has room for one, the
  channel is closed, and the error is what \<^verbatim>\<open>eg.Wait\<close> later returns.
\<close>

record server =
  sv_running :: bool
  sv_notify :: "goerr list"
  sv_notify_closed :: bool
  sv_result :: "goerr option"

definition Server_Start :: server where
  "Server_Start = \<lparr>sv_running = True, sv_notify = [], sv_notify_closed = False, sv_result = None\<rparr>"

definition listener_returns :: "goerr option \<Rightarrow> server \<Rightarrow> server" where
  "listener_returns r s =
     (case r of
        Some err \<Rightarrow> s\<lparr>sv_running := False, sv_notify := sv_notify s @ [err], sv_notify_closed := True, sv_result := Some err\<rparr>
      | None \<Rightarrow> s\<lparr>sv_running := False\<rparr>)"

text \<open>
  The goroutine that each \<^verbatim>\<open>Start\<close> runs, by what its blocking calls return: \<^verbatim>\<open>Listen\<close>; \<^verbatim>\<open>Listen\<close> and \<^verbatim>\<open>Serve\<close>; \<^verbatim>\<open>Subscribe\<close>,
  after which it waits for \<^verbatim>\<open>stop\<close>; the loop \<^verbatim>\<open>handleMessages\<close>.
\<close>

definition Http_Start :: "goerr option \<Rightarrow> server \<Rightarrow> server" where
  "Http_Start listen s = listener_returns listen s"

definition Grpc_Start :: "goerr option \<Rightarrow> goerr option \<Rightarrow> server \<Rightarrow> server" where
  "Grpc_Start listen serve s =
     (case listen of Some err \<Rightarrow> listener_returns (Some err) s | None \<Rightarrow> listener_returns serve s)"

definition Nats_subscribe :: "goerr option \<Rightarrow> goerr option" where
  "Nats_subscribe r = map_option (Errorf ''nats_rpc server - subscribe - s.conn.AttemptConnect'') r"

definition Nats_Start :: "goerr option \<Rightarrow> server \<Rightarrow> server" where
  "Nats_Start subscribed s = listener_returns (Nats_subscribe subscribed) s"

text \<open>
  The loop of the RabbitMQ server over what its \<^verbatim>\<open>select\<close> receives.  It answers what the loop has returned, if it has,
  and what was published.
\<close>

datatype rmq_event = E_Cancelled | E_Stop | E_Closed | E_Delivery delivery

fun Rmq_handleMessages ::
  "codec \<Rightarrow> (string \<Rightarrow> amqp_handler option) \<Rightarrow> amqp_lib \<Rightarrow> rmq_event list \<Rightarrow> Connection \<Rightarrow> world \<Rightarrow>
   goerr option option \<times> (string \<times> delivery) list \<times> Connection \<times> world" where
  "Rmq_handleMessages K router L [] conn w = (None, [], conn, w)"
| "Rmq_handleMessages K router L (E_Cancelled # evs) conn w = (Some (Some Canceled), [], conn, w)"
| "Rmq_handleMessages K router L (E_Stop # evs) conn w = (Some None, [], conn, w)"
| "Rmq_handleMessages K router L (E_Closed # evs) conn w =
     (case AttemptConnect L conn of
        (Some err, conn) \<Rightarrow> (Some (Some err), [], conn, w)
      | (None, conn) \<Rightarrow> Rmq_handleMessages K router L evs conn w)"
| "Rmq_handleMessages K router L (E_Delivery d # evs) conn w =
     (case Amqp_serveCall K router d w of
        (p, w) \<Rightarrow> (case Rmq_handleMessages K router L evs conn w of (r, ps, conn, w) \<Rightarrow> (r, p # ps, conn, w)))"

definition Rmq_Start :: "goerr option \<Rightarrow> server \<Rightarrow> server" where
  "Rmq_Start handled s = listener_returns handled s"

fun deliveries :: "rmq_event list \<Rightarrow> delivery list" where
  "deliveries [] = []"
| "deliveries (E_Delivery d # evs) = d # deliveries evs"
| "deliveries (_ # evs) = deliveries evs"

lemma Amqp_serveCall_reply: "Amqp_serveCall K router d w = ((ex, reply), w') \<Longrightarrow> ex = dl_ReplyTo d \<and> dl_CorrelationId reply = dl_CorrelationId d"
  by (auto simp: Amqp_serveCall_def Amqp_publish_def split: option.splits prod.splits sum.splits)

text \<open>The server answers the deliveries in their order, each once, on its exchange and under its correlation id.\<close>

lemma Rmq_handleMessages_replies:
  "Rmq_handleMessages K router L evs conn w = (r, ps, conn', w') \<Longrightarrow>
   List.map (\<lambda>(ex, reply). (ex, dl_CorrelationId reply)) ps =
   take (length ps) (List.map (\<lambda>d. (dl_ReplyTo d, dl_CorrelationId d)) (deliveries evs))"
proof (induction evs arbitrary: conn w r ps conn' w')
  case (Cons e evs)
  then show ?case
    by (cases e) (fastforce split: prod.splits option.splits dest: Amqp_serveCall_reply)+
qed simp

text \<open>Receiving from \<^verbatim>\<open>Notify()\<close>: an error that waits there, the nil of a closed channel, or nothing to receive.\<close>

definition receive :: "server \<Rightarrow> (goerr option \<times> server) option" where
  "receive s =
     (case sv_notify s of
        err # rest \<Rightarrow> Some (Some err, s\<lparr>sv_notify := rest\<rparr>)
      | [] \<Rightarrow> if sv_notify_closed s then Some (None, s) else None)"

text \<open>
  What the four \<^verbatim>\<open>Shutdown\<close> methods return once the goroutine has returned: the errors, but for cancellation, that
  \<^verbatim>\<open>errors.Join\<close> combines (the empty list is nil).
\<close>

definition reported :: "goerr option \<Rightarrow> goerr list" where
  "reported r = (case r of Some err \<Rightarrow> if errors_Is err Canceled then [] else [err] | None \<Rightarrow> [])"

definition Http_Shutdown :: "goerr option \<Rightarrow> server \<Rightarrow> goerr list" where
  "Http_Shutdown stopped s = reported stopped @ reported (sv_result s)"

definition Grpc_Shutdown :: "server \<Rightarrow> goerr list" where
  "Grpc_Shutdown s = reported (sv_result s)"

definition Nats_Shutdown :: "bool \<Rightarrow> goerr option \<Rightarrow> server \<Rightarrow> goerr list" where
  "Nats_Shutdown subscribed unsubscribed s =
     reported (sv_result s) @ (if subscribed then (case unsubscribed of Some err \<Rightarrow> [err] | None \<Rightarrow> []) else [])"

definition Rmq_Shutdown :: "goerr option \<Rightarrow> server \<Rightarrow> goerr list" where
  "Rmq_Shutdown closed s = reported (sv_result s) @ (case closed of Some err \<Rightarrow> [err] | None \<Rightarrow> [])"

section \<open>The application\<close>

text \<open>
  The main goroutine waits; then it asks the servers to stop one after the other, HTTP, gRPC, NATS, each time waiting for
  the goroutine of the server, and returns.  It logs what it meets.
\<close>

datatype phase = Waiting | StopHttp | StopGrpc | StopNats | Exited

record app =
  ap_http :: server
  ap_grpc :: server
  ap_nats :: "server option"
  ap_phase :: phase
  ap_log :: "(string \<times> goerr list) list"

definition startServers :: "bool \<Rightarrow> app" where
  "startServers has_nats_server =
     \<lparr>ap_http = Server_Start, ap_grpc = Server_Start, ap_nats = (if has_nats_server then Some Server_Start else None),
      ap_phase = Waiting, ap_log = []\<rparr>"

definition log_errors :: "string \<Rightarrow> goerr list \<Rightarrow> (string \<times> goerr list) list" where
  "log_errors m errs = (if errs = [] then [] else [(m, errs)])"

definition leave_waiting :: "string \<Rightarrow> goerr option \<Rightarrow> app \<Rightarrow> app" where
  "leave_waiting m err a =
     a\<lparr>ap_phase := StopHttp, ap_log := ap_log a @ [(m, case err of Some e \<Rightarrow> [e] | None \<Rightarrow> [])]\<rparr>"

inductive app_step :: "app \<Rightarrow> app \<Rightarrow> bool" where
  http_fails: "sv_running (ap_http a) \<Longrightarrow> app_step a (a\<lparr>ap_http := Http_Start (Some err) (ap_http a)\<rparr>)"
| grpc_fails: "sv_running (ap_grpc a) \<Longrightarrow> listen \<noteq> None \<or> serve \<noteq> None \<Longrightarrow>
    app_step a (a\<lparr>ap_grpc := Grpc_Start listen serve (ap_grpc a)\<rparr>)"
| nats_fails: "ap_nats a = Some s \<Longrightarrow> sv_running s \<Longrightarrow> app_step a (a\<lparr>ap_nats := Some (Nats_Start (Some err) s)\<rparr>)"
| signalled: "ap_phase a = Waiting \<Longrightarrow> app_step a (leave_waiting ''app - Run - signal'' None a)"
| http_notifies: "ap_phase a = Waiting \<Longrightarrow> receive (ap_http a) = Some (err, s) \<Longrightarrow>
    app_step a (leave_waiting ''app - Run - httpServer.Notify'' err (a\<lparr>ap_http := s\<rparr>))"
| grpc_notifies: "ap_phase a = Waiting \<Longrightarrow> receive (ap_grpc a) = Some (err, s) \<Longrightarrow>
    app_step a (leave_waiting ''app - Run - grpcServer.Notify'' err (a\<lparr>ap_grpc := s\<rparr>))"
| http_stops: "ap_phase a = StopHttp \<Longrightarrow> sv_running (ap_http a) \<Longrightarrow>
    app_step a (a\<lparr>ap_http := Http_Start None (ap_http a)\<rparr>)"
| http_down: "ap_phase a = StopHttp \<Longrightarrow> \<not> sv_running (ap_http a) \<Longrightarrow>
    app_step a (a\<lparr>ap_phase := StopGrpc,
      ap_log := ap_log a @ log_errors ''app - Run - httpServer.Shutdown'' (Http_Shutdown stopped (ap_http a))\<rparr>)"
| grpc_stops: "ap_phase a = StopGrpc \<Longrightarrow> sv_running (ap_grpc a) \<Longrightarrow>
    app_step a (a\<lparr>ap_grpc := Grpc_Start None None (ap_grpc a)\<rparr>)"
| grpc_down: "ap_phase a = StopGrpc \<Longrightarrow> \<not> sv_running (ap_grpc a) \<Longrightarrow>
    app_step a (a\<lparr>ap_phase := StopNats,
      ap_log := ap_log a @ log_errors ''app - Run - grpcServer.Shutdown'' (Grpc_Shutdown (ap_grpc a))\<rparr>)"
| nats_stops: "ap_phase a = StopNats \<Longrightarrow> ap_nats a = Some s \<Longrightarrow> sv_running s \<Longrightarrow>
    app_step a (a\<lparr>ap_nats := Some (Nats_Start None s)\<rparr>)"
| nats_down: "ap_phase a = StopNats \<Longrightarrow> ap_nats a = Some s \<Longrightarrow> \<not> sv_running s \<Longrightarrow>
    app_step a (a\<lparr>ap_phase := Exited,
      ap_log := ap_log a @ log_errors ''app - Run - natsServer.Shutdown'' (Nats_Shutdown subscribed unsubscribed s)\<rparr>)"
| no_nats: "ap_phase a = StopNats \<Longrightarrow> ap_nats a = None \<Longrightarrow> app_step a (a\<lparr>ap_phase := Exited\<rparr>)"

inductive app_reach :: "app \<Rightarrow> bool" where
  app_start: "app_reach (startServers n)"
| app_next: "app_reach a \<Longrightarrow> app_step a b \<Longrightarrow> app_reach b"

inductive_cases app_stepE: "app_step a b"

text \<open>\<^verbatim>\<open>Run\<close> up to the start: it ends the process when tracing or the database cannot be set up.\<close>

datatype run_result = RunFatal goerr | Running env "goerr list" app

definition Run ::
  "Config \<Rightarrow> goerr option \<Rightarrow> pg_lib \<Rightarrow> (string \<Rightarrow> goerr option) \<Rightarrow> nats_lib \<Rightarrow> minio_lib \<Rightarrow> goerr option \<Rightarrow> env \<Rightarrow> run_result" where
  "Run cfg tracing L ping N M natsServer E =
     (case tracing of
        Some err \<Rightarrow> RunFatal (Errorf ''app - Run - tracing.New'' err)
      | None \<Rightarrow>
          (case Postgres_New L (cf_PGURL cfg) [MaxPoolSize (cf_PoolMax cfg)] of
             Inl err \<Rightarrow> RunFatal (Errorf ''app - Run - postgres.New'' err)
           | Inr _ \<Rightarrow>
               (case initUseCases cfg ping N M E of
                  (E, errs) \<Rightarrow>
                    Running E
                      (errs @ (if cf_NATSURL cfg \<noteq> [] then (case natsServer of Some err \<Rightarrow> [Errorf ''app - Run - natsServer'' err] | None \<Rightarrow> []) else []))
                      (startServers (cf_NATSURL cfg \<noteq> [] \<and> natsServer = None)))))"

section \<open>Properties\<close>

text \<open>A server that has stopped while the main goroutine waits has something to receive.\<close>

definition server_ok :: "server \<Rightarrow> bool" where
  "server_ok s \<longleftrightarrow> (sv_running s \<longrightarrow> sv_notify s = [] \<and> \<not> sv_notify_closed s)"

definition app_inv :: "app \<Rightarrow> bool" where
  "app_inv a \<longleftrightarrow>
     server_ok (ap_http a) \<and> server_ok (ap_grpc a) \<and>
     (\<not> sv_running (ap_http a) \<longrightarrow> sv_notify_closed (ap_http a) \<or> ap_phase a \<noteq> Waiting) \<and>
     (\<not> sv_running (ap_grpc a) \<longrightarrow> sv_notify_closed (ap_grpc a) \<or> ap_phase a \<notin> {Waiting, StopHttp}) \<and>
     (ap_phase a \<in> {StopGrpc, StopNats, Exited} \<longrightarrow> \<not> sv_running (ap_http a)) \<and>
     (ap_phase a \<in> {StopNats, Exited} \<longrightarrow> \<not> sv_running (ap_grpc a)) \<and>
     (ap_phase a = Exited \<longrightarrow> (\<forall>s. ap_nats a = Some s \<longrightarrow> \<not> sv_running s))"

lemma listener_returns_simps [simp]:
  "\<not> sv_running (listener_returns r s)"
  "sv_notify_closed (listener_returns (Some err) s)"
  "sv_notify_closed (listener_returns None s) = sv_notify_closed s"
  "server_ok (listener_returns r s)"
  by (simp_all add: listener_returns_def server_ok_def split: option.split)

lemma start_simps [simp]:
  "Http_Start r s = listener_returns r s"
  "Grpc_Start listen serve s = listener_returns (case listen of Some err \<Rightarrow> Some err | None \<Rightarrow> serve) s"
  "Nats_Start r s = listener_returns (Nats_subscribe r) s"
  "Nats_subscribe None = None" "Nats_subscribe (Some err) = Some (Errorf ''nats_rpc server - subscribe - s.conn.AttemptConnect'' err)"
  by (simp_all add: Http_Start_def Grpc_Start_def Nats_Start_def Nats_subscribe_def split: option.split)

lemma receive_Some: "receive s = Some (err, s') \<Longrightarrow> server_ok s \<Longrightarrow>
  \<not> sv_running s' \<and> sv_running s' = sv_running s \<and> sv_notify_closed s' = sv_notify_closed s \<and> server_ok s'"
  by (auto simp: receive_def server_ok_def split: list.splits if_splits)

lemma app_step_inv:
  assumes "app_step a b" "app_inv a"
  shows "app_inv b"
  using assms(1)
proof cases
  case (http_notifies err s)
  then show ?thesis using receive_Some [OF http_notifies(3)] assms(2) by (auto simp: app_inv_def leave_waiting_def)
next
  case (grpc_notifies err s)
  then show ?thesis using receive_Some [OF grpc_notifies(3)] assms(2) by (auto simp: app_inv_def leave_waiting_def)
next
  case (grpc_fails listen serve)
  then show ?thesis using assms(2) by (cases listen; cases serve) (simp_all add: app_inv_def)
qed (use assms(2) in \<open>simp_all add: app_inv_def leave_waiting_def\<close>)

lemma app_reach_inv: "app_reach a \<Longrightarrow> app_inv a"
proof (induction rule: app_reach.induct)
  case (app_start n)
  then show ?case by (simp add: app_inv_def startServers_def Server_Start_def server_ok_def)
qed (blast intro: app_step_inv)

lemma stop_http: "ap_phase a = StopHttp \<Longrightarrow> \<exists>b. app_step\<^sup>*\<^sup>* a b \<and> ap_phase b = StopGrpc"
proof -
  assume p: "ap_phase a = StopHttp"
  have down: "\<exists>b. app_step a b \<and> ap_phase b = StopGrpc" if "ap_phase a = StopHttp" "\<not> sv_running (ap_http a)" for a
    using http_down [OF that, of None] by force
  show ?thesis
  proof (cases "sv_running (ap_http a)")
    case True
    then show ?thesis
      using http_stops [OF p True] down [of "a\<lparr>ap_http := Http_Start None (ap_http a)\<rparr>"] p
      by (auto intro: converse_rtranclp_into_rtranclp)
  qed (use down p in blast)
qed

lemma stop_grpc: "ap_phase a = StopGrpc \<Longrightarrow> \<exists>b. app_step\<^sup>*\<^sup>* a b \<and> ap_phase b = StopNats"
proof -
  assume p: "ap_phase a = StopGrpc"
  have down: "\<exists>b. app_step a b \<and> ap_phase b = StopNats" if "ap_phase a = StopGrpc" "\<not> sv_running (ap_grpc a)" for a
    using grpc_down [OF that] by force
  show ?thesis
  proof (cases "sv_running (ap_grpc a)")
    case True
    then show ?thesis
      using grpc_stops [OF p True] down [of "a\<lparr>ap_grpc := Grpc_Start None None (ap_grpc a)\<rparr>"] p
      by (auto intro: converse_rtranclp_into_rtranclp)
  qed (use down p in blast)
qed

lemma stop_nats: "ap_phase a = StopNats \<Longrightarrow> \<exists>b. app_step\<^sup>*\<^sup>* a b \<and> ap_phase b = Exited"
proof -
  assume p: "ap_phase a = StopNats"
  have down: "\<exists>b. app_step a b \<and> ap_phase b = Exited" if "ap_phase a = StopNats" "ap_nats a = Some s" "\<not> sv_running s" for a s
    using nats_down [OF that, of False None] by force
  show ?thesis
  proof (cases "ap_nats a")
    case None
    then show ?thesis using r_into_rtranclp [of app_step, OF no_nats [OF p None]] by force
  next
    case (Some s)
    show ?thesis
    proof (cases "sv_running s")
      case True
      then show ?thesis
        using nats_stops [OF p Some True] down [of "a\<lparr>ap_nats := Some (Nats_Start None s)\<rparr>" "Nats_Start None s"] p
        by (auto intro: converse_rtranclp_into_rtranclp)
    qed (use down p Some in blast)
  qed
qed

lemma app_exits: "ap_phase a \<noteq> Waiting \<Longrightarrow> \<exists>b. app_step\<^sup>*\<^sup>* a b \<and> ap_phase b = Exited"
proof -
  have nats: "\<exists>b. app_step\<^sup>*\<^sup>* a b \<and> ap_phase b = Exited" if "ap_phase a \<in> {StopNats, Exited}" for a
    using that stop_nats by blast
  have grpc: "\<exists>b. app_step\<^sup>*\<^sup>* a b \<and> ap_phase b = Exited" if "ap_phase a \<in> {StopGrpc, StopNats, Exited}" for a
    using that nats stop_grpc by (metis insertCI insertE rtranclp_trans)
  assume "ap_phase a \<noteq> Waiting"
  then show ?thesis using grpc stop_http by (cases "ap_phase a") (metis insertCI rtranclp_trans)+
qed



end
