(* ===== verification/Observe.thy ===== *)
theory Observe
  imports Users
begin

text \<open>
  Observation: the tracing decorators around the user repository and use case (\<^verbatim>\<open>tracing.go\<close> of both), the logger
  (\<^verbatim>\<open>pkg/logger\<close>), and the logging and recovery middleware of the REST API.  Spans and log lines are appended to lists.
\<close>

section \<open>Spans\<close>

record span =
  sp_name :: string
  sp_attributes :: "(string \<times> string) list"
  sp_error :: "goerr option"

text \<open>
  \<^verbatim>\<open>startSpan\<close> opens a span and \<^verbatim>\<open>endSpan\<close> records the error, if any, and ends it; a span is listed when it ends.
\<close>

definition startSpan :: "string \<Rightarrow> (string \<times> string) list \<Rightarrow> span" where
  "startSpan name attrs = \<lparr>sp_name = name, sp_attributes = attrs, sp_error = None\<rparr>"

definition endSpan :: "span \<Rightarrow> 'a res \<Rightarrow> span list \<Rightarrow> span list" where
  "endSpan span r ended = ended @ [case r of Inl err \<Rightarrow> span\<lparr>sp_error := Some err\<rparr> | Inr _ \<Rightarrow> span]"

type_synonym 'a traced = "world \<times> span list \<Rightarrow> 'a res \<times> world \<times> span list"

definition traced :: "span \<Rightarrow> (world \<Rightarrow> 'a res \<times> world) \<Rightarrow> 'a traced" where
  "traced span call s = (case s of (w, ended) \<Rightarrow> case call w of (result, w) \<Rightarrow> (result, w, endSpan span result ended))"

definition tracedRepo_Store :: "env \<Rightarrow> User \<Rightarrow> unit traced" where
  "tracedRepo_Store E user = traced (startSpan ''UserRepo.Store'' [(''user.id'', u_ID user)]) (UserRepo_Store E user)"

definition tracedRepo_GetByID :: "env \<Rightarrow> string \<Rightarrow> User traced" where
  "tracedRepo_GetByID E i = traced (startSpan ''UserRepo.GetByID'' [(''user.id'', i)]) (UserRepo_GetByID E i)"

definition tracedRepo_GetByEmail :: "env \<Rightarrow> string \<Rightarrow> User traced" where
  "tracedRepo_GetByEmail E email = traced (startSpan ''UserRepo.GetByEmail'' [(''user.email'', email)]) (UserRepo_GetByEmail E email)"

definition tracedRepo_GetByUsername :: "env \<Rightarrow> string \<Rightarrow> User traced" where
  "tracedRepo_GetByUsername E username =
     traced (startSpan ''UserRepo.GetByUsername'' [(''user.username'', username)]) (UserRepo_GetByUsername E username)"

definition tracedRepo_Update :: "env \<Rightarrow> User \<Rightarrow> unit traced" where
  "tracedRepo_Update E user = traced (startSpan ''UserRepo.Update'' [(''user.id'', u_ID user)]) (UserRepo_Update E user)"

definition tracedRepo_List :: "env \<Rightarrow> int \<Rightarrow> int \<Rightarrow> (User list \<times> int) traced" where
  "tracedRepo_List E page limit = traced (startSpan ''UserRepo.List'' []) (UserRepo_List E page limit)"

definition tracedUseCase_Register :: "env \<Rightarrow> string \<Rightarrow> string \<Rightarrow> string \<Rightarrow> User traced" where
  "tracedUseCase_Register E username email password =
     traced (startSpan ''UserUseCase.Register'' [(''user.email'', email)]) (User_Register E username email password)"

definition tracedUseCase_Login :: "env \<Rightarrow> string \<Rightarrow> string \<Rightarrow> string traced" where
  "tracedUseCase_Login E email password =
     traced (startSpan ''UserUseCase.Login'' [(''user.email'', email)]) (User_Login E email password)"

definition tracedUseCase_GetUser :: "env \<Rightarrow> string \<Rightarrow> User traced" where
  "tracedUseCase_GetUser E userID = traced (startSpan ''UserUseCase.GetUser'' [(''user.id'', userID)]) (User_GetUser E userID)"

definition tracedUseCase_UpdateUser :: "env \<Rightarrow> string \<Rightarrow> string \<Rightarrow> string \<Rightarrow> string \<Rightarrow> User traced" where
  "tracedUseCase_UpdateUser E userID username email avatar =
     traced (startSpan ''UserUseCase.UpdateUser'' [(''user.id'', userID)]) (User_UpdateUser E userID username email avatar)"

definition tracedUseCase_RefreshToken :: "env \<Rightarrow> string \<Rightarrow> string traced" where
  "tracedUseCase_RefreshToken E refreshToken =
     traced (startSpan ''UserUseCase.RefreshToken'' []) (User_RefreshToken E refreshToken)"

lemma traced_transparent:
  "traced span call (w, ended) = (r, w', ended') \<longleftrightarrow>
     call w = (r, w') \<and> ended' = ended @ [span\<lparr>sp_error := (case r of Inl err \<Rightarrow> Some err | Inr _ \<Rightarrow> sp_error span)\<rparr>]"
  by (cases r) (auto simp: traced_def endSpan_def split: prod.splits)

lemmas traced_defs = tracedRepo_Store_def tracedRepo_GetByID_def tracedRepo_GetByEmail_def tracedRepo_GetByUsername_def
  tracedRepo_Update_def tracedRepo_List_def tracedUseCase_Register_def tracedUseCase_Login_def tracedUseCase_GetUser_def
  tracedUseCase_UpdateUser_def tracedUseCase_RefreshToken_def

text \<open>No password and no token becomes an attribute of a span.\<close>

lemma attributes_are_harmless:
  "\<exists>s. sp_attributes s \<in> {[], [(''user.email'', email)]} \<and>
     tracedUseCase_Register E username email password = traced s (User_Register E username email password)"
  "\<exists>s. sp_attributes s \<in> {[], [(''user.email'', email)]} \<and>
     tracedUseCase_Login E email password = traced s (User_Login E email password)"
  "\<exists>s. sp_attributes s = [] \<and> tracedUseCase_RefreshToken E token = traced s (User_RefreshToken E token)"
  by (force simp: traced_defs startSpan_def)+

section \<open>Logger\<close>

datatype level = DebugLevel | InfoLevel | WarnLevel | ErrorLevel | FatalLevel

text \<open>\<^verbatim>\<open>logger.New\<close>: the level that becomes zerolog's global level.\<close>

definition Logger_New :: "string \<Rightarrow> level" where
  "Logger_New lvl =
     (if ToLower lvl = ''error'' then ErrorLevel
      else if ToLower lvl = ''warn'' then WarnLevel
      else if ToLower lvl = ''info'' then InfoLevel
      else if ToLower lvl = ''debug'' then DebugLevel
      else InfoLevel)"

text \<open>A message is an error (with its text), a string, or something else; \<^verbatim>\<open>Msgf\<close> and \<^verbatim>\<open>Sprintf\<close> are parameters.\<close>

datatype 'x message = ErrorMsg string | StringMsg string | OtherMsg 'x

definition log_line :: "(string \<Rightarrow> 'x list \<Rightarrow> string) \<Rightarrow> level \<Rightarrow> string \<Rightarrow> 'x list \<Rightarrow> (level \<times> string) list \<Rightarrow> (level \<times> string) list" where
  "log_line fmt lvl m args out = out @ [(lvl, if length args = 0 then m else fmt m args)]"

definition log_msg ::
  "(string \<Rightarrow> 'x list \<Rightarrow> string) \<Rightarrow> (level \<Rightarrow> 'x \<Rightarrow> string) \<Rightarrow> level \<Rightarrow> 'x message \<Rightarrow> 'x list \<Rightarrow> (level \<times> string) list \<Rightarrow> (level \<times> string) list" where
  "log_msg fmt unknown lvl m args out =
     (case m of
        ErrorMsg t \<Rightarrow> log_line fmt lvl t args out
      | StringMsg t \<Rightarrow> log_line fmt lvl t args out
      | OtherMsg x \<Rightarrow> log_line fmt lvl (unknown lvl x) args out)"

definition Logger_Info :: "(string \<Rightarrow> 'x list \<Rightarrow> string) \<Rightarrow> string \<Rightarrow> 'x list \<Rightarrow> (level \<times> string) list \<Rightarrow> (level \<times> string) list" where
  "Logger_Info fmt m args = log_line fmt InfoLevel m args"

definition Logger_Error ::
  "(string \<Rightarrow> 'x list \<Rightarrow> string) \<Rightarrow> (level \<Rightarrow> 'x \<Rightarrow> string) \<Rightarrow> 'x message \<Rightarrow> 'x list \<Rightarrow> (level \<times> string) list \<Rightarrow> (level \<times> string) list" where
  "Logger_Error fmt unknown m args = log_msg fmt unknown ErrorLevel m args"

section \<open>Middleware\<close>

definition buildRequestMessage :: "string \<Rightarrow> string \<Rightarrow> string \<Rightarrow> nat \<Rightarrow> nat \<Rightarrow> string" where
  "buildRequestMessage ip meth originalURL status body_length =
     ip @ '' - '' @ meth @ '' '' @ originalURL @ '' - '' @ itoa (int status) @ '' '' @ itoa (int body_length)"

text \<open>
  The middleware around the rest of the chain, which answers a status and the length of a body; event streams are not
  logged.
\<close>

definition Logger_middleware ::
  "string \<Rightarrow> string \<Rightarrow> string \<Rightarrow> string \<Rightarrow> ('w \<Rightarrow> (nat \<times> nat) \<times> 'w) \<Rightarrow> 'w \<times> string list \<Rightarrow> (nat \<times> nat) \<times> 'w \<times> string list" where
  "Logger_middleware ip meth originalURL path next s =
     (case s of (w, lines) \<Rightarrow>
        case next w of ((status, n), w) \<Rightarrow>
          if Contains path ''/events/'' then ((status, n), w, lines)
          else ((status, n), w, lines @ [buildRequestMessage ip meth originalURL status n]))"

definition buildPanicMessage :: "string \<Rightarrow> string \<Rightarrow> string \<Rightarrow> string \<Rightarrow> string \<Rightarrow> string" where
  "buildPanicMessage ip meth originalURL err stack =
     ip @ '' - '' @ meth @ '' '' @ originalURL @ '' PANIC DETECTED: '' @ err @ [CHR 0x0A] @ stack @ [CHR 0x0A]"

lemma Logger_middleware_transparent:
  "(case Logger_middleware ip m url path next (w, lines) of (r, w', _) \<Rightarrow> (r, w')) = next w"
  by (auto simp: Logger_middleware_def split: prod.splits)

end
