(* ===== verification/Spec2Isabelle.thy ===== *)
theory Spec2Isabelle
  imports Service Streams Grpc RpcClient App Observe
begin

text \<open>
  A model of the backend of PipeVid, a video and livestream platform written in Go, and the proof of
  what makes its components correct.

  \<^bold>\<open>The program.\<close>  \<^verbatim>\<open>internal/controller/restapi\<close> is an HTTP API: a router with
  authentication middleware and one handler per endpoint.  A handler decodes and validates a request and
  calls a use case of \<^verbatim>\<open>internal/usecase\<close>, which works through the repositories of
  \<^verbatim>\<open>internal/repo/persistent\<close> on PostgreSQL and Redis, publishes transcode jobs on NATS
  (\<^verbatim>\<open>pkg/nats\<close>), and tells connected clients through the hubs of \<^verbatim>\<open>internal/events\<close>.  Work that
  outlives a request: goroutines that tell the followers of a channel, the timers that end a livestream
  some seconds after the media server reported it unpublished, a loop that reconciles live rows with the media
  server, and a loop that trains the recommendation model.  The account use case is also reached over gRPC
  (\<^verbatim>\<open>controller/grpc\<close>) and, as remote calls, over NATS and RabbitMQ (\<^verbatim>\<open>controller/nats_rpc\<close>, \<^verbatim>\<open>amqp_rpc\<close>, with
  servers and clients in \<^verbatim>\<open>pkg/nats\<close> and \<^verbatim>\<open>pkg/rabbitmq\<close>).  \<^verbatim>\<open>internal/app\<close> starts the servers and shuts them down.

  \<^bold>\<open>State and effects\<close> (theory \<^verbatim>\<open>Store\<close>).  The record \<^typ>\<open>world\<close> is the state of the whole
  service: the database as one list of rows per table of \<^verbatim>\<open>migrations/\<close>, the log of Redis commands, the
  three hubs, the goroutines started and not yet run, the jobs published, the pending stream ends, the armed
  timers and the fired callbacks, and a counter of interactions.  The record \<^typ>\<open>env\<close> holds what is not
  code of the repository: clock, UUID source, bcrypt and JWT library, PostgreSQL faults, Redis, NATS,
  the media server, the file system, MinIO, and \<^verbatim>\<open>strconv.ParseFloat\<close>.  Every answer of these depends on the
  number of the interaction, so a theorem holds for every schedule of faults; \<^verbatim>\<open>healthy E\<close> says that the
  database never fails.  A statement is a function from a database to an error code or the number of rows and the
  new database; it checks the keys, foreign keys and column widths of the schema.  Errors are values of
  \<^typ>\<open>goerr\<close> with Go's wrapping and \<^verbatim>\<open>errors.Is\<close>; an operation is a function from a world to a result and a world,
  and a run-time panic is \<^const>\<open>None\<close>.

  \<^bold>\<open>Theories.\<close>
  \<^item> \<^verbatim>\<open>Prelude\<close>, \<^verbatim>\<open>GoStd\<close>: errors, 64-bit integers with their wrap-around, page arithmetic; \<^verbatim>\<open>strings\<close>,
    \<^verbatim>\<open>strconv\<close>, \<^verbatim>\<open>time\<close>.  \<^verbatim>\<open>Floats\<close>: \<^verbatim>\<open>float64\<close> as IEEE binary64 in its 64-bit representation.
  \<^item> \<^verbatim>\<open>Entities\<close>: \<^verbatim>\<open>internal/entity\<close> and the DTOs of \<^verbatim>\<open>restapi/v1/request\<close> and \<^verbatim>\<open>response\<close>.
  \<^item> \<^verbatim>\<open>Hubs\<close>: \<^verbatim>\<open>internal/events\<close>, buffered channels on an explicit heap; locale \<^verbatim>\<open>room_hub\<close> is the contract
    of a fan-out hub, interpreted on all three.
  \<^item> \<^verbatim>\<open>Store\<close>, \<^verbatim>\<open>TestEnv\<close>, \<^verbatim>\<open>Tables\<close>, \<^verbatim>\<open>Paging\<close>: the world and the driver; a concrete environment for
    the witnesses; the contracts of a keyed table and of a paged listing as locales, interpreted by the
    components.
  \<^item> \<^verbatim>\<open>Users\<close>: accounts, \<^verbatim>\<open>pkg/jwt\<close>, \<^verbatim>\<open>usecase/user\<close>.  \<^verbatim>\<open>Follows\<close>, \<^verbatim>\<open>Marks\<close> (comment and post likes,
    saved videos; locales of a toggle), \<^verbatim>\<open>Likes\<close>, \<^verbatim>\<open>History\<close> (watch history and preferences), \<^verbatim>\<open>Words\<close>
    (vocabulary), \<^verbatim>\<open>Comments\<close>, \<^verbatim>\<open>Posts\<close>, \<^verbatim>\<open>Notifications\<close>, \<^verbatim>\<open>Admin\<close>: repository, mapper and use case
    of each.
  \<^item> \<^verbatim>\<open>Videos\<close>, \<^verbatim>\<open>Views\<close>, \<^verbatim>\<open>VideoUse\<close>, \<^verbatim>\<open>Subtitles\<close>: the video repository, view counting in Redis, the video
    use case with the transcode life cycle, the WebVTT parser and the subtitle tracks.
  \<^item> \<^verbatim>\<open>Livestreams\<close>, \<^verbatim>\<open>StreamLife\<close>, \<^verbatim>\<open>StreamSync\<close>: livestreams, their timers as a step relation, and the
    reconciliation.
  \<^item> \<^verbatim>\<open>Recommend\<close>: training by stochastic gradient descent and the personalized feed.
  \<^item> \<^verbatim>\<open>Rest\<close>, \<^verbatim>\<open>RestSocial\<close>, \<^verbatim>\<open>RestVideo\<close>, \<^verbatim>\<open>Router\<close>: validation tags, middleware, every handler, and the
    routes in their order with Fiber's matching.
  \<^item> \<^verbatim>\<open>Service\<close>: the REST server as one step relation over all of the above.
  \<^item> \<^verbatim>\<open>Streams\<close>: the event streams behind the SSE handlers, from the channel of a hub over the relay goroutine and
    the writer to the bytes, with \<^verbatim>\<open>encoding/json\<close> for the events and the rules by which a client reads
    (locale \<^verbatim>\<open>event_source\<close>).
  \<^item> \<^verbatim>\<open>Grpc\<close>: the account API over gRPC, interceptor and service.  \<^verbatim>\<open>Rpc\<close>: the controllers and servers for NATS and
    RabbitMQ, the NATS client, and the carriers of trace context (locale \<^verbatim>\<open>carrier\<close>).  \<^verbatim>\<open>RpcClient\<close>: the RabbitMQ
    client as a step relation of concurrent calls and a reader.
  \<^item> \<^verbatim>\<open>Servers\<close>: the retry loops (locale \<^verbatim>\<open>retry\<close>, interpreted on RabbitMQ and PostgreSQL), migrations and the clients that
    start-up builds.  \<^verbatim>\<open>App\<close>: start-up, the servers' goroutines and the shutdown as a step relation.
    \<^verbatim>\<open>Observe\<close>: tracing decorators, logger and logging middleware.

  A definition carries the name of its Go function, prefixed by its type where names clash
  (\<^verbatim>\<open>VideoRepo_Update\<close>, \<^verbatim>\<open>Video_PublishVideo\<close>, \<^verbatim>\<open>V1_publishVideo\<close>).

  \<^bold>\<open>What the lemmas show.\<close>  Each table has an invariant (\<^verbatim>\<open>users_ok\<close>, \<^verbatim>\<open>videos_ok\<close>, ...) that every
  statement of the program preserves and a frame lemma that it touches no other table; each operation is
  \<^verbatim>\<open>quiet\<close> (it only reads) or an \<^verbatim>\<open>effect\<close> of a set of statements.  From these come the properties of the
  components, and in \<^verbatim>\<open>Service\<close> the invariant of every reachable state, for any order of requests,
  timers, goroutines and faults, and the absence of panics outside three listings.  The contracts of the
  locales give the listings (the pages of a list are together the list), the toggles (twice is
  nothing) and the hubs (what is sent arrives in order until a buffer is full).

  \<^bold>\<open>Bounds.\<close>  Recursion is structural or, for a few string functions, on the length of what is left: the loops of the
  program run over lists that are read before, so no fuel is needed; training runs the source's fifty epochs.  Page numbers and limits are
  Go \<^verbatim>\<open>int\<close>s with wrap-around; the paging theorems require \<^verbatim>\<open>small_int\<close>, within 31 bits, where a product
  of two does not wrap.

  \<^bold>\<open>Modelling choices.\<close>  A request is one step (hubs, pending ends and the model are behind mutexes in the
  source; the database is not serialised between statements of different requests).  A failed statement is not
  applied.  Rows that \<^verbatim>\<open>ORDER BY\<close> leaves tied stand in the order of their insertion; groups in the
  order of their first row.  Text is compared by bytes.  \<^verbatim>\<open>CURRENT_TIMESTAMP\<close> is the clock at the statement.  Instants
  are microseconds, the precision of the columns.  The parts of error texts that quote arguments are left out.  The
  optional dependencies of the use cases are flags (\<^verbatim>\<open>has_redis\<close>, \<^verbatim>\<open>has_nats\<close>, ...).  After a recovered
  panic the model keeps the state before the panicking request.  Floating-point multiplication and addition are
  rounded separately, as on amd64.  Timers and callbacks run in any order once due.

  The brokers are parameters: \<^verbatim>\<open>broker_laws\<close> says of NATS that a request is handled once and answered, handled
  and its answer lost, or not delivered; RabbitMQ may deliver anything to the client at any time.  In \<^verbatim>\<open>RpcClient\<close> an access
  to the map of calls, a branch of a \<^verbatim>\<open>select\<close> and the closing of a channel are single steps and a timer may fire at any time.

  \<^bold>\<open>Not modelled.\<close>  \<^verbatim>\<open>initServers\<close>, which only passes the parts to constructors, and the options of the HTTP server;
  the environment parser behind \<^verbatim>\<open>config\<close>; the set-up of the tracing exporter (\<^verbatim>\<open>pkg/tracing\<close>), metrics and CORS, which are
  calls of libraries; the Go interfaces (\<^verbatim>\<open>usecase/contracts.go\<close>, \<^verbatim>\<open>repo/contracts.go\<close>), for which the definitions of their
  implementations stand; the generated \<^verbatim>\<open>docs\<close>; the Docker and
  media-server configuration.
\<close>

end
